(* ===== verification/KVCR_Prelude.thy ===== *)
theory KVCR_Prelude
  imports Complex_Main "HOL-Library.AList" "HOL-Library.Product_Lexorder" "HOL-Library.Word"
begin

text \<open>
  The types, Python idioms and generic lemmas that the component theories share.

  A Python \<open>dict\<close> keeps its insertion order and the code iterates over its dicts, so a dict is an
  association list with distinct keys: \<open>d[k] = v\<close> is \<^term>\<open>AList.update k v d\<close> (an existing key keeps
  its place, a new one goes last), \<open>d.pop(k)\<close> is \<^term>\<open>AList.delete k d\<close> and \<open>d.get(k)\<close> is
  \<^term>\<open>map_of d k\<close>. A raised exception is a value of \<open>exn\<close> on the left of a sum; \<open>OutOfFuel\<close> is not a
  Python exception but the value of a bounded loop whose bound was too small.
\<close>

named_theorems dict_simps "rewriting dict operations to map updates"
named_theorems slice_simps "lengths and contents of Python slices"

type_synonym byte = "8 word"
type_synonym bytes = "byte list"
type_synonym ('k, 'v) dict = "('k \<times> 'v) list"

datatype exn =
    ValueError string
  | TypeError string
  | RuntimeError string
  | KeyError string
  | IndexError string
  | OutOfFuel
  | EOFError
  | OSError string
  | RecoveryMirrorError string
  | RecoveryJournalError string
  | RecoveryJournalTornError string
  | KVCRServiceError string
  | KVCRSocketError string
  | KVCRMsgFramingError string
  | KVCRGuardProtocolError string
  | PermissionError string
  | TimeoutError string
  | BufferError string
  | KVCRStartupError string
  | MsgspecError string

type_synonym 'a res = "exn + 'a"

definition bindR :: "'a res \<Rightarrow> ('a \<Rightarrow> 'b res) \<Rightarrow> 'b res" where
  "bindR r f = (case r of Inl e \<Rightarrow> Inl e | Inr x \<Rightarrow> f x)"

lemma bindR_simps [simp]: "bindR (Inl e) f = Inl e" "bindR (Inr x) f = f x"
  by (simp_all add: bindR_def)

lemma bindR_eq_Inr: "bindR r f = Inr y \<longleftrightarrow> (\<exists>x. r = Inr x \<and> f x = Inr y)"
  by (cases r) auto

definition is_ok :: "'a res \<Rightarrow> bool" where
  "is_ok r = (case r of Inl _ \<Rightarrow> False | Inr _ \<Rightarrow> True)"

lemma is_ok_simps [simp]: "\<not> is_ok (Inl e)" "is_ok (Inr x)"
  by (simp_all add: is_ok_def)

lemma is_ok_iff: "is_ok r \<longleftrightarrow> (\<exists>x. r = Inr x)"
  by (cases r) auto

subsection \<open>Dicts\<close>

definition dict_wf :: "('k, 'v) dict \<Rightarrow> bool" where
  "dict_wf d = distinct (map fst d)"

lemma map_of_update [dict_simps, simp]: "map_of (AList.update k v d) = (map_of d)(k \<mapsto> v)"
  by (rule AList.update_conv')

lemma map_of_delete [dict_simps, simp]: "map_of (AList.delete k d) = (map_of d)(k := None)"
  by (rule AList.delete_conv')

lemma dict_wf_Nil [simp]: "dict_wf []"
  by (simp add: dict_wf_def)

lemma dict_wf_update [simp, intro]: "dict_wf d \<Longrightarrow> dict_wf (AList.update k v d)"
  by (simp add: dict_wf_def AList.distinct_update)

lemma dict_wf_delete [simp, intro]: "dict_wf d \<Longrightarrow> dict_wf (AList.delete k d)"
  by (simp add: dict_wf_def AList.distinct_delete)

lemma dict_wf_map_of: "dict_wf d \<Longrightarrow> (k, v) \<in> set d \<longleftrightarrow> map_of d k = Some v"
  by (simp add: dict_wf_def)

lemma length_update: "length (AList.update k v d) = (if map_of d k = None then Suc (length d) else length d)"
  by (induction d) auto

lemma length_delete_le: "length (AList.delete k d) \<le> length d"
  by (simp add: AList.delete_eq)

lemma dom_dict_finite [simp]: "finite {k. map_of d k \<noteq> None}"
  using finite_dom_map_of [of d] by (simp add: dom_def)

lemma in_values_iff: "dict_wf d \<Longrightarrow> v \<in> snd ` set d \<longleftrightarrow> (\<exists>k. map_of d k = Some v)"
  by (force simp: dict_wf_map_of [symmetric])

text \<open>Adding to a set that is later iterated over: a list without repetition, in insertion order.\<close>

definition add_end :: "'a \<Rightarrow> 'a list \<Rightarrow> 'a list" where
  "add_end x xs = (if x \<in> set xs then xs else xs @ [x])"

lemma set_add_end [simp]: "set (add_end x xs) = insert x (set xs)"
  by (auto simp: add_end_def)

lemma distinct_add_end [simp]: "distinct (add_end x xs) = distinct xs"
  by (auto simp: add_end_def)

subsection \<open>Labels\<close>

text \<open>\<open>label.partition(":")\<close>: the text before the first colon, whether there is one, the rest.\<close>

definition partition_label :: "string \<Rightarrow> string \<times> bool \<times> string" where
  "partition_label l =
     (takeWhile (\<lambda>c. c \<noteq> CHR '':'') l,
      CHR '':'' \<in> set l,
      drop 1 (dropWhile (\<lambda>c. c \<noteq> CHR '':'') l))"

definition label_pool :: "string \<Rightarrow> string" where
  "label_pool l = fst (partition_label l)"

lemma label_pool_no_colon: "CHR '':'' \<notin> set (label_pool l)"
  by (auto simp: label_pool_def partition_label_def dest: set_takeWhileD)

lemma takeWhile_no_colon: "CHR '':'' \<notin> set p \<Longrightarrow> takeWhile (\<lambda>c. c \<noteq> CHR '':'') p = p"
  by (induction p) auto

lemma label_pool_plain: "CHR '':'' \<notin> set p \<Longrightarrow> label_pool p = p"
  by (simp add: label_pool_def partition_label_def takeWhile_no_colon)

lemma label_pool_append: "CHR '':'' \<notin> set p \<Longrightarrow> label_pool (p @ CHR '':'' # q) = p"
  by (induction p) (auto simp: label_pool_def partition_label_def)

subsection \<open>Slices of byte buffers\<close>

definition slice :: "nat \<Rightarrow> nat \<Rightarrow> 'a list \<Rightarrow> 'a list" where
  "slice start n xs = take n (drop start xs)"

definition slice_set :: "nat \<Rightarrow> 'a list \<Rightarrow> 'a list \<Rightarrow> 'a list" where
  "slice_set start data xs = take start xs @ data @ drop (start + length data) xs"

lemma length_slice [slice_simps, simp]: "start + n \<le> length xs \<Longrightarrow> length (slice start n xs) = n"
  by (simp add: slice_def)

lemma length_slice_set [slice_simps, simp]:
  "start + length data \<le> length xs \<Longrightarrow> length (slice_set start data xs) = length xs"
  by (simp add: slice_set_def)

lemma nth_slice: "i < n \<Longrightarrow> start + n \<le> length xs \<Longrightarrow> slice start n xs ! i = xs ! (start + i)"
  by (simp add: slice_def)

lemma nth_slice_set:
  assumes "start + length data \<le> length xs" and "i < length xs"
  shows "slice_set start data xs ! i =
    (if start \<le> i \<and> i < start + length data then data ! (i - start) else xs ! i)"
  using assms by (auto simp: slice_set_def nth_append min_def)

lemma slice_slice_set_same [slice_simps]:
  "start + length data \<le> length xs \<Longrightarrow> slice start (length data) (slice_set start data xs) = data"
  by (simp add: slice_def slice_set_def)

subsection \<open>Rounding to a multiple\<close>

text \<open>\<open>n + (-n % a)\<close>, the source's idiom for the next multiple of \<open>a\<close>.\<close>

definition pad_to :: "nat \<Rightarrow> nat \<Rightarrow> nat" where
  "pad_to a n = n + nat ((- int n) mod int a)"

lemma pad_to_ge: "n \<le> pad_to a n"
  by (simp add: pad_to_def)

lemma pad_to_less: "0 < a \<Longrightarrow> pad_to a n < n + a"
  by (simp add: pad_to_def nat_less_iff)

lemma pad_to_dvd: "0 < a \<Longrightarrow> a dvd pad_to a n"
proof -
  assume a: "0 < a"
  have "int (pad_to a n) = int n + (- int n) mod int a"
    using a by (simp add: pad_to_def)
  also have "\<dots> mod int a = 0"
    by (simp add: mod_add_right_eq)
  finally show ?thesis
    by (metis of_nat_dvd_iff mod_0_imp_dvd)
qed

end
