(* ===== verification/KVCR_Frames.thy ===== *)
theory KVCR_Frames
  imports KVCR_Prelude
begin

text \<open>
  The byte formats of the service: fixed-width integers as \<open>struct\<close> packs them, the typed keyed frames
  that the recovery journal and the handback region share (\<open>service/recovery_journal.py\<close>), and the
  length-prefixed messages of \<open>FramedConnection\<close> (\<open>runtime/control_channels.py\<close>).

  The locale \<open>framed_codec\<close> states what makes a concatenation of frames readable again; it is
  interpreted on both formats.
\<close>

subsection \<open>Fixed-width integers\<close>

definition le_bytes :: "nat \<Rightarrow> nat \<Rightarrow> bytes" where
  "le_bytes w n = map (\<lambda>i. word_of_nat (n div 256 ^ i)) [0..<w]"

fun le_value :: "bytes \<Rightarrow> nat" where
  "le_value [] = 0"
| "le_value (b # bs) = unat b + 256 * le_value bs"

definition be_bytes :: "nat \<Rightarrow> nat \<Rightarrow> bytes" where
  "be_bytes w n = rev (le_bytes w n)"

definition be_value :: "bytes \<Rightarrow> nat" where
  "be_value bs = le_value (rev bs)"

lemma length_le_bytes [simp]: "length (le_bytes w n) = w"
  by (simp add: le_bytes_def)

lemma length_be_bytes [simp]: "length (be_bytes w n) = w"
  by (simp add: be_bytes_def)

lemma le_bytes_Suc: "le_bytes (Suc w) n = word_of_nat n # le_bytes w (n div 256)"
proof -
  have "[0..<Suc w] = 0 # map Suc [0..<w]"
    by (simp add: map_Suc_upt upt_conv_Cons del: upt_Suc)
  then show ?thesis
    by (simp add: le_bytes_def o_def div_mult2_eq del: upt_Suc)
qed

lemma le_bytes_2: "le_bytes 2 n = [word_of_nat n, word_of_nat (n div 256)]"
  by (simp add: le_bytes_def numeral_2_eq_2)

lemma le_bytes_4:
  "le_bytes 4 n = [word_of_nat n, word_of_nat (n div 256), word_of_nat (n div 65536), word_of_nat (n div 16777216)]"
proof -
  have "[0..<4] = [0, 1, 2, 3 :: nat]" by (simp add: upt_conv_Cons)
  then show ?thesis by (simp add: le_bytes_def)
qed

lemma unat_byte: "unat (word_of_nat n :: byte) = n mod 256"
  by (simp add: unat_of_nat)

lemma le_value_le_bytes: "le_value (le_bytes w n) = n mod 256 ^ w"
proof (induction w arbitrary: n)
  case 0
  then show ?case by (simp add: le_bytes_def)
next
  case (Suc w)
  have "le_value (le_bytes (Suc w) n) = n mod 256 + 256 * (n div 256 mod 256 ^ w)"
    by (simp add: le_bytes_Suc Suc unat_byte)
  also have "\<dots> = n mod 256 ^ Suc w"
    by (simp add: mod_mult2_eq)
  finally show ?case .
qed

lemma le_roundtrip: "n < 256 ^ w \<Longrightarrow> le_value (le_bytes w n) = n"
  by (simp add: le_value_le_bytes)

lemma be_roundtrip: "n < 256 ^ w \<Longrightarrow> be_value (be_bytes w n) = n"
  by (simp add: be_value_def be_bytes_def le_roundtrip)

lemma le_value_bound: "le_value bs < 256 ^ length bs"
proof (induction bs)
  case (Cons b bs)
  have "unat b < 256" using unsigned_less [of b, where ?'a = nat] by simp
  with Cons show ?case by simp
qed simp

lemma le_value_replicate_0 [simp]: "le_value (replicate n 0) = 0"
  by (induction n) simp_all

subsection \<open>Typed keyed frames\<close>

text \<open>\<open>_FRAME_HEADER = struct.Struct("<HHH")\<close>: frame size, record type, key size.\<close>

definition FRAME_HEADER_size :: nat where "FRAME_HEADER_size = 6"
definition MAX_FRAME_SIZE :: nat where "MAX_FRAME_SIZE = 2 ^ 16 - 1"
definition ALIGNMENT :: nat where "ALIGNMENT = 8"
definition RECORD_BLOCK :: nat where "RECORD_BLOCK = 1"
definition RECORD_TYPES :: "nat set" where "RECORD_TYPES = {RECORD_BLOCK}"

type_synonym frame = "nat \<times> bytes \<times> bytes"

definition frame_size :: "bytes \<Rightarrow> bytes \<Rightarrow> nat" where
  "frame_size key payload = FRAME_HEADER_size + length key + length payload"

definition frame_header :: "nat \<Rightarrow> nat \<Rightarrow> nat \<Rightarrow> bytes" where
  "frame_header sz t ksize = le_bytes 2 sz @ le_bytes 2 t @ le_bytes 2 ksize"

definition unpack_header :: "bytes \<Rightarrow> nat \<times> nat \<times> nat" where
  "unpack_header bs = (le_value (slice 0 2 bs), le_value (slice 2 2 bs), le_value (slice 4 2 bs))"

definition pack_frame :: "nat \<Rightarrow> bytes \<Rightarrow> bytes \<Rightarrow> nat \<Rightarrow> bytes" where
  "pack_frame t key payload sz =
     (let frame = replicate sz 0;
          frame = slice_set 0 (frame_header (frame_size key payload) t (length key)) frame;
          frame = slice_set FRAME_HEADER_size key frame
      in slice_set (FRAME_HEADER_size + length key) payload frame)"

lemmas frame_consts = FRAME_HEADER_size_def MAX_FRAME_SIZE_def ALIGNMENT_def RECORD_BLOCK_def RECORD_TYPES_def

lemma length_frame_header [simp]: "length (frame_header s t k) = FRAME_HEADER_size"
  by (simp add: frame_header_def frame_consts)

lemma pack_frame_layout:
  assumes "frame_size key payload \<le> sz"
  shows "pack_frame t key payload sz =
    frame_header (frame_size key payload) t (length key) @ key @ payload @
    replicate (sz - frame_size key payload) 0"
proof -
  have "FRAME_HEADER_size \<le> sz" "FRAME_HEADER_size + length key \<le> sz"
    using assms by (simp_all add: frame_size_def)
  then show ?thesis
    by (simp add: pack_frame_def slice_set_def Let_def frame_size_def min_def ac_simps)
qed

lemma length_pack_frame: "frame_size key payload \<le> sz \<Longrightarrow> length (pack_frame t key payload sz) = sz"
  by (simp add: pack_frame_layout frame_size_def)

lemma unpack_frame_header:
  assumes "s < 2 ^ 16" and "t < 2 ^ 16" and "k < 2 ^ 16"
  shows "unpack_header (frame_header s t k @ rest) = (s, t, k)"
proof -
  have "slice 0 2 (frame_header s t k @ rest) = le_bytes 2 s"
    "slice 2 2 (frame_header s t k @ rest) = le_bytes 2 t"
    "slice 4 2 (frame_header s t k @ rest) = le_bytes 2 k"
    by (simp_all add: slice_def frame_header_def)
  with assms show ?thesis by (simp add: unpack_header_def le_roundtrip)
qed

definition frame_ok :: "frame \<Rightarrow> bool" where
  "frame_ok f = (case f of (t, key, payload) \<Rightarrow>
     t \<in> RECORD_TYPES \<and> frame_size key payload \<le> MAX_FRAME_SIZE)"

text \<open>
  One turn of the loop in \<open>read_recovery_snapshot\<close>, over the bytes from \<open>offset\<close> to \<open>end\<close>: the frame
  at the front and the bytes after it.
\<close>

definition take_frame :: "bytes \<Rightarrow> (frame \<times> bytes) res" where
  "take_frame bs =
     (if length bs < FRAME_HEADER_size
      then Inl (RecoveryJournalError ''handback frame header is truncated'')
      else case unpack_header bs of (sz, t, ksize) \<Rightarrow>
        if sz < FRAME_HEADER_size + ksize \<or> length bs < sz
        then Inl (RecoveryJournalError ''handback frame is malformed'')
        else if t \<notin> RECORD_TYPES
        then Inl (RecoveryJournalError ''handback frame has an unknown type'')
        else Inr ((t, slice FRAME_HEADER_size ksize bs,
                   slice (FRAME_HEADER_size + ksize) (sz - (FRAME_HEADER_size + ksize)) bs),
                  drop sz bs))"

definition put_frame :: "frame \<Rightarrow> bytes" where
  "put_frame f = (case f of (t, key, payload) \<Rightarrow> pack_frame t key payload (frame_size key payload))"

lemma put_frame_layout:
  "put_frame (t, key, payload) = frame_header (frame_size key payload) t (length key) @ key @ payload"
  by (simp add: put_frame_def pack_frame_layout)

lemma take_put_frame:
  assumes "frame_ok f"
  shows "take_frame (put_frame f @ rest) = Inr (f, rest)"
proof -
  obtain t key payload where f: "f = (t, key, payload)" by (cases f) auto
  have b: "t \<in> RECORD_TYPES" "frame_size key payload < 2 ^ 16" "t < 2 ^ 16" "length key < 2 ^ 16"
    using assms by (auto simp: f frame_ok_def frame_size_def frame_consts)
  have "unpack_header (put_frame f @ rest) = (frame_size key payload, t, length key)"
    using unpack_frame_header [OF b(2,3,4)] by (simp add: f put_frame_layout)
  with b(1) show ?thesis
    by (simp add: take_frame_def f put_frame_layout frame_size_def slice_def)
qed

subsection \<open>Length-prefixed messages\<close>

text \<open>\<open>FramedConnection\<close>: a big-endian 32-bit length and that many bytes of payload.\<close>

definition MAX_FRAME_BYTES :: nat where "MAX_FRAME_BYTES = 2 ^ 20"
definition MSG_HEADER_size :: nat where "MSG_HEADER_size = 4"

text \<open>
  The msgpack codec is third-party code: an encoder \<open>enc\<close> and a decoder \<open>dec\<close> are arguments, with the
  two ways a decoder refuses a payload.
\<close>

datatype 'm decoded = Decoded 'm | ValidationError | DecodeError

definition encode_frame :: "('m \<Rightarrow> bytes) \<Rightarrow> 'm \<Rightarrow> bytes res" where
  "encode_frame enc message =
     (let payload = enc message in
      if length payload > MAX_FRAME_BYTES then Inl (KVCRMsgFramingError ''frame is too large'')
      else Inr (be_bytes 4 (length payload) @ payload))"

text \<open>\<open>send_with_fd\<close>: \<open>send_fds\<close> takes \<open>sent\<close> bytes of the frame, \<open>sendall\<close> the rest; the bytes on the wire.\<close>

definition send_with_fd :: "('m \<Rightarrow> bytes) \<Rightarrow> 'm \<Rightarrow> nat \<Rightarrow> bytes res" where
  "send_with_fd enc message sent =
     bindR (encode_frame enc message) (\<lambda>frame.
       Inr (if sent < length frame then take sent frame @ drop sent frame else take sent frame))"

text \<open>
  A stream socket as the list of the byte chunks still to arrive: \<open>recv(n)\<close> returns at most \<open>n\<close> bytes of
  the next chunk, and the empty bytes object once the peer has closed.
\<close>

fun recv :: "nat \<Rightarrow> bytes list \<Rightarrow> bytes \<times> bytes list" where
  "recv n [] = ([], [])"
| "recv n ([] # cs) = recv n cs"
| "recv n (c # cs) = (take n c, if length c \<le> n then cs else drop n c # cs)"

lemma recv_concat: "recv n cs = (d, cs') \<Longrightarrow> concat cs = d @ concat cs'"
  by (induction n cs rule: recv.induct) (auto split: if_splits)

lemma recv_length: "recv n cs = (d, cs') \<Longrightarrow> length d \<le> n"
  by (induction n cs rule: recv.induct) auto

lemma recv_Nil: "0 < n \<Longrightarrow> fst (recv n cs) = [] \<longleftrightarrow> concat cs = []"
  by (induction n cs rule: recv.induct) auto

function receive_loop :: "nat \<Rightarrow> bytes \<Rightarrow> bytes list \<Rightarrow> (bytes \<times> bytes list) res" where
  "receive_loop n chunks cs =
     (if length chunks < n then
        (case recv (n - length chunks) cs of (d, cs') \<Rightarrow>
           if d = [] then
             (if chunks = [] then Inl EOFError else Inl (KVCRMsgFramingError ''truncated frame''))
           else receive_loop n (chunks @ d) cs')
      else Inr (chunks, cs))"
  by pat_completeness auto
termination
  by (relation "measure (\<lambda>(n, chunks, cs). n - length chunks)") (auto simp: neq_Nil_conv)

declare receive_loop.simps [simp del]

definition receive_exact :: "nat \<Rightarrow> bytes list \<Rightarrow> (bytes \<times> bytes list) res" where
  "receive_exact n cs = receive_loop n [] cs"

definition decode_payload :: "(bytes \<Rightarrow> 'm decoded) \<Rightarrow> bytes \<Rightarrow> 'm res" where
  "decode_payload dec payload =
     (case dec payload of
        Decoded message \<Rightarrow> Inr message
      | ValidationError \<Rightarrow> Inl (KVCRGuardProtocolError ''invalid message payload'')
      | DecodeError \<Rightarrow> Inl (KVCRMsgFramingError ''invalid message payload''))"

definition receive_after_header :: "(bytes \<Rightarrow> 'm decoded) \<Rightarrow> bytes \<Rightarrow> bytes list \<Rightarrow> ('m \<times> bytes list) res" where
  "receive_after_header dec header cs =
     (let n = be_value header in
      if n = 0 \<or> n > MAX_FRAME_BYTES then Inl (KVCRMsgFramingError ''invalid frame length'')
      else bindR (receive_exact n cs) (\<lambda>(payload, cs').
        bindR (decode_payload dec payload) (\<lambda>message. Inr (message, cs'))))"

definition receive :: "(bytes \<Rightarrow> 'm decoded) \<Rightarrow> bytes list \<Rightarrow> ('m \<times> bytes list) res" where
  "receive dec cs =
     bindR (receive_exact MSG_HEADER_size cs) (\<lambda>(header, cs'). receive_after_header dec header cs')"

text \<open>
  \<open>receive_with_fd\<close>: \<open>recvmsg\<close> has returned the first bytes of the header, the ancillary data and whether
  it was truncated. The second component of the result is the descriptors that were closed.
\<close>

datatype ancillary = Rights "nat list" | OtherAncillary

fun rights :: "ancillary list \<Rightarrow> nat list" where
  "rights [] = []"
| "rights (Rights fds # anc) = fds @ rights anc"
| "rights (OtherAncillary # anc) = rights anc"

definition complete_header :: "bytes \<Rightarrow> bytes list \<Rightarrow> (bytes \<times> bytes list) res" where
  "complete_header header cs =
     (if length header < MSG_HEADER_size then
        (case receive_exact (MSG_HEADER_size - length header) cs of
           Inr (more, cs') \<Rightarrow> Inr (header @ more, cs')
         | Inl EOFError \<Rightarrow> Inl (KVCRMsgFramingError ''truncated frame'')
         | Inl e \<Rightarrow> Inl e)
      else Inr (header, cs))"

definition receive_with_fd ::
  "(bytes \<Rightarrow> 'm decoded) \<Rightarrow> ('m \<Rightarrow> nat set) \<Rightarrow> bytes \<Rightarrow> ancillary list \<Rightarrow> bool \<Rightarrow> bytes list \<Rightarrow>
     ('m \<times> nat list \<times> bytes list) res \<times> nat list" where
  "receive_with_fd dec expected_counts header anc ctrunc cs =
     (if header = [] then (Inl EOFError, [])
      else
        let fds = rights anc;
            r = (if ctrunc then Inl (KVCRMsgFramingError ''truncated ancillary data'')
                 else if OtherAncillary \<in> set anc then Inl (KVCRMsgFramingError ''unexpected ancillary data'')
                 else bindR (complete_header header cs) (\<lambda>(header, cs').
                   bindR (receive_after_header dec header cs') (\<lambda>(message, cs'').
                     if length fds \<notin> expected_counts message
                     then Inl (KVCRMsgFramingError ''unexpected number of file descriptors'')
                     else Inr (message, fds, cs''))))
        in (r, if is_ok r then [] else fds))"

subsection \<open>What the receiver sees of a byte stream\<close>

text \<open>The specification of one \<open>receive\<close>, over the bytes of the stream alone.\<close>

definition take_exact :: "nat \<Rightarrow> bytes \<Rightarrow> (bytes \<times> bytes) res" where
  "take_exact n bs =
     (if n \<le> length bs then Inr (take n bs, drop n bs)
      else if bs = [] then Inl EOFError else Inl (KVCRMsgFramingError ''truncated frame''))"

definition take_body :: "(bytes \<Rightarrow> 'm decoded) \<Rightarrow> bytes \<Rightarrow> bytes \<Rightarrow> ('m \<times> bytes) res" where
  "take_body dec header r =
     (let n = be_value header in
      if n = 0 \<or> n > MAX_FRAME_BYTES then Inl (KVCRMsgFramingError ''invalid frame length'')
      else bindR (take_exact n r) (\<lambda>(payload, r').
        bindR (decode_payload dec payload) (\<lambda>message. Inr (message, r'))))"

definition take_message :: "(bytes \<Rightarrow> 'm decoded) \<Rightarrow> bytes \<Rightarrow> ('m \<times> bytes) res" where
  "take_message dec bs = bindR (take_exact MSG_HEADER_size bs) (\<lambda>(header, r). take_body dec header r)"

definition flat :: "('a \<times> bytes list) res \<Rightarrow> ('a \<times> bytes) res" where
  "flat r = bindR r (\<lambda>(x, cs). Inr (x, concat cs))"

lemma flat_simps [simp]: "flat (Inl e) = Inl e" "flat (Inr (x, cs)) = Inr (x, concat cs)"
  by (simp_all add: flat_def)

lemma receive_loop_spec:
  "length chunks \<le> n \<Longrightarrow> flat (receive_loop n chunks cs) =
     (if n \<le> length (chunks @ concat cs) then Inr (take n (chunks @ concat cs), drop n (chunks @ concat cs))
      else if chunks @ concat cs = [] then Inl EOFError else Inl (KVCRMsgFramingError ''truncated frame''))"
proof (induction n chunks cs rule: receive_loop.induct)
  case (1 n chunks cs)
  obtain d cs' where r: "recv (n - length chunks) cs = (d, cs')"
    by (cases "recv (n - length chunks) cs") auto
  note rc = recv_concat [OF r] recv_length [OF r]
  show ?case
  proof (cases "length chunks < n")
    case False
    with "1.prems" show ?thesis by (simp add: receive_loop.simps [of n chunks cs])
  next
    case True
    show ?thesis
    proof (cases "d = []")
      case d: True
      have e: "concat cs = []" using recv_Nil [of "n - length chunks" cs] r d True by simp
      show ?thesis using True r d by (simp add: receive_loop.simps [of n chunks cs] e del: concat_eq_Nil_conv)
    next
      case d: False
      have "length (chunks @ d) \<le> n" using rc(2) True by simp
      from "1.IH" [OF True r [symmetric] d this] show ?thesis
        using True r d rc(1) by (simp add: receive_loop.simps [of n chunks cs])
    qed
  qed
qed

lemma receive_exact_spec: "flat (receive_exact n cs) = take_exact n (concat cs)"
  by (simp add: receive_exact_def receive_loop_spec take_exact_def)

lemma flat_bindR:
  assumes "flat r = r'" and "\<And>x cs. flat (f (x, cs)) = f' (x, concat cs)"
  shows "flat (bindR r f) = bindR r' f'"
  using assms by (cases r) auto

lemma receive_after_header_spec: "flat (receive_after_header dec header cs) = take_body dec header (concat cs)"
proof -
  have "flat (bindR (receive_exact n cs) (\<lambda>(payload, cs').
          bindR (decode_payload dec payload) (\<lambda>message. Inr (message, cs')))) =
        bindR (take_exact n (concat cs)) (\<lambda>(payload, r').
          bindR (decode_payload dec payload) (\<lambda>message. Inr (message, r')))" for n
  proof (rule flat_bindR [OF receive_exact_spec])
    fix x cs
    show "flat (case (x, cs) of (payload, cs') \<Rightarrow>
        bindR (decode_payload dec payload) (\<lambda>message. Inr (message, cs'))) =
      (case (x, concat cs) of (payload, r') \<Rightarrow>
        bindR (decode_payload dec payload) (\<lambda>message. Inr (message, r')))"
      by (cases "decode_payload dec x") auto
  qed
  then show ?thesis by (simp add: receive_after_header_def take_body_def Let_def)
qed

lemma receive_spec: "flat (receive dec cs) = take_message dec (concat cs)"
  unfolding receive_def take_message_def
  by (rule flat_bindR [OF receive_exact_spec]) (simp add: receive_after_header_spec)

subsection \<open>Concatenated frames read back\<close>

locale framed_codec =
  fixes enc :: "'a \<Rightarrow> bytes"
    and dec :: "bytes \<Rightarrow> ('a \<times> bytes) res"
    and ok :: "'a \<Rightarrow> bool"
  assumes dec_enc: "ok x \<Longrightarrow> dec (enc x @ rest) = Inr (x, rest)"
begin

primrec decs :: "nat \<Rightarrow> bytes \<Rightarrow> ('a list \<times> bytes) res" where
  "decs 0 bs = Inr ([], bs)"
| "decs (Suc n) bs = bindR (dec bs) (\<lambda>(x, r). bindR (decs n r) (\<lambda>(xs, r'). Inr (x # xs, r')))"

lemma decs_concat: "list_all ok xs \<Longrightarrow> decs (length xs) (concat (map enc xs) @ rest) = Inr (xs, rest)"
  by (induction xs) (simp_all add: dec_enc)

lemma prefix_free: "ok x \<Longrightarrow> ok y \<Longrightarrow> enc x @ r = enc y @ s \<Longrightarrow> x = y \<and> r = s"
  using dec_enc by (metis Inr_inject Pair_inject)

end

definition encoded :: "bytes \<Rightarrow> bytes" where
  "encoded payload = be_bytes 4 (length payload) @ payload"

lemma take_body_encoded:
  assumes "payload \<noteq> []" "length payload \<le> MAX_FRAME_BYTES" "dec payload = Decoded message"
  shows "take_body dec (be_bytes 4 (length payload)) (payload @ rest) = Inr (message, rest)"
proof -
  have "length payload < 256 ^ 4" using assms by (simp add: MAX_FRAME_BYTES_def)
  then have "be_value (be_bytes 4 (length payload)) = length payload" by (rule be_roundtrip)
  then show ?thesis using assms by (simp add: take_body_def take_exact_def decode_payload_def)
qed

lemma take_message_encoded:
  assumes "payload \<noteq> []" "length payload \<le> MAX_FRAME_BYTES" "dec payload = Decoded message"
  shows "take_message dec (encoded payload @ rest) = Inr (message, rest)"
  using take_body_encoded [where dec = dec, OF assms, of rest]
  by (simp add: take_message_def take_exact_def encoded_def MSG_HEADER_size_def)

interpretation handback: framed_codec put_frame take_frame frame_ok
  by unfold_locales (rule take_put_frame)

interpretation message: framed_codec encoded "take_message Decoded"
    "\<lambda>p. p \<noteq> [] \<and> length p \<le> MAX_FRAME_BYTES"
  by unfold_locales (simp add: take_message_encoded)

lemma encode_frame_Inr:
  "encode_frame enc message = Inr bs \<Longrightarrow> bs = encoded (enc message) \<and> length (enc message) \<le> MAX_FRAME_BYTES"
  by (auto simp: encode_frame_def encoded_def Let_def split: if_splits)

text \<open>
  C31. A message sent on a connection is received whole and unchanged however the socket splits the
  byte stream into chunks, and the bytes after it are left for the next message. The codec is assumed
  to decode what it encodes and to encode to at least one byte.
\<close>

theorem message_survives_chunking:
  assumes "encode_frame enc message = Inr bs" and "concat cs = bs @ rest"
    and "dec (enc message) = Decoded message" and "enc message \<noteq> []"
  shows "\<exists>cs'. receive dec cs = Inr (message, cs') \<and> concat cs' = rest"
proof -
  note e = encode_frame_Inr [OF assms(1)]
  have "flat (receive dec cs) = Inr (message, rest)"
    using receive_spec [of dec cs] take_message_encoded [where dec = dec, OF assms(4) _ assms(3), of rest]
      assms(2) e by simp
  then show ?thesis by (cases "receive dec cs") auto
qed

theorem message_survives_chunking_witness:
  "encode_frame id [7, 8, 9] = Inr [0, 0, 0, 3, 7, 8, 9] \<and>
   (\<exists>cs'. receive Decoded [[0, 0], [], [0, 3, 7], [8, 9, 1]] = Inr ([7, 8, 9], cs') \<and> concat cs' = [1])"
proof -
  have e: "encode_frame id [7, 8, 9] = Inr [0, 0, 0, 3, 7, 8, 9]"
    by (simp add: encode_frame_def MAX_FRAME_BYTES_def be_bytes_def le_bytes_4)
  show ?thesis
    using message_survives_chunking [where dec = Decoded, OF e, of "[[0, 0], [], [0, 3, 7], [8, 9, 1]]" "[1]"] e
    by simp
qed

text \<open>
  C33. A stream that ends inside a message is an error and never a message, whatever the decoder accepts.
\<close>

theorem truncated_stream_rejected:
  assumes "encode_frame enc message = Inr bs" and "n < length bs" and "concat cs = take n bs"
  shows "\<not> is_ok (receive dec cs)"
proof
  assume "is_ok (receive dec cs)"
  then obtain p cs' where "receive dec cs = Inr (p, cs')" by (auto simp: is_ok_iff)
  then have tm: "take_message dec (take n bs) = Inr (p, concat cs')"
    using receive_spec [of dec cs] assms(3) by simp
  have bs: "bs = be_bytes 4 (length (enc message)) @ enc message" "length (enc message) \<le> MAX_FRAME_BYTES"
    using encode_frame_Inr [OF assms(1)] by (simp_all add: encoded_def)
  have len: "be_value (be_bytes 4 (length (enc message))) = length (enc message)"
    using bs(2) by (intro be_roundtrip) (simp add: MAX_FRAME_BYTES_def)
  show False
    using tm assms(2) len
    by (auto simp: take_message_def take_body_def take_exact_def bindR_eq_Inr bs(1) MSG_HEADER_size_def Let_def
        split: if_splits)
qed

theorem truncated_stream_rejected_witness:
  "encode_frame id [7, 8, 9] = Inr [0, 0, 0, 3, 7, 8, 9] \<and> \<not> is_ok (receive Decoded [[0, 0], [0, 3, 7]])"
proof -
  have e: "encode_frame id [7, 8, 9] = Inr [0, 0, 0, 3, 7, 8, 9]"
    by (simp add: encode_frame_def MAX_FRAME_BYTES_def be_bytes_def le_bytes_4)
  show ?thesis
    using truncated_stream_rejected [where dec = Decoded, OF e, of 5 "[[0, 0], [0, 3, 7]]"] e by simp
qed

lemma complete_header_spec:
  assumes "header \<noteq> []" "length header \<le> MSG_HEADER_size" "header @ concat cs = h @ r" "length h = MSG_HEADER_size"
  shows "\<exists>cs'. complete_header header cs = Inr (h, cs') \<and> concat cs' = r"
proof (cases "length header < MSG_HEADER_size")
  case False
  with assms show ?thesis by (auto simp: complete_header_def)
next
  case True
  let ?n = "MSG_HEADER_size - length header"
  have c: "concat cs = drop (length header) h @ r"
    using assms(3,4) True by (metis append_eq_append_conv_if append_take_drop_id assms(2) drop_append)
  have h: "header @ drop (length header) h = h"
    using assms True by (metis append_eq_append_conv_if append_take_drop_id)
  have "flat (receive_exact ?n cs) = Inr (drop (length header) h, r)"
    using assms(4) by (simp add: receive_exact_spec take_exact_def c)
  then obtain cs' where "receive_exact ?n cs = Inr (drop (length header) h, cs')" "concat cs' = r"
    by (cases "receive_exact ?n cs") auto
  with True h show ?thesis by (simp add: complete_header_def)
qed

text \<open>
  C32. A message with descriptors is received with all of them and none closed, however the stream was
  split; and whenever the receiver refuses, every descriptor that arrived is closed.
\<close>

theorem receive_with_fd_keeps_or_closes:
  assumes "encode_frame enc message = Inr bs" and "dec (enc message) = Decoded message" and "enc message \<noteq> []"
    and "header \<noteq> []" "length header \<le> MSG_HEADER_size" "header @ concat cs = bs @ rest"
    and "OtherAncillary \<notin> set anc" and "length (rights anc) \<in> expected_counts message"
  shows "(\<exists>cs'. receive_with_fd dec expected_counts header anc False cs = (Inr (message, rights anc, cs'), []) \<and>
      concat cs' = rest) \<and>
    (\<forall>anc' ctrunc' cs' e closed. receive_with_fd dec expected_counts header anc' ctrunc' cs' = (Inl e, closed) \<longrightarrow>
      closed = rights anc')"
proof
  note e = encode_frame_Inr [OF assms(1)]
  obtain cs1 where c1: "complete_header header cs = Inr (be_bytes 4 (length (enc message)), cs1)"
      "concat cs1 = enc message @ rest"
    using complete_header_spec [OF assms(4,5), of cs "be_bytes 4 (length (enc message))" "enc message @ rest"]
      assms(6) e by (auto simp: encoded_def MSG_HEADER_size_def)
  have "flat (receive_after_header dec (be_bytes 4 (length (enc message))) cs1) = Inr (message, rest)"
    using receive_after_header_spec [of dec _ cs1] take_body_encoded [where dec = dec, OF assms(3) _ assms(2)] e c1(2)
    by simp
  then obtain cs2 where "receive_after_header dec (be_bytes 4 (length (enc message))) cs1 = Inr (message, cs2)"
      "concat cs2 = rest"
    by (cases "receive_after_header dec (be_bytes 4 (length (enc message))) cs1") auto
  then show "\<exists>cs'. receive_with_fd dec expected_counts header anc False cs = (Inr (message, rights anc, cs'), []) \<and>
      concat cs' = rest"
    using assms c1 by (simp add: receive_with_fd_def)
  show "\<forall>anc' ctrunc' cs' e closed. receive_with_fd dec expected_counts header anc' ctrunc' cs' = (Inl e, closed) \<longrightarrow>
      closed = rights anc'"
    using assms(4) by (auto simp: receive_with_fd_def Let_def)
qed

theorem receive_with_fd_keeps_or_closes_witness:
  "\<exists>cs'. receive_with_fd Decoded (\<lambda>_. {2}) [0, 0] [Rights [5, 6]] False [[0, 3], [7, 8], [9]] =
     (Inr ([7, 8, 9], [5, 6], cs'), []) \<and> concat cs' = []"
proof -
  have e: "encode_frame id [7, 8, 9] = Inr [0, 0, 0, 3, 7, 8, 9]"
    by (simp add: encode_frame_def MAX_FRAME_BYTES_def be_bytes_def le_bytes_4)
  show ?thesis
    using receive_with_fd_keeps_or_closes
      [where dec = Decoded and expected_counts = "\<lambda>_. {2}" and anc = "[Rights [5, 6]]" and rest = "[]",
       OF e, of "[0, 0]" "[[0, 3], [7, 8], [9]]"]
    by (simp add: MSG_HEADER_size_def)
qed

end
