(* ===== verification/KVCR_Journal.thy ===== *)
theory KVCR_Journal
  imports KVCR_Frames "HOL-Library.Sublist"
begin

text \<open>
  \<open>RecoveryJournal\<close> (\<open>service/recovery_journal.py\<close>): the one-producer, one-consumer ring at the head of
  a shared pool. The shared mapping is a list of bytes; its cursors are the unsigned 64-bit words at
  the source's offsets, so that a store wraps as \<open>c_uint64\<close> does, while the cursors each side caches are
  unbounded Python ints.

  \<open>publish\<close> and \<open>read_next\<close> are the operations run alone. They are composed of the phases between
  which the other process can run; the relation \<open>jstep\<close> interleaves those phases, byte by byte for the
  writes, and its invariant gives the queue contract of the journal.
\<close>

subsection \<open>The shared header\<close>

definition JOURNAL_HEADER_BYTES :: nat where "JOURNAL_HEADER_BYTES = 4096"
definition INVALID_OFFSET :: nat where "INVALID_OFFSET = 0"
definition PUBLISHED_OFFSET :: nat where "PUBLISHED_OFFSET = 128"
definition CONSUMED_OFFSET :: nat where "CONSUMED_OFFSET = 192"
definition VALID :: nat where "VALID = 0"
definition INVALID :: nat where "INVALID = 1"

lemmas offset_defs = JOURNAL_HEADER_BYTES_def INVALID_OFFSET_def PUBLISHED_OFFSET_def
  CONSUMED_OFFSET_def VALID_def INVALID_def

definition load_acquire :: "nat \<Rightarrow> bytes \<Rightarrow> nat" where
  "load_acquire off m = le_value (slice off 8 m)"

definition store_release :: "nat \<Rightarrow> nat \<Rightarrow> bytes \<Rightarrow> bytes" where
  "store_release off v m = slice_set off (le_bytes 8 v) m"

subsection \<open>The ring\<close>

definition write_ring :: "nat \<Rightarrow> bytes \<Rightarrow> nat \<Rightarrow> bytes \<Rightarrow> bytes" where
  "write_ring capacity mapping position data =
     (let first = min (length data) (capacity - position);
          mapping = slice_set (JOURNAL_HEADER_BYTES + position) (take first data) mapping
      in if first < length data then slice_set JOURNAL_HEADER_BYTES (drop first data) mapping
         else mapping)"

definition read_ring :: "nat \<Rightarrow> bytes \<Rightarrow> nat \<Rightarrow> nat \<Rightarrow> bytes" where
  "read_ring capacity mapping position n =
     (let first = min n (capacity - position);
          data = slice (JOURNAL_HEADER_BYTES + position) first mapping
      in if first < n then data @ slice JOURNAL_HEADER_BYTES (n - first) mapping else data)"

subsection \<open>A handle on the journal\<close>

record journal =
  capacity :: nat
  published_local :: "nat option"
  consumed_local :: "nat option"
  invalid_local :: bool

definition journal_init :: "nat \<Rightarrow> journal" where
  "journal_init journal_bytes =
     \<lparr>capacity = journal_bytes - JOURNAL_HEADER_BYTES, published_local = None, consumed_local = None,
      invalid_local = False\<rparr>"

definition reset :: "bytes \<Rightarrow> journal \<Rightarrow> bytes \<times> journal" where
  "reset m j =
     (store_release INVALID_OFFSET VALID (store_release PUBLISHED_OFFSET 0 (store_release CONSUMED_OFFSET 0 m)),
      j\<lparr>published_local := Some 0, consumed_local := Some 0, invalid_local := False\<rparr>)"

definition is_invalid :: "bytes \<Rightarrow> bool" where
  "is_invalid m = (load_acquire INVALID_OFFSET m \<noteq> VALID)"

definition invalidate :: "bytes \<Rightarrow> journal \<Rightarrow> bytes \<times> journal" where
  "invalidate m j = (store_release INVALID_OFFSET INVALID m, j\<lparr>invalid_local := True\<rparr>)"

definition valid_cursors :: "nat \<Rightarrow> nat \<Rightarrow> nat \<Rightarrow> bool" where
  "valid_cursors cap published consumed =
     (published mod ALIGNMENT = 0 \<and> consumed mod ALIGNMENT = 0 \<and>
      consumed \<le> published \<and> published \<le> consumed + cap)"

subsection \<open>Publishing\<close>

text \<open>
  What \<open>publish\<close> has decided once it has loaded the consumer's cursor: to return False with the journal
  left as it is now, or to write this frame at this cursor.
\<close>

datatype pub_phase = PubRefused bytes journal | PubWrite nat bytes

definition publish_at :: "bytes \<Rightarrow> journal \<Rightarrow> nat \<Rightarrow> nat \<Rightarrow> bytes \<Rightarrow> bytes \<Rightarrow> nat \<Rightarrow> pub_phase" where
  "publish_at m j published t key payload stored =
     (let consumed = load_acquire CONSUMED_OFFSET m in
      if \<not> valid_cursors (capacity j) published consumed
      then (case invalidate m j of (m', j') \<Rightarrow> PubRefused m' j')
      else if stored > capacity j - (published - consumed)
      then (case invalidate m j of (m', j') \<Rightarrow> PubRefused m' j')
      else PubWrite published (pack_frame t key payload stored))"

definition publish_start :: "bytes \<Rightarrow> journal \<Rightarrow> nat \<Rightarrow> bytes \<Rightarrow> bytes \<Rightarrow> pub_phase res" where
  "publish_start m j t key payload =
     (if t \<notin> RECORD_TYPES then Inl (ValueError ''unknown journal record type'')
      else if invalid_local j then Inr (PubRefused m j)
      else
        let sz = frame_size key payload in
        if sz > MAX_FRAME_SIZE then (case invalidate m j of (m', j') \<Rightarrow> Inr (PubRefused m' j'))
        else
          let stored = pad_to ALIGNMENT sz in
          case published_local j of
            Some published \<Rightarrow> Inr (publish_at m j published t key payload stored)
          | None \<Rightarrow>
              if is_invalid m then Inr (PubRefused m (j\<lparr>invalid_local := True\<rparr>))
              else Inr (publish_at m j (load_acquire PUBLISHED_OFFSET m) t key payload stored))"

definition publish_commit :: "bytes \<Rightarrow> journal \<Rightarrow> nat \<Rightarrow> bytes \<times> journal" where
  "publish_commit m j published' =
     (store_release PUBLISHED_OFFSET published' m, j\<lparr>published_local := Some published'\<rparr>)"

definition publish :: "bytes \<Rightarrow> journal \<Rightarrow> nat \<Rightarrow> bytes \<Rightarrow> bytes \<Rightarrow> (bool \<times> bytes \<times> journal) res" where
  "publish m j t key payload =
     bindR (publish_start m j t key payload) (\<lambda>ph.
       case ph of
         PubRefused m' j' \<Rightarrow> Inr (False, m', j')
       | PubWrite published fr \<Rightarrow>
           let m' = write_ring (capacity j) m (published mod capacity j) fr in
           Inr (True, publish_commit m' j (published + length fr)))"

text \<open>\<open>_require_mapping\<close>: every operation starts with it, and fails once the attachment is closed.\<close>

definition require_mapping :: "bytes option \<Rightarrow> bytes res" where
  "require_mapping mapping =
     (case mapping of None \<Rightarrow> Inl (RuntimeError ''KVCR pool attachment is closed'') | Some m \<Rightarrow> Inr m)"

subsection \<open>Reading\<close>

datatype read_phase = ReadRaise exn bytes journal | ReadNone journal | ReadFrame nat nat journal

definition read_at :: "bytes \<Rightarrow> journal \<Rightarrow> nat \<Rightarrow> read_phase" where
  "read_at m j consumed =
     (let published = load_acquire PUBLISHED_OFFSET m in
      if \<not> valid_cursors (capacity j) published consumed
      then (case invalidate m j of (m', j') \<Rightarrow>
              ReadRaise (RecoveryJournalError ''recovery journal cursor is invalid'') m' j')
      else if published = consumed
      then (if is_invalid m
            then ReadRaise (RecoveryJournalError ''recovery journal is invalid'') m (j\<lparr>invalid_local := True\<rparr>)
            else ReadNone j)
      else ReadFrame consumed published j)"

definition read_start :: "bytes \<Rightarrow> journal \<Rightarrow> read_phase" where
  "read_start m j =
     (if invalid_local j then ReadRaise (RecoveryJournalError ''recovery journal is invalid'') m j
      else case consumed_local j of
        Some consumed \<Rightarrow> read_at m j consumed
      | None \<Rightarrow>
          if is_invalid m
          then ReadRaise (RecoveryJournalError ''recovery journal is invalid'') m (j\<lparr>invalid_local := True\<rparr>)
          else let consumed = load_acquire CONSUMED_OFFSET m in
               read_at m (j\<lparr>consumed_local := Some consumed\<rparr>) consumed)"

text \<open>The frame at the consumer's cursor and the bytes it occupies, or the message of \<open>_fail\<close>.\<close>

definition read_frame :: "bytes \<Rightarrow> nat \<Rightarrow> nat \<Rightarrow> nat \<Rightarrow> string + frame \<times> nat" where
  "read_frame m cap consumed published =
     (let position = consumed mod cap in
      case unpack_header (read_ring cap m position FRAME_HEADER_size) of (sz, t, ksize) \<Rightarrow>
        if sz < FRAME_HEADER_size + ksize then Inl ''journal frame has an invalid key size''
        else if t \<notin> RECORD_TYPES then Inl ''journal frame has an unknown type''
        else
          let stored = pad_to ALIGNMENT sz in
          if stored > cap \<or> stored > published - consumed
          then Inl ''journal frame exceeds the published bytes''
          else
            let fr = read_ring cap m position stored in
            if list_ex (\<lambda>b. b \<noteq> 0) (drop sz fr) then Inl ''journal frame padding is not zero''
            else Inr ((t, slice FRAME_HEADER_size ksize fr,
                       slice (FRAME_HEADER_size + ksize) (sz - (FRAME_HEADER_size + ksize)) fr), stored))"

definition read_commit :: "bytes \<Rightarrow> journal \<Rightarrow> nat \<Rightarrow> bytes \<times> journal" where
  "read_commit m j consumed' =
     (store_release CONSUMED_OFFSET consumed' m, j\<lparr>consumed_local := Some consumed'\<rparr>)"

definition read_next :: "bytes \<Rightarrow> journal \<Rightarrow> frame option res \<times> bytes \<times> journal" where
  "read_next m j =
     (case read_start m j of
        ReadRaise e m' j' \<Rightarrow> (Inl e, m', j')
      | ReadNone j' \<Rightarrow> (Inr None, m, j')
      | ReadFrame consumed published j' \<Rightarrow>
          (case read_frame m (capacity j') consumed published of
             Inl msg \<Rightarrow> (Inl (RecoveryJournalError msg), invalidate m j')
           | Inr (f, stored) \<Rightarrow> (Inr (Some f), read_commit m j' (consumed + stored))))"

text \<open>\<open>drain\<close>, bounded: the frames yielded, the exception that ended it if one did, and the fuel left.\<close>

fun drain :: "nat \<Rightarrow> bytes \<Rightarrow> journal \<Rightarrow> (frame list \<times> exn option \<times> bytes \<times> journal) option" where
  "drain 0 m j = None"
| "drain (Suc n) m j =
     (case read_next m j of
        (Inl e, m', j') \<Rightarrow> Some ([], Some e, m', j')
      | (Inr None, m', j') \<Rightarrow> Some ([], None, m', j')
      | (Inr (Some f), m', j') \<Rightarrow>
          (case drain n m' j' of
             None \<Rightarrow> None
           | Some (fs, e, r) \<Rightarrow> Some (f # fs, e, r)))"

subsection \<open>The ring as a window on a byte stream\<close>

text \<open>Byte \<open>i\<close> of the stream that the cursors count lives at position \<open>i mod capacity\<close>.\<close>

definition ring_byte :: "nat \<Rightarrow> bytes \<Rightarrow> nat \<Rightarrow> byte" where
  "ring_byte c m i = m ! (JOURNAL_HEADER_BYTES + i mod c)"

definition window :: "nat \<Rightarrow> bytes \<Rightarrow> nat \<Rightarrow> nat \<Rightarrow> bytes" where
  "window c m a b = map (ring_byte c m) [a..<b]"

lemma length_window [simp]: "length (window c m a b) = b - a"
  by (simp add: window_def)

lemma window_append: "a \<le> b \<Longrightarrow> b \<le> d \<Longrightarrow> window c m a d = window c m a b @ window c m b d"
  using upt_add_eq_append [of a b "d - b"] by (simp add: window_def)

lemma window_cong: "(\<And>i. a \<le> i \<Longrightarrow> i < b \<Longrightarrow> ring_byte c m i = ring_byte c m' i) \<Longrightarrow> window c m a b = window c m' a b"
  by (simp add: window_def)

lemma nth_window: "i < b - a \<Longrightarrow> window c m a b ! i = ring_byte c m (a + i)"
  by (simp add: window_def)

lemma mod_within:
  fixes p d c :: nat
  assumes "d < c"
  shows "(p + d) mod c = (if p mod c + d < c then p mod c + d else p mod c + d - c)"
proof -
  define q where "q = p mod c"
  have q: "q < c" using assms by (simp add: q_def)
  have "(p + d) mod c = (q + d) mod c" by (simp add: q_def mod_add_left_eq)
  then show ?thesis using assms q by (simp add: le_mod_geq not_less flip: q_def)
qed

lemma mod_distinct:
  fixes i k c :: nat
  assumes "i < k" and "k < i + c"
  shows "i mod c \<noteq> k mod c"
proof -
  obtain d where d: "k = i + d" "0 < d" "d < c" using assms by (metis less_imp_add_positive nat_add_left_cancel_less)
  have "i mod c < c" using d by simp
  with d show ?thesis using mod_within [of d c i] by auto
qed

lemma length_write_ring:
  "pos < c \<Longrightarrow> JOURNAL_HEADER_BYTES + c \<le> length m \<Longrightarrow> length data \<le> c \<Longrightarrow>
   length (write_ring c m pos data) = length m"
  by (simp add: write_ring_def Let_def min_def)

lemma nth_write_ring:
  assumes "pos < c" "JOURNAL_HEADER_BYTES + c \<le> length m" "length data \<le> c" "d < c"
  shows "write_ring c m pos data ! (JOURNAL_HEADER_BYTES + (if pos + d < c then pos + d else pos + d - c)) =
    (if d < length data then data ! d
     else m ! (JOURNAL_HEADER_BYTES + (if pos + d < c then pos + d else pos + d - c)))"
  using assms by (auto simp: write_ring_def Let_def nth_slice_set min_def)

lemma write_ring_outside:
  assumes "pos < c" "JOURNAL_HEADER_BYTES + c \<le> length m" "length data \<le> c"
    and "k < length m" "k < JOURNAL_HEADER_BYTES \<or> JOURNAL_HEADER_BYTES + c \<le> k"
  shows "write_ring c m pos data ! k = m ! k"
  using assms by (auto simp: write_ring_def Let_def nth_slice_set min_def)

lemma ring_byte_write:
  assumes "0 < c" "JOURNAL_HEADER_BYTES + c \<le> length m" "length data \<le> c" "d < c"
  shows "ring_byte c (write_ring c m (p mod c) data) (p + d) =
    (if d < length data then data ! d else ring_byte c m (p + d))"
  unfolding ring_byte_def mod_within [OF assms(4)]
  by (rule nth_write_ring) (use assms in simp_all)

lemma length_read_ring:
  "pos < c \<Longrightarrow> JOURNAL_HEADER_BYTES + c \<le> length m \<Longrightarrow> n \<le> c \<Longrightarrow> length (read_ring c m pos n) = n"
  by (simp add: read_ring_def Let_def min_def)

lemma nth_read_ring:
  assumes "pos < c" "JOURNAL_HEADER_BYTES + c \<le> length m" "n \<le> c" "i < n"
  shows "read_ring c m pos n ! i = m ! (JOURNAL_HEADER_BYTES + (if pos + i < c then pos + i else pos + i - c))"
  using assms by (auto simp: read_ring_def Let_def min_def nth_append nth_slice ac_simps)

lemma read_ring_window:
  assumes c: "0 < c" "JOURNAL_HEADER_BYTES + c \<le> length m" "n \<le> c"
  shows "read_ring c m (p mod c) n = window c m p (p + n)"
proof (rule nth_equalityI)
  have q: "p mod c < c" using c by simp
  show "length (read_ring c m (p mod c) n) = length (window c m p (p + n))"
    using c q by (simp add: length_read_ring)
  fix i assume "i < length (read_ring c m (p mod c) n)"
  then have i: "i < n" using c q by (simp add: length_read_ring)
  then have "i < c" using c by simp
  show "read_ring c m (p mod c) n ! i = window c m p (p + n) ! i"
    using nth_read_ring [OF q c(2,3) i] i by (simp add: nth_window ring_byte_def mod_within [OF \<open>i < c\<close>])
qed

lemma le_value_8: "le_value (le_bytes 8 v) = v mod 2 ^ 64"
proof -
  have "(256 :: nat) ^ 8 = 2 ^ 64" by simp
  then show ?thesis using le_value_le_bytes [of 8 v] by simp
qed

lemma load_store_same: "off + 8 \<le> length m \<Longrightarrow> load_acquire off (store_release off v m) = v mod 2 ^ 64"
  using slice_slice_set_same [of off "le_bytes 8 v" m]
  by (simp add: load_acquire_def store_release_def le_value_8)

lemma load_cong:
  assumes "length m' = length m" "off + 8 \<le> length m" "\<And>k. off \<le> k \<Longrightarrow> k < off + 8 \<Longrightarrow> m' ! k = m ! k"
  shows "load_acquire off m' = load_acquire off m"
proof -
  have "slice off 8 m' = slice off 8 m"
    using assms by (intro nth_equalityI) (auto simp: nth_slice)
  then show ?thesis by (simp add: load_acquire_def)
qed

lemma length_store [simp]: "off + 8 \<le> length m \<Longrightarrow> length (store_release off v m) = length m"
  by (simp add: store_release_def)

lemma nth_store:
  "off + 8 \<le> length m \<Longrightarrow> k < length m \<Longrightarrow> k < off \<or> off + 8 \<le> k \<Longrightarrow> store_release off v m ! k = m ! k"
  by (auto simp: store_release_def nth_slice_set)

lemma load_store_other:
  "off + 8 \<le> length m \<Longrightarrow> off' + 8 \<le> length m \<Longrightarrow> off + 8 \<le> off' \<or> off' + 8 \<le> off \<Longrightarrow>
   load_acquire off (store_release off' v m) = load_acquire off m"
  by (intro load_cong) (auto simp: nth_store)

lemma ring_byte_store:
  "0 < c \<Longrightarrow> JOURNAL_HEADER_BYTES + c \<le> length m \<Longrightarrow> off + 8 \<le> JOURNAL_HEADER_BYTES \<Longrightarrow>
   ring_byte c (store_release off v m) i = ring_byte c m i"
proof -
  assume a: "0 < c" "JOURNAL_HEADER_BYTES + c \<le> length m" "off + 8 \<le> JOURNAL_HEADER_BYTES"
  have "i mod c < c" using a by simp
  with a have "JOURNAL_HEADER_BYTES + i mod c < length m" by linarith
  with a show ?thesis unfolding ring_byte_def by (intro nth_store) auto
qed

lemma window_store:
  "0 < c \<Longrightarrow> JOURNAL_HEADER_BYTES + c \<le> length m \<Longrightarrow> off + 8 \<le> JOURNAL_HEADER_BYTES \<Longrightarrow>
   window c (store_release off v m) a b = window c m a b"
  by (simp add: window_def ring_byte_store)

subsection \<open>Stored frames\<close>

definition stored_size :: "frame \<Rightarrow> nat" where
  "stored_size f = (case f of (t, key, payload) \<Rightarrow> pad_to ALIGNMENT (frame_size key payload))"

definition stored_frame :: "frame \<Rightarrow> bytes" where
  "stored_frame f = (case f of (t, key, payload) \<Rightarrow> pack_frame t key payload (stored_size f))"

definition stored_total :: "frame list \<Rightarrow> nat" where
  "stored_total fs = sum_list (map stored_size fs)"

lemma stored_total_simps [simp]:
  "stored_total [] = 0" "stored_total (f # fs) = stored_size f + stored_total fs"
  "stored_total (fs @ gs) = stored_total fs + stored_total gs"
  by (simp_all add: stored_total_def)

lemma stored_size_ge: "frame_size key payload \<le> stored_size (t, key, payload)"
  by (simp add: stored_size_def pad_to_ge)

lemma stored_size_pos: "FRAME_HEADER_size \<le> stored_size f" "0 < stored_size f"
  using stored_size_ge [of "fst (snd f)" "snd (snd f)" "fst f"]
  by (simp_all add: frame_size_def frame_consts)

lemma stored_size_dvd: "ALIGNMENT dvd stored_size f"
  by (cases f) (simp add: stored_size_def pad_to_dvd ALIGNMENT_def)

lemma stored_total_dvd: "ALIGNMENT dvd stored_total fs"
  by (induction fs) (simp_all add: stored_size_dvd)

lemma length_stored_frame [simp]: "length (stored_frame f) = stored_size f"
  using stored_size_ge by (cases f) (simp add: stored_frame_def length_pack_frame)

lemma length_concat_stored [simp]: "length (concat (map stored_frame fs)) = stored_total fs"
  by (induction fs) simp_all

lemma stored_frame_layout:
  "stored_frame (t, key, payload) =
     frame_header (frame_size key payload) t (length key) @ key @ payload @
     replicate (stored_size (t, key, payload) - frame_size key payload) 0"
  using stored_size_ge by (simp add: stored_frame_def pack_frame_layout)

text \<open>The reader parses what the writer stored.\<close>

lemma read_frame_stored:
  assumes c: "0 < c" "JOURNAL_HEADER_BYTES + c \<le> length m"
    and f: "frame_ok f" "stored_size f \<le> c" "stored_size f \<le> published - consumed"
    and w: "window c m consumed (consumed + stored_size f) = stored_frame f"
  shows "read_frame m c consumed published = Inr (f, stored_size f)"
proof -
  obtain t key payload where ff: "f = (t, key, payload)" by (cases f) auto
  note p6 = stored_size_pos(1) [of f]
  have b: "t \<in> RECORD_TYPES" "frame_size key payload < 2 ^ 16" "t < 2 ^ 16" "length key < 2 ^ 16"
    using f(1) by (auto simp: ff frame_ok_def frame_size_def frame_consts)
  have whole: "read_ring c m (consumed mod c) (stored_size f) = stored_frame f"
    using c f(2) w by (simp add: read_ring_window)
  have "read_ring c m (consumed mod c) FRAME_HEADER_size = take FRAME_HEADER_size (stored_frame f)"
    using c f(2) p6 w window_append [of consumed "consumed + FRAME_HEADER_size" "consumed + stored_size f" c m]
    by (simp add: read_ring_window flip: w)
  then have "unpack_header (read_ring c m (consumed mod c) FRAME_HEADER_size) =
      (frame_size key payload, t, length key)"
    using unpack_frame_header [OF b(2,3,4), of "[]"] by (simp add: ff stored_frame_layout)
  moreover have "pad_to ALIGNMENT (frame_size key payload) = stored_size f"
    by (simp add: ff stored_size_def)
  moreover have "drop (frame_size key payload) (stored_frame f) =
      replicate (stored_size f - frame_size key payload) 0"
    by (simp add: ff stored_frame_layout frame_size_def)
  ultimately show ?thesis
    using b(1) f(2,3) whole
    by (simp add: read_frame_def Let_def list_ex_iff ff stored_frame_layout slice_def frame_size_def)
qed

subsection \<open>Two processes\<close>

text \<open>
  Each side is between two operations or inside one. The producer writes its frame byte by byte and
  then stores its cursor; the consumer has loaded the published cursor, or has read its frame and not
  yet stored its own. \<open>sent\<close> and \<open>got\<close> record the frames published and returned, \<open>raised\<close> the exceptions
  \<open>read_next\<close> raised.
\<close>

datatype ppc = PIdle | PWriting nat frame bytes nat
datatype cpc = CIdle | CLoaded nat nat | CRead nat frame nat

record sys =
  mem :: bytes
  producer :: journal
  consumer :: journal
  ppc :: ppc
  cpc :: cpc
  sent :: "frame list"
  got :: "frame list"
  raised :: "exn list"

inductive jstep :: "sys \<Rightarrow> sys \<Rightarrow> bool" where
  p_refuse: "ppc s = PIdle \<Longrightarrow> publish_start (mem s) (producer s) t key payload = Inr (PubRefused m j) \<Longrightarrow>
    jstep s (s\<lparr>mem := m, producer := j\<rparr>)"
| p_begin: "ppc s = PIdle \<Longrightarrow> publish_start (mem s) (producer s) t key payload = Inr (PubWrite pub fr) \<Longrightarrow>
    jstep s (s\<lparr>ppc := PWriting pub (t, key, payload) fr 0\<rparr>)"
| p_byte: "ppc s = PWriting pub f fr i \<Longrightarrow> i < length fr \<Longrightarrow>
    jstep s (s\<lparr>mem := (mem s)[JOURNAL_HEADER_BYTES + (pub + i) mod capacity (producer s) := fr ! i],
               ppc := PWriting pub f fr (Suc i)\<rparr>)"
| p_commit: "ppc s = PWriting pub f fr (length fr) \<Longrightarrow>
    publish_commit (mem s) (producer s) (pub + length fr) = (m, j) \<Longrightarrow>
    jstep s (s\<lparr>mem := m, producer := j, ppc := PIdle, sent := sent s @ [f]\<rparr>)"
| p_invalidate: "ppc s = PIdle \<Longrightarrow> invalidate (mem s) (producer s) = (m, j) \<Longrightarrow>
    jstep s (s\<lparr>mem := m, producer := j\<rparr>)"
| c_raise: "cpc s = CIdle \<Longrightarrow> read_start (mem s) (consumer s) = ReadRaise e m j \<Longrightarrow>
    jstep s (s\<lparr>mem := m, consumer := j, raised := raised s @ [e]\<rparr>)"
| c_none: "cpc s = CIdle \<Longrightarrow> read_start (mem s) (consumer s) = ReadNone j \<Longrightarrow>
    jstep s (s\<lparr>consumer := j\<rparr>)"
| c_begin: "cpc s = CIdle \<Longrightarrow> read_start (mem s) (consumer s) = ReadFrame con pub j \<Longrightarrow>
    jstep s (s\<lparr>consumer := j, cpc := CLoaded con pub\<rparr>)"
| c_fail: "cpc s = CLoaded con pub \<Longrightarrow> read_frame (mem s) (capacity (consumer s)) con pub = Inl msg \<Longrightarrow>
    invalidate (mem s) (consumer s) = (m, j) \<Longrightarrow>
    jstep s (s\<lparr>mem := m, consumer := j, cpc := CIdle, raised := raised s @ [RecoveryJournalError msg]\<rparr>)"
| c_read: "cpc s = CLoaded con pub \<Longrightarrow> read_frame (mem s) (capacity (consumer s)) con pub = Inr (f, n) \<Longrightarrow>
    jstep s (s\<lparr>cpc := CRead con f n\<rparr>)"
| c_commit: "cpc s = CRead con f n \<Longrightarrow> read_commit (mem s) (consumer s) (con + n) = (m, j) \<Longrightarrow>
    jstep s (s\<lparr>mem := m, consumer := j, cpc := CIdle, got := got s @ [f]\<rparr>)"

text \<open>The journal of a fresh lease: reset by its owner, then opened by the two sides.\<close>

definition journal_start :: "bytes \<Rightarrow> nat \<Rightarrow> sys" where
  "journal_start m journal_bytes =
     \<lparr>mem = fst (reset m (journal_init journal_bytes)), producer = journal_init journal_bytes,
      consumer = journal_init journal_bytes, ppc = PIdle, cpc = CIdle, sent = [], got = [], raised = []\<rparr>"

definition jreach :: "bytes \<Rightarrow> nat \<Rightarrow> sys \<Rightarrow> bool" where
  "jreach m journal_bytes s = jstep\<^sup>*\<^sup>* (journal_start m journal_bytes) s"

subsection \<open>The invariant of the interleaving\<close>

definition mem_inv :: "nat \<Rightarrow> bytes \<Rightarrow> nat \<Rightarrow> nat \<Rightarrow> frame list \<Rightarrow> bool" where
  "mem_inv c m con pub pend =
     (0 < c \<and> JOURNAL_HEADER_BYTES + c \<le> length m \<and>
      load_acquire PUBLISHED_OFFSET m = pub \<and> load_acquire CONSUMED_OFFSET m = con \<and>
      pub = con + stored_total pend \<and> stored_total pend \<le> c \<and> ALIGNMENT dvd con \<and>
      window c m con pub = concat (map stored_frame pend))"

definition prod_inv :: "nat \<Rightarrow> bytes \<Rightarrow> nat \<Rightarrow> nat \<Rightarrow> journal \<Rightarrow> ppc \<Rightarrow> bool" where
  "prod_inv c m con pub j pc =
     (capacity j = c \<and> published_local j \<in> {None, Some pub} \<and>
      (case pc of
         PIdle \<Rightarrow> True
       | PWriting p f fr i \<Rightarrow>
           p = pub \<and> frame_ok f \<and> fr = stored_frame f \<and> i \<le> length fr \<and> pub + length fr \<le> con + c \<and>
           window c m pub (pub + i) = take i fr))"

definition cons_inv :: "nat \<Rightarrow> nat \<Rightarrow> frame list \<Rightarrow> journal \<Rightarrow> cpc \<Rightarrow> bool" where
  "cons_inv c con pend j pc =
     (capacity j = c \<and> consumed_local j \<in> {None, Some con} \<and>
      (case pc of
         CIdle \<Rightarrow> True
       | CLoaded cn pb \<Rightarrow> cn = con \<and> (\<exists>f fs. pend = f # fs \<and> con + stored_size f \<le> pb)
       | CRead cn f n \<Rightarrow> cn = con \<and> n = stored_size f \<and> (\<exists>fs. pend = f # fs)))"

definition journal_invalid_error :: exn where
  "journal_invalid_error = RecoveryJournalError ''recovery journal is invalid''"

definition jinv :: "nat \<Rightarrow> sys \<Rightarrow> bool" where
  "jinv c s = (\<exists>pend. sent s = got s @ pend \<and> list_all frame_ok (sent s) \<and>
     mem_inv c (mem s) (stored_total (got s)) (stored_total (sent s)) pend \<and>
     prod_inv c (mem s) (stored_total (got s)) (stored_total (sent s)) (producer s) (ppc s) \<and>
     cons_inv c (stored_total (got s)) pend (consumer s) (cpc s) \<and>
     set (raised s) \<subseteq> {journal_invalid_error})"

lemma offsets_apart [simp]:
  "PUBLISHED_OFFSET + 8 \<le> JOURNAL_HEADER_BYTES" "CONSUMED_OFFSET + 8 \<le> JOURNAL_HEADER_BYTES"
  "INVALID_OFFSET + 8 \<le> JOURNAL_HEADER_BYTES"
  by (simp_all add: offset_defs)

lemma mem_inv_fits:
  "mem_inv c m con pub pend \<Longrightarrow> off + 8 \<le> JOURNAL_HEADER_BYTES \<Longrightarrow> off + 8 \<le> length m"
  by (simp add: mem_inv_def)

lemma load_store_apart:
  "off + 8 \<le> length m \<Longrightarrow> off \<in> {PUBLISHED_OFFSET, CONSUMED_OFFSET} \<Longrightarrow> 4096 \<le> length m \<Longrightarrow>
   off' \<in> {PUBLISHED_OFFSET, CONSUMED_OFFSET, INVALID_OFFSET} \<Longrightarrow> off' \<noteq> off \<Longrightarrow>
   load_acquire off (store_release off' v m) = load_acquire off m"
  by (intro load_store_other) (auto simp: offset_defs)

lemma valid_cursors_inv:
  "mem_inv c m con pub pend \<Longrightarrow> valid_cursors c pub con"
  using stored_total_dvd [of pend] by (simp add: mem_inv_def valid_cursors_def mod_eq_0_iff_dvd)

text \<open>Invalidating touches only the flag.\<close>

lemma invalidate_mem_inv:
  assumes "mem_inv c m con pub pend"
  shows "mem_inv c (store_release INVALID_OFFSET v m) con pub pend"
proof -
  have "4096 \<le> length m" using assms by (simp add: mem_inv_def offset_defs)
  then show ?thesis
    using assms by (auto simp: mem_inv_def load_store_other window_store offset_defs)
qed

lemma invalidate_prod_inv:
  assumes "mem_inv c m con pub pend" "prod_inv c m con pub j pc"
  shows "prod_inv c (store_release INVALID_OFFSET v m) con pub j pc"
  using assms by (cases pc) (auto simp: prod_inv_def mem_inv_def window_store)

text \<open>What the decisions of \<open>publish\<close> and \<open>read_next\<close> rest on.\<close>

lemma publish_start_refused:
  assumes "publish_start m j t key payload = Inr (PubRefused m' j')"
  shows "(m' = m \<or> m' = store_release INVALID_OFFSET INVALID m) \<and> j' = j\<lparr>invalid_local := True\<rparr>"
  using assms
  by (auto simp: publish_start_def publish_at_def invalidate_def Let_def split: if_splits option.splits)

lemma publish_start_write:
  assumes "publish_start m j t key payload = Inr (PubWrite pub fr)"
  shows "frame_ok (t, key, payload) \<and> fr = stored_frame (t, key, payload) \<and>
    pub = (case published_local j of Some p \<Rightarrow> p | None \<Rightarrow> load_acquire PUBLISHED_OFFSET m) \<and>
    valid_cursors (capacity j) pub (load_acquire CONSUMED_OFFSET m) \<and>
    length fr \<le> capacity j - (pub - load_acquire CONSUMED_OFFSET m)"
  using assms length_stored_frame [of "(t, key, payload)"]
  by (auto simp: publish_start_def publish_at_def invalidate_def Let_def frame_ok_def stored_frame_def
      stored_size_def split: if_splits option.splits)

lemma read_start_cases:
  assumes "mem_inv c m con pub pend" "capacity j = c" "consumed_local j \<in> {None, Some con}"
  shows "((invalid_local j \<or> is_invalid m) \<and>
            (\<exists>j'. read_start m j = ReadRaise journal_invalid_error m j' \<and> capacity j' = c \<and>
            consumed_local j' \<in> {None, Some con}))
       \<or> (pend = [] \<and> read_start m j = ReadNone (j\<lparr>consumed_local := Some con\<rparr>))
       \<or> (pend \<noteq> [] \<and> read_start m j = ReadFrame con pub (j\<lparr>consumed_local := Some con\<rparr>))"
proof -
  have l: "load_acquire PUBLISHED_OFFSET m = pub" "load_acquire CONSUMED_OFFSET m = con"
    using assms(1) by (simp_all add: mem_inv_def)
  have e: "pub = con \<longleftrightarrow> pend = []"
    using assms(1) stored_size_pos by (cases pend) (auto simp: mem_inv_def)
  have j: "consumed_local j = Some con \<Longrightarrow> j\<lparr>consumed_local := Some con\<rparr> = j" by simp
  show ?thesis
    using assms(2,3) valid_cursors_inv [OF assms(1)]
    by (cases "invalid_local j"; cases "is_invalid m"; cases "pend = []")
      (auto simp: read_start_def read_at_def l e j journal_invalid_error_def)
qed

text \<open>One byte written ahead of the published cursor, into the space the consumer has given back.\<close>

lemma ring_byte_update:
  assumes "0 < c" "JOURNAL_HEADER_BYTES + c \<le> length m"
  shows "ring_byte c (m[JOURNAL_HEADER_BYTES + k mod c := b]) i = (if i mod c = k mod c then b else ring_byte c m i)"
proof -
  have "k mod c < c" using assms by simp
  with assms have "JOURNAL_HEADER_BYTES + k mod c < length m" by linarith
  then show ?thesis by (simp add: ring_byte_def nth_list_update)
qed

lemma window_update:
  assumes "0 < c" "JOURNAL_HEADER_BYTES + c \<le> length m" "e \<le> k" "k < a + c"
  shows "window c (m[JOURNAL_HEADER_BYTES + k mod c := b]) a e = window c m a e"
proof (rule window_cong)
  fix i assume "a \<le> i" "i < e"
  then have "i mod c \<noteq> k mod c" using assms by (intro mod_distinct) auto
  then show "ring_byte c (m[JOURNAL_HEADER_BYTES + k mod c := b]) i = ring_byte c m i"
    using assms by (simp add: ring_byte_update)
qed

lemma load_update:
  "off + 8 \<le> JOURNAL_HEADER_BYTES \<Longrightarrow> JOURNAL_HEADER_BYTES \<le> length m \<Longrightarrow>
   load_acquire off (m[JOURNAL_HEADER_BYTES + k := b]) = load_acquire off m"
  by (intro load_cong) auto

lemma byte_mem_inv:
  assumes m: "mem_inv c m con pub pend" and i: "pub + i < con + c"
  shows "mem_inv c (m[JOURNAL_HEADER_BYTES + (pub + i) mod c := b]) con pub pend"
proof -
  have g: "0 < c" "JOURNAL_HEADER_BYTES + c \<le> length m" using m by (simp_all add: mem_inv_def)
  have "window c (m[JOURNAL_HEADER_BYTES + (pub + i) mod c := b]) con pub = window c m con pub"
    using i by (intro window_update [OF g]) auto
  then show ?thesis using m g unfolding mem_inv_def by (auto simp: load_update)
qed

lemma byte_prod_inv:
  assumes m: "mem_inv c m con pub pend" and p: "prod_inv c m con pub j (PWriting pub' f fr i)"
    and i: "i < length fr"
  shows "pub' = pub \<and> pub + i < con + c \<and> capacity j = c \<and>
    prod_inv c (m[JOURNAL_HEADER_BYTES + (pub + i) mod c := fr ! i]) con pub j (PWriting pub f fr (Suc i))"
proof -
  let ?m = "m[JOURNAL_HEADER_BYTES + (pub + i) mod c := fr ! i]"
  have g: "0 < c" "JOURNAL_HEADER_BYTES + c \<le> length m" using m by (simp_all add: mem_inv_def)
  have q: "pub + length fr \<le> con + c" "window c m pub (pub + i) = take i fr" "pub' = pub" "capacity j = c"
    "con \<le> pub" using p m by (auto simp: prod_inv_def mem_inv_def)
  then have "pub + i < con + c" "pub + i < pub + c" using i by linarith+
  then have "window c ?m pub (pub + i) = take i fr"
    using q window_update [OF g, of "pub + i" "pub + i" pub] by simp
  moreover have "window c ?m (pub + i) (Suc (pub + i)) = [fr ! i]"
    using g by (simp add: window_def ring_byte_update)
  ultimately have "window c ?m pub (pub + Suc i) = take (Suc i) fr"
    using i window_append [of pub "pub + i" "pub + Suc i" c ?m] by (simp add: take_Suc_conv_app_nth)
  then show ?thesis using p q i \<open>pub + i < con + c\<close> by (simp add: prod_inv_def)
qed

text \<open>The stores that hand bytes over.\<close>

lemma commit_published:
  assumes m: "mem_inv c m con pub pend"
    and p: "prod_inv c m con pub j (PWriting pub' f fr (length fr))"
    and b: "pub + stored_size f < 2 ^ 64"
  shows "mem_inv c (store_release PUBLISHED_OFFSET (pub + stored_size f) m) con (pub + stored_size f) (pend @ [f])"
proof -
  have g: "0 < c" "JOURNAL_HEADER_BYTES + c \<le> length m" "4096 \<le> length m"
    using m by (simp_all add: mem_inv_def offset_defs)
  have q: "fr = stored_frame f" "pub + stored_size f \<le> con + c"
    "window c m pub (pub + stored_size f) = stored_frame f" "con \<le> pub"
    using p m by (auto simp: prod_inv_def mem_inv_def)
  have "window c m con (pub + stored_size f) = concat (map stored_frame (pend @ [f]))"
    using m q window_append [of con pub "pub + stored_size f" c m] by (auto simp: mem_inv_def)
  moreover have "load_acquire CONSUMED_OFFSET (store_release PUBLISHED_OFFSET (pub + stored_size f) m) = con"
    using m g by (simp add: mem_inv_def load_store_other offset_defs)
  moreover have "load_acquire PUBLISHED_OFFSET (store_release PUBLISHED_OFFSET (pub + stored_size f) m) =
      pub + stored_size f"
    using g b by (subst load_store_same) (simp_all add: offset_defs)
  moreover have "length (store_release PUBLISHED_OFFSET v m) = length m"
    "length (store_release CONSUMED_OFFSET v m) = length m" for v
    using g by (simp_all add: offset_defs)
  ultimately show ?thesis
    using m g q by (auto simp: mem_inv_def window_store)
qed

lemma commit_consumed:
  assumes m: "mem_inv c m con pub (f # fs)" and b: "pub < 2 ^ 64"
  shows "mem_inv c (store_release CONSUMED_OFFSET (con + stored_size f) m) (con + stored_size f) pub fs"
proof -
  have g: "0 < c" "JOURNAL_HEADER_BYTES + c \<le> length m" "4096 \<le> length m"
    using m by (simp_all add: mem_inv_def offset_defs)
  have q: "pub = con + stored_size f + stored_total fs" using m by (simp add: mem_inv_def)
  have "drop (stored_size f) (window c m con pub) = window c m (con + stored_size f) pub"
    using q window_append [of con "con + stored_size f" pub c m] by simp
  then have "window c m (con + stored_size f) pub = concat (map stored_frame fs)"
    using m by (auto simp: mem_inv_def)
  moreover have "load_acquire PUBLISHED_OFFSET (store_release CONSUMED_OFFSET (con + stored_size f) m) = pub"
    using m g by (simp add: mem_inv_def load_store_other offset_defs)
  moreover have "load_acquire CONSUMED_OFFSET (store_release CONSUMED_OFFSET (con + stored_size f) m) =
      con + stored_size f"
    using g b q by (subst load_store_same) (simp_all add: offset_defs)
  moreover have "ALIGNMENT dvd con + stored_size f"
    using m stored_size_dvd [of f] by (simp add: mem_inv_def)
  moreover have "length (store_release PUBLISHED_OFFSET v m) = length m"
    "length (store_release CONSUMED_OFFSET v m) = length m" for v
    using g by (simp_all add: offset_defs)
  ultimately show ?thesis
    using m g q by (auto simp: mem_inv_def window_store)
qed

lemma commit_consumed_prod_inv:
  assumes "mem_inv c m con pub pend" "prod_inv c m con pub j pc"
  shows "prod_inv c (store_release CONSUMED_OFFSET v m) (con + n) pub j pc"
  using assms by (cases pc) (auto simp: prod_inv_def mem_inv_def window_store)

lemma cons_inv_append: "cons_inv c con pend j pc \<Longrightarrow> cons_inv c con (pend @ fs) j pc"
  by (cases pc) (auto simp: cons_inv_def)

lemma jinv_I:
  "sent s = got s @ pend \<Longrightarrow> list_all frame_ok (sent s) \<Longrightarrow>
   mem_inv c (mem s) (stored_total (got s)) (stored_total (sent s)) pend \<Longrightarrow>
   prod_inv c (mem s) (stored_total (got s)) (stored_total (sent s)) (producer s) (ppc s) \<Longrightarrow>
   cons_inv c (stored_total (got s)) pend (consumer s) (cpc s) \<Longrightarrow>
   set (raised s) \<subseteq> {journal_invalid_error} \<Longrightarrow> jinv c s"
  unfolding jinv_def by blast

lemma jinv_producer_step:
  assumes inv: "jinv c s" and m: "m = mem s \<or> m = store_release INVALID_OFFSET INVALID (mem s)"
    and j: "j = (producer s)\<lparr>invalid_local := True\<rparr>" and idle: "ppc s = PIdle"
  shows "jinv c (s\<lparr>mem := m, producer := j\<rparr>)"
proof -
  obtain pend where i: "sent s = got s @ pend" "list_all frame_ok (sent s)"
    "mem_inv c (mem s) (stored_total (got s)) (stored_total (sent s)) pend"
    "prod_inv c (mem s) (stored_total (got s)) (stored_total (sent s)) (producer s) (ppc s)"
    "cons_inv c (stored_total (got s)) pend (consumer s) (cpc s)"
    "set (raised s) \<subseteq> {journal_invalid_error}"
    using inv unfolding jinv_def by blast
  have "mem_inv c m (stored_total (got s)) (stored_total (sent s)) pend"
    using m i(3) invalidate_mem_inv [OF i(3)] by auto
  moreover have "prod_inv c m (stored_total (got s)) (stored_total (sent s)) j PIdle"
    using i(4) by (simp add: prod_inv_def j)
  ultimately show ?thesis using i idle by (intro jinv_I [where pend = pend]) auto
qed

lemma jinv_consumer_step:
  assumes i: "sent s = got s @ pend" "list_all frame_ok (sent s)"
    "mem_inv c (mem s) (stored_total (got s)) (stored_total (sent s)) pend"
    "prod_inv c (mem s) (stored_total (got s)) (stored_total (sent s)) (producer s) (ppc s)"
    "set (raised s) \<subseteq> {journal_invalid_error}"
    and "cons_inv c (stored_total (got s)) pend j pc" and "set es \<subseteq> {journal_invalid_error}"
  shows "jinv c (s\<lparr>consumer := j, cpc := pc, raised := raised s @ es\<rparr>)"
  using assms by (intro jinv_I [where pend = pend]) auto

lemma loaded_frame:
  assumes m: "mem_inv c m con pub pend" and ok: "list_all frame_ok pend"
    and l: "cons_inv c con pend j (CLoaded cn pb)"
  shows "\<exists>f fs. pend = f # fs \<and> cn = con \<and> read_frame m c cn pb = Inr (f, stored_size f)"
proof -
  obtain f fs where p: "pend = f # fs" "cn = con" "con + stored_size f \<le> pb"
    using l by (auto simp: cons_inv_def)
  have q: "0 < c" "JOURNAL_HEADER_BYTES + c \<le> length m" "stored_size f \<le> c"
    "con + stored_size f \<le> pub" "window c m con pub = stored_frame f @ concat (map stored_frame fs)"
    using m p by (auto simp: mem_inv_def)
  have "take (stored_size f) (window c m con pub) = window c m con (con + stored_size f)"
    using q(4) window_append [of con "con + stored_size f" pub c m] by simp
  then have "window c m con (con + stored_size f) = stored_frame f" using q(5) by simp
  then show ?thesis
    using read_frame_stored [of c m f pb con] q ok p by auto
qed

lemma jinv_step:
  assumes step: "jstep s s'" and inv: "jinv c s" and bound: "stored_total (sent s') < 2 ^ 64"
  shows "jinv c s'"
proof -
  obtain pend where i: "sent s = got s @ pend" "list_all frame_ok (sent s)"
    "mem_inv c (mem s) (stored_total (got s)) (stored_total (sent s)) pend"
    "prod_inv c (mem s) (stored_total (got s)) (stored_total (sent s)) (producer s) (ppc s)"
    "cons_inv c (stored_total (got s)) pend (consumer s) (cpc s)"
    "set (raised s) \<subseteq> {journal_invalid_error}"
    using inv unfolding jinv_def by blast
  have cap: "capacity (producer s) = c" "capacity (consumer s) = c"
    "consumed_local (consumer s) \<in> {None, Some (stored_total (got s))}"
    using i(4,5) by (simp_all add: prod_inv_def cons_inv_def)
  note start = read_start_cases [OF i(3) cap(2,3)]
  note consumer = jinv_consumer_step [OF i(1-4,6)]
  from step show ?thesis
  proof cases
    case (p_refuse t key payload m j)
    with publish_start_refused [OF p_refuse(3)] inv show ?thesis
      by (auto intro: jinv_producer_step)
  next
    case (p_invalidate m j)
    with inv show ?thesis by (auto simp: invalidate_def intro: jinv_producer_step)
  next
    case (p_begin t key payload pub fr)
    have "prod_inv c (mem s) (stored_total (got s)) (stored_total (sent s)) (producer s)
        (PWriting pub (t, key, payload) fr 0)"
      using publish_start_write [OF p_begin(3)] i(3,4) cap
      by (auto simp: prod_inv_def mem_inv_def window_def valid_cursors_def)
    with i p_begin show ?thesis by (intro jinv_I [where pend = pend]) auto
  next
    case (p_byte pub f fr k)
    note b = byte_prod_inv [OF i(3) i(4) [unfolded p_byte(2)] p_byte(3)]
    with i p_byte byte_mem_inv [OF i(3), of k "fr ! k"] cap show ?thesis
      by (intro jinv_I [where pend = pend]) auto
  next
    case (p_commit pub f fr m j)
    have f: "pub = stored_total (sent s)" "frame_ok f" "length fr = stored_size f"
      using i(4) p_commit(2) by (auto simp: prod_inv_def)
    have "mem_inv c m (stored_total (got s)) (stored_total (sent s) + stored_size f) (pend @ [f])"
      using commit_published [OF i(3) i(4) [unfolded p_commit(2)]] bound p_commit f
      by (simp add: publish_commit_def)
    then show ?thesis
      using i p_commit f cap cons_inv_append [OF i(5), of "[f]"]
      by (intro jinv_I [where pend = "pend @ [f]"]) (auto simp: publish_commit_def prod_inv_def add.assoc)
  next
    case (c_raise e m j)
    with start have "e = journal_invalid_error" "m = mem s" "capacity j = c"
      "consumed_local j \<in> {None, Some (stored_total (got s))}" by auto
    then show ?thesis
      using c_raise consumer [of j CIdle "[e]"] by (simp add: cons_inv_def jinv_def)
  next
    case (c_none j)
    with start have "j = (consumer s)\<lparr>consumed_local := Some (stored_total (got s))\<rparr>" by auto
    then show ?thesis
      using c_none cap consumer [of j CIdle "[]"] by (simp add: cons_inv_def jinv_def)
  next
    case (c_begin con pub j)
    with start have j: "j = (consumer s)\<lparr>consumed_local := Some (stored_total (got s))\<rparr>"
      "con = stored_total (got s)" "pub = stored_total (sent s)" "pend \<noteq> []" by auto
    then have "cons_inv c (stored_total (got s)) pend j (CLoaded con pub)"
      using cap i(1) by (cases pend) (auto simp: cons_inv_def)
    then show ?thesis using c_begin consumer [of j "CLoaded con pub" "[]"] by (simp add: jinv_def)
  next
    case (c_fail con pub msg m j)
    with loaded_frame [OF i(3) _ i(5) [unfolded c_fail(2)]] i(1,2) cap show ?thesis by auto
  next
    case (c_read con pub f n)
    with loaded_frame [OF i(3) _ i(5) [unfolded c_read(2)]] i(1,2) cap
    obtain fs where "pend = f # fs" "n = stored_size f" "con = stored_total (got s)" by auto
    then have "cons_inv c (stored_total (got s)) pend (consumer s) (CRead con f n)"
      using cap by (auto simp: cons_inv_def)
    then show ?thesis using c_read consumer [of "consumer s" "CRead con f n" "[]"] by (simp add: jinv_def)
  next
    case (c_commit con f n m j)
    then obtain fs where p: "pend = f # fs" "con = stored_total (got s)" "n = stored_size f"
      using i(5) by (auto simp: cons_inv_def)
    have "mem_inv c m (stored_total (got s) + stored_size f) (stored_total (sent s)) fs"
      using commit_consumed [OF i(3) [unfolded p(1)]] bound c_commit p by (simp add: read_commit_def)
    moreover have "prod_inv c m (stored_total (got s) + stored_size f) (stored_total (sent s)) (producer s) (ppc s)"
      using commit_consumed_prod_inv [OF i(3,4)] c_commit p by (auto simp: read_commit_def)
    ultimately show ?thesis
      using i p c_commit cap
      by (intro jinv_I [where pend = fs]) (auto simp: read_commit_def cons_inv_def)
  qed
qed

lemma sent_mono: "jstep s s' \<Longrightarrow> stored_total (sent s) \<le> stored_total (sent s')"
  by (induction rule: jstep.induct) auto

lemma jsteps_inv:
  assumes "jstep\<^sup>*\<^sup>* s s'" "jinv c s" "stored_total (sent s') < 2 ^ 64"
  shows "jinv c s'"
  using assms
proof (induction rule: rtranclp_induct)
  case (step s' s'')
  then have "stored_total (sent s') < 2 ^ 64" using sent_mono by (meson le_less_trans)
  with step show ?case by (blast intro: jinv_step)
qed

lemma journal_start_inv:
  assumes "JOURNAL_HEADER_BYTES < journal_bytes" "journal_bytes \<le> length m"
  shows "jinv (journal_bytes - JOURNAL_HEADER_BYTES) (journal_start m journal_bytes)"
proof -
  have "4096 \<le> length m" using assms by (simp add: offset_defs)
  then show ?thesis
    using assms
    by (intro jinv_I [where pend = "[]"])
      (simp_all add: journal_start_def mem_inv_def prod_inv_def cons_inv_def journal_init_def reset_def
        load_store_same load_store_other window_def offset_defs)
qed

lemma jreach_inv:
  assumes "JOURNAL_HEADER_BYTES < journal_bytes" "journal_bytes \<le> length m"
    and r: "jreach m journal_bytes s" and b: "stored_total (sent s) < 2 ^ 64"
  shows "jinv (journal_bytes - JOURNAL_HEADER_BYTES) s"
  using jsteps_inv [OF r [unfolded jreach_def] journal_start_inv [OF assms(1,2)] b] .

subsection \<open>An operation run alone is a run of the phases\<close>

fun written :: "nat \<Rightarrow> nat \<Rightarrow> bytes \<Rightarrow> bytes \<Rightarrow> nat \<Rightarrow> bytes" where
  "written c pub fr m 0 = m"
| "written c pub fr m (Suc i) = (written c pub fr m i)[JOURNAL_HEADER_BYTES + (pub + i) mod c := fr ! i]"

lemma length_written [simp]: "length (written c pub fr m i) = length m"
  by (induction i) simp_all

lemma ring_byte_written:
  assumes "0 < c" "JOURNAL_HEADER_BYTES + c \<le> length m" "i \<le> c" "d < c"
  shows "ring_byte c (written c pub fr m i) (pub + d) = (if d < i then fr ! d else ring_byte c m (pub + d))"
  using assms
proof (induction i)
  case (Suc i)
  have "(pub + d) mod c = (pub + i) mod c \<longleftrightarrow> d = i"
    using mod_distinct [of "pub + d" "pub + i" c] mod_distinct [of "pub + i" "pub + d" c] Suc.prems
    by (cases d i rule: linorder_cases) auto
  with Suc show ?case by (auto simp: ring_byte_update)
qed simp

lemma written_outside:
  assumes "0 < c" "k < JOURNAL_HEADER_BYTES \<or> JOURNAL_HEADER_BYTES + c \<le> k"
  shows "written c pub fr m i ! k = m ! k"
proof (induction i)
  case (Suc i)
  have "JOURNAL_HEADER_BYTES + (pub + i) mod c \<noteq> k"
    using assms mod_less_divisor [of c "pub + i"] by linarith
  with Suc show ?case by simp
qed simp

lemma window_position:
  fixes pub c q :: nat
  assumes "q < c"
  obtains d where "d < c" "(pub + d) mod c = q"
proof
  have "pub mod c < c" using assms by simp
  then show "(q + (c - pub mod c)) mod c < c" using assms by simp
  have "(pub + (q + (c - pub mod c)) mod c) mod c = (pub mod c + (q + (c - pub mod c))) mod c"
    by (metis mod_add_left_eq mod_add_right_eq)
  also have "\<dots> = (q + c) mod c" using \<open>pub mod c < c\<close> by (simp add: algebra_simps)
  finally show "(pub + (q + (c - pub mod c)) mod c) mod c = q" using assms by simp
qed

lemma written_write_ring:
  assumes c: "0 < c" "JOURNAL_HEADER_BYTES + c \<le> length m" "length fr \<le> c"
  shows "written c pub fr m (length fr) = write_ring c m (pub mod c) fr"
proof (rule nth_equalityI)
  have p: "pub mod c < c" using c by simp
  show "length (written c pub fr m (length fr)) = length (write_ring c m (pub mod c) fr)"
    using length_write_ring [OF p c(2,3)] by simp
  fix k assume "k < length (written c pub fr m (length fr))"
  then have k: "k < length m" by simp
  show "written c pub fr m (length fr) ! k = write_ring c m (pub mod c) fr ! k"
  proof (cases "JOURNAL_HEADER_BYTES \<le> k \<and> k < JOURNAL_HEADER_BYTES + c")
    case False
    then have "k < JOURNAL_HEADER_BYTES \<or> JOURNAL_HEADER_BYTES + c \<le> k" by linarith
    then show ?thesis using written_outside [OF c(1)] write_ring_outside [OF p c(2,3) k] by simp
  next
    case True
    then have "k - JOURNAL_HEADER_BYTES < c" by linarith
    then obtain d where d: "d < c" "(pub + d) mod c = k - JOURNAL_HEADER_BYTES"
      by (rule window_position)
    then have "ring_byte c x (pub + d) = x ! k" for x using True by (simp add: ring_byte_def)
    then show ?thesis
      using ring_byte_written [OF c d(1), of pub fr] ring_byte_write [OF c d(1), of pub] by simp
  qed
qed

lemma bytes_run:
  assumes "ppc s = PWriting pub f fr 0" and "i \<le> length fr"
  shows "jstep\<^sup>*\<^sup>* s (s\<lparr>mem := written (capacity (producer s)) pub fr (mem s) i, ppc := PWriting pub f fr i\<rparr>)"
  using assms(2)
proof (induction i)
  case 0
  have "s\<lparr>mem := mem s, ppc := PWriting pub f fr 0\<rparr> = s" using assms(1) by (simp flip: assms(1))
  then show ?case by simp
next
  case (Suc i)
  let ?s = "s\<lparr>mem := written (capacity (producer s)) pub fr (mem s) i, ppc := PWriting pub f fr i\<rparr>"
  have "jstep ?s (?s\<lparr>mem := (mem ?s)[JOURNAL_HEADER_BYTES + (pub + i) mod capacity (producer ?s) := fr ! i],
      ppc := PWriting pub f fr (Suc i)\<rparr>)"
    by (rule jstep.p_byte) (use Suc.prems in simp_all)
  with Suc show ?case by (simp add: rtranclp.rtrancl_into_rtrancl)
qed

lemma publish_True:
  assumes "publish m j t key payload = Inr (True, m', j')"
  obtains pub fr where "publish_start m j t key payload = Inr (PubWrite pub fr)"
    "publish_commit (write_ring (capacity j) m (pub mod capacity j) fr) j (pub + length fr) = (m', j')"
  using assms
  by (cases "publish_start m j t key payload"; cases "projr (publish_start m j t key payload)")
    (auto simp: publish_def Let_def)

lemma publish_run:
  assumes idle: "ppc s = PIdle"
    and p: "publish (mem s) (producer s) t key payload = Inr (True, m, j)"
    and c: "0 < capacity (producer s)" "JOURNAL_HEADER_BYTES + capacity (producer s) \<le> length (mem s)"
  shows "jstep\<^sup>*\<^sup>* s (s\<lparr>mem := m, producer := j, sent := sent s @ [(t, key, payload)]\<rparr>)"
proof -
  let ?f = "(t, key, payload)"
  obtain pub fr where st: "publish_start (mem s) (producer s) t key payload = Inr (PubWrite pub fr)"
    and mj: "publish_commit (write_ring (capacity (producer s)) (mem s) (pub mod capacity (producer s)) fr)
        (producer s) (pub + length fr) = (m, j)"
    using p by (rule publish_True)
  have fits: "length fr \<le> capacity (producer s)"
    using publish_start_write [OF st] by auto
  let ?s1 = "s\<lparr>ppc := PWriting pub ?f fr 0\<rparr>"
  let ?s2 = "?s1\<lparr>mem := write_ring (capacity (producer s)) (mem s) (pub mod capacity (producer s)) fr,
      ppc := PWriting pub ?f fr (length fr)\<rparr>"
  have "jstep s ?s1" using idle st by (rule jstep.p_begin)
  moreover have "jstep\<^sup>*\<^sup>* ?s1 ?s2"
    using bytes_run [of ?s1 pub ?f fr "length fr"] written_write_ring [OF c fits] by simp
  moreover have "jstep ?s2 (?s2\<lparr>mem := m, producer := j, ppc := PIdle, sent := sent ?s2 @ [?f]\<rparr>)"
    by (rule jstep.p_commit) (use mj in simp_all)
  moreover have "?s2\<lparr>mem := m, producer := j, ppc := PIdle, sent := sent ?s2 @ [?f]\<rparr> =
      s\<lparr>mem := m, producer := j, sent := sent s @ [?f]\<rparr>"
    using idle by simp
  ultimately show ?thesis
    by (metis (no_types, lifting) converse_rtranclp_into_rtranclp rtranclp.rtrancl_into_rtrancl)
qed

lemma read_run:
  assumes idle: "cpc s = CIdle" and r: "read_next (mem s) (consumer s) = (Inr (Some f), m, j)"
  shows "jstep\<^sup>*\<^sup>* s (s\<lparr>mem := m, consumer := j, got := got s @ [f]\<rparr>)"
proof -
  obtain con pub j' n where st: "read_start (mem s) (consumer s) = ReadFrame con pub j'"
    and rf: "read_frame (mem s) (capacity j') con pub = Inr (f, n)"
    and mj: "read_commit (mem s) j' (con + n) = (m, j)"
    using r by (auto simp: read_next_def split: read_phase.split_asm sum.split_asm)
  let ?s1 = "s\<lparr>consumer := j', cpc := CLoaded con pub\<rparr>"
  let ?s2 = "?s1\<lparr>cpc := CRead con f n\<rparr>"
  have "jstep s ?s1" using idle st by (rule jstep.c_begin)
  moreover have "jstep ?s1 ?s2" by (rule jstep.c_read) (use rf in simp_all)
  moreover have "jstep ?s2 (?s2\<lparr>mem := m, consumer := j, cpc := CIdle, got := got ?s2 @ [f]\<rparr>)"
    by (rule jstep.c_commit) (use mj in simp_all)
  moreover have "?s2\<lparr>mem := m, consumer := j, cpc := CIdle, got := got ?s2 @ [f]\<rparr> =
      s\<lparr>mem := m, consumer := j, got := got s @ [f]\<rparr>" using idle by simp
  ultimately show ?thesis
    by (metis (no_types, lifting) converse_rtranclp_into_rtranclp rtranclp.rtrancl_refl)
qed

subsection \<open>The log its reader drains\<close>

locale fifo_log =
  fixes get :: "'s \<Rightarrow> 'f option res \<times> 's"
    and pending :: "'s \<Rightarrow> 'f list"
    and live :: "'s \<Rightarrow> bool"
  assumes get_next: "live s \<Longrightarrow> pending s = f # fs \<Longrightarrow>
      \<exists>s'. get s = (Inr (Some f), s') \<and> live s' \<and> pending s' = fs"
    and get_end: "live s \<Longrightarrow> pending s = [] \<Longrightarrow> \<exists>s'. get s = (Inr None, s') \<and> live s'"
begin

fun pull :: "nat \<Rightarrow> 's \<Rightarrow> ('f list \<times> exn option \<times> 's) option" where
  "pull 0 s = None"
| "pull (Suc n) s =
     (case get s of
        (Inl e, s') \<Rightarrow> Some ([], Some e, s')
      | (Inr None, s') \<Rightarrow> Some ([], None, s')
      | (Inr (Some f), s') \<Rightarrow> (case pull n s' of None \<Rightarrow> None | Some (fs, r) \<Rightarrow> Some (f # fs, r)))"

lemma pull_all: "live s \<Longrightarrow> length (pending s) < n \<Longrightarrow> \<exists>s'. pull n s = Some (pending s, None, s') \<and> live s'"
proof (induction n arbitrary: s)
  case (Suc n)
  show ?case
  proof (cases "pending s")
    case Nil
    with get_end [OF Suc.prems(1)] show ?thesis by auto
  next
    case (Cons f fs)
    with get_next [OF Suc.prems(1)] obtain s' where
      s': "get s = (Inr (Some f), s')" "live s'" "pending s' = fs" by blast
    with Suc.IH [of s'] Suc.prems(2) Cons show ?thesis by auto
  qed
qed simp

end

definition sys_read :: "sys \<Rightarrow> frame option res \<times> sys" where
  "sys_read s = (case read_next (mem s) (consumer s) of (r, m, j) \<Rightarrow>
     (r, s\<lparr>mem := m, consumer := j,
          got := got s @ (case r of Inr (Some f) \<Rightarrow> [f] | _ \<Rightarrow> [])\<rparr>))"

definition sys_pending :: "sys \<Rightarrow> frame list" where
  "sys_pending s = drop (length (got s)) (sent s)"

definition sys_live :: "sys \<Rightarrow> bool" where
  "sys_live s = ((\<exists>c. jinv c s) \<and> stored_total (sent s) < 2 ^ 64 \<and> cpc s = CIdle \<and>
     \<not> invalid_local (consumer s) \<and> \<not> is_invalid (mem s))"

lemma is_invalid_commit:
  "4096 \<le> length m \<Longrightarrow> is_invalid (store_release CONSUMED_OFFSET v m) = is_invalid m"
  by (simp add: is_invalid_def load_store_other offset_defs)

text \<open>A reader that is not invalidated gets the oldest frame it has not read, and None after the last.\<close>

lemma read_next_cases:
  assumes inv: "jinv c s" and live: "\<not> invalid_local (consumer s)" "\<not> is_invalid (mem s)"
  shows "(sys_pending s = [] \<and>
      read_next (mem s) (consumer s) =
        (Inr None, mem s, (consumer s)\<lparr>consumed_local := Some (stored_total (got s))\<rparr>))
    \<or> (\<exists>f fs. sys_pending s = f # fs \<and> read_next (mem s) (consumer s) =
        (Inr (Some f), read_commit (mem s) ((consumer s)\<lparr>consumed_local := Some (stored_total (got s))\<rparr>)
          (stored_total (got s) + stored_size f)))"
proof -
  obtain pend where i: "sent s = got s @ pend" "list_all frame_ok (sent s)"
    "mem_inv c (mem s) (stored_total (got s)) (stored_total (sent s)) pend"
    "cons_inv c (stored_total (got s)) pend (consumer s) (cpc s)"
    using inv unfolding jinv_def by blast
  have p: "sys_pending s = pend" using i(1) by (simp add: sys_pending_def)
  have cap: "capacity (consumer s) = c" "consumed_local (consumer s) \<in> {None, Some (stored_total (got s))}"
    using i(4) by (simp_all add: cons_inv_def)
  show ?thesis
  proof (cases pend)
    case Nil
    with read_start_cases [OF i(3) cap] live p show ?thesis by (auto simp: read_next_def)
  next
    case (Cons f fs)
    have "cons_inv c (stored_total (got s)) pend (consumer s)
        (CLoaded (stored_total (got s)) (stored_total (sent s)))"
      using cap i(1) Cons by (auto simp: cons_inv_def)
    from loaded_frame [OF i(3) _ this] i(1,2) Cons
    have "read_frame (mem s) c (stored_total (got s)) (stored_total (sent s)) = Inr (f, stored_size f)" by auto
    with read_start_cases [OF i(3) cap] live p Cons cap show ?thesis by (auto simp: read_next_def)
  qed
qed

lemma sys_read_live:
  assumes "sys_live s"
  shows "(sys_pending s = [] \<and> (\<exists>s'. sys_read s = (Inr None, s') \<and> sys_live s')) \<or>
    (\<exists>f fs s'. sys_pending s = f # fs \<and> sys_read s = (Inr (Some f), s') \<and> sys_live s' \<and> sys_pending s' = fs)"
proof -
  obtain c where inv: "jinv c s" and l: "stored_total (sent s) < 2 ^ 64" "cpc s = CIdle"
    "\<not> invalid_local (consumer s)" "\<not> is_invalid (mem s)"
    using assms by (auto simp: sys_live_def)
  have len: "4096 \<le> length (mem s)" using inv by (auto simp: jinv_def mem_inv_def offset_defs)
  let ?j = "(consumer s)\<lparr>consumed_local := Some (stored_total (got s))\<rparr>"
  from read_next_cases [OF inv l(3,4)] show ?thesis
  proof (elim disjE exE conjE)
    assume e: "sys_pending s = []" and r: "read_next (mem s) (consumer s) = (Inr None, mem s, ?j)"
    have "jinv c (s\<lparr>consumer := ?j\<rparr>)"
      using inv l(2) by (auto simp: jinv_def cons_inv_def)
    then have "sys_live (s\<lparr>consumer := ?j\<rparr>)" using l by (auto simp: sys_live_def)
    with e r show ?thesis by (simp add: sys_read_def)
  next
    fix f fs
    assume e: "sys_pending s = f # fs" and r: "read_next (mem s) (consumer s) =
        (Inr (Some f), read_commit (mem s) ?j (stored_total (got s) + stored_size f))"
    obtain m j where mj: "read_commit (mem s) ?j (stored_total (got s) + stored_size f) = (m, j)" by force
    let ?s = "s\<lparr>mem := m, consumer := j, got := got s @ [f]\<rparr>"
    have "jstep\<^sup>*\<^sup>* s ?s" by (rule read_run) (use r l(2) mj in simp_all)
    then have "jinv c ?s" using inv l(1) jsteps_inv by fastforce
    then have "sys_live ?s"
      using l mj is_invalid_commit [OF len] by (auto simp: sys_live_def read_commit_def)
    moreover have "sys_pending ?s = fs"
      using e by (simp add: sys_pending_def drop_Suc flip: tl_drop)
    ultimately show ?thesis using e r mj by (cases f) (auto simp: sys_read_def)
  qed
qed

interpretation log: fifo_log sys_read sys_pending sys_live
proof
  fix s f fs
  assume "sys_live s" "sys_pending s = f # fs"
  with sys_read_live [of s] show "\<exists>s'. sys_read s = (Inr (Some f), s') \<and> sys_live s' \<and> sys_pending s' = fs"
    by auto
next
  fix s
  assume "sys_live s" "sys_pending s = []"
  with sys_read_live [of s] show "\<exists>s'. sys_read s = (Inr None, s') \<and> sys_live s'" by auto
qed

lemma drain_pull:
  "drain n (mem s) (consumer s) = map_option (\<lambda>(fs, e, s'). (fs, e, mem s', consumer s')) (log.pull n s)"
proof (induction n arbitrary: s)
  case (Suc n)
  obtain r m j where r: "read_next (mem s) (consumer s) = (r, m, j)" by (metis surj_pair)
  have sr: "sys_read s = (r, s\<lparr>mem := m, consumer := j, got := got s @ (case r of Inr (Some f) \<Rightarrow> [f] | _ \<Rightarrow> [])\<rparr>)"
    using r by (simp add: sys_read_def)
  show ?case
  proof (cases r)
    case (Inl e)
    then show ?thesis using r sr by simp
  next
    case (Inr x)
    show ?thesis
    proof (cases x)
      case None
      then show ?thesis using r sr Inr by simp
    next
      case (Some f)
      then show ?thesis
        using r sr Inr Suc [of "s\<lparr>mem := m, consumer := j, got := got s @ [f]\<rparr>"]
        by (auto split: option.splits)
    qed
  qed
qed simp

subsection \<open>Room\<close>

text \<open>A producer that has not been invalidated and that has attached, or can.\<close>

definition can_publish :: "sys \<Rightarrow> bool" where
  "can_publish s = (ppc s = PIdle \<and> \<not> invalid_local (producer s) \<and>
     (published_local (producer s) \<noteq> None \<or> \<not> is_invalid (mem s)))"

lemma publish_room:
  assumes inv: "jinv c s" and can: "can_publish s" and t: "t \<in> RECORD_TYPES"
  shows "(\<exists>m j. publish (mem s) (producer s) t key payload = Inr (True, m, j)) \<longleftrightarrow>
    frame_size key payload \<le> MAX_FRAME_SIZE \<and>
    stored_total (sys_pending s) + stored_size (t, key, payload) \<le> c"
proof -
  obtain pend where i: "sent s = got s @ pend"
    "mem_inv c (mem s) (stored_total (got s)) (stored_total (sent s)) pend"
    "prod_inv c (mem s) (stored_total (got s)) (stored_total (sent s)) (producer s) (ppc s)"
    using inv unfolding jinv_def by blast
  have p: "sys_pending s = pend" using i(1) by (simp add: sys_pending_def)
  have l: "load_acquire PUBLISHED_OFFSET (mem s) = stored_total (sent s)"
    "load_acquire CONSUMED_OFFSET (mem s) = stored_total (got s)"
    "stored_total (sent s) = stored_total (got s) + stored_total pend" "stored_total pend \<le> c"
    using i(2) by (auto simp: mem_inv_def)
  have pl: "published_local (producer s) \<in> {None, Some (stored_total (sent s))}" "capacity (producer s) = c"
    using i(3) by (auto simp: prod_inv_def)
  note v = valid_cursors_inv [OF i(2)]
  have at: "publish_at (mem s) (producer s) (stored_total (sent s)) t key payload n =
      (if n > c - stored_total pend then case invalidate (mem s) (producer s) of (m, j) \<Rightarrow> PubRefused m j
       else PubWrite (stored_total (sent s)) (pack_frame t key payload n))" for n
    using v l pl by (simp add: publish_at_def)
  show ?thesis
    using pl(1) can t l(4)
    by (auto simp: publish_def publish_start_def at l(1) can_publish_def invalidate_def stored_size_def p
        Let_def publish_commit_def split: if_splits)
qed

lemma publish_keeps_valid:
  assumes p: "publish m j t key payload = Inr (True, m', j')"
    and c: "0 < capacity j" "JOURNAL_HEADER_BYTES + capacity j \<le> length m"
  shows "is_invalid m' = is_invalid m \<and> invalid_local j' = invalid_local j \<and> published_local j' \<noteq> None"
proof -
  obtain pub fr where st: "publish_start m j t key payload = Inr (PubWrite pub fr)"
    and mj: "publish_commit (write_ring (capacity j) m (pub mod capacity j) fr) j (pub + length fr) = (m', j')"
    using p by (rule publish_True)
  let ?w = "write_ring (capacity j) m (pub mod capacity j) fr"
  have len: "length fr \<le> capacity j" using publish_start_write [OF st] by auto
  have pos: "pub mod capacity j < capacity j" using c by simp
  have w: "length ?w = length m" "4096 \<le> length m"
    using length_write_ring [OF pos c(2) len] c(2) by (simp_all add: offset_defs)
  have "load_acquire INVALID_OFFSET ?w = load_acquire INVALID_OFFSET m"
    using w write_ring_outside [OF pos c(2) len]
    by (intro load_cong) (auto simp: offset_defs)
  then show ?thesis
    using mj w by (auto simp: publish_commit_def is_invalid_def load_store_other offset_defs)
qed

lemma one_frame_run:
  "\<exists>s. jreach (replicate 4160 0) 4160 s \<and> can_publish s \<and> sent s = [(RECORD_BLOCK, [7], [8, 9])] \<and> got s = [] \<and>
     cpc s = CIdle \<and> \<not> invalid_local (consumer s) \<and> \<not> is_invalid (mem s) \<and>
     stored_total (sent s) < 2 ^ 64"
proof -
  let ?s = "journal_start (replicate 4160 0) 4160"
  have inv: "jinv 64 ?s" using journal_start_inv [of 4160 "replicate 4160 0"] by (simp add: offset_defs)
  have mem: "4096 \<le> length (mem ?s)" "\<not> is_invalid (mem ?s)"
    by (simp_all add: journal_start_def reset_def is_invalid_def load_store_same offset_defs)
  have can: "can_publish ?s" using mem by (simp add: can_publish_def journal_start_def journal_init_def)
  have size: "stored_size (RECORD_BLOCK, [7], [8, 9]) = 16"
    by (simp add: stored_size_def frame_size_def pad_to_def frame_consts)
  have "\<exists>m j. publish (mem ?s) (producer ?s) RECORD_BLOCK [7] [8, 9] = Inr (True, m, j)"
    using publish_room [OF inv can, of RECORD_BLOCK "[7]" "[8, 9]"] size
    by (simp add: sys_pending_def journal_start_def frame_size_def frame_consts)
  then obtain m j where p: "publish (mem ?s) (producer ?s) RECORD_BLOCK [7] [8, 9] = Inr (True, m, j)" by blast
  let ?s' = "?s\<lparr>mem := m, producer := j, sent := sent ?s @ [(RECORD_BLOCK, [7], [8, 9])]\<rparr>"
  have run: "jstep\<^sup>*\<^sup>* ?s ?s'"
    using p by (rule publish_run [rotated]) (use mem in \<open>simp_all add: journal_start_def journal_init_def offset_defs reset_def\<close>)
  have "is_invalid m = is_invalid (mem ?s)" "\<not> invalid_local j" "published_local j \<noteq> None"
    using publish_keeps_valid [OF p] mem
    by (simp_all add: journal_start_def journal_init_def offset_defs reset_def)
  then have "jreach (replicate 4160 0) 4160 ?s' \<and> can_publish ?s' \<and> sent ?s' = [(RECORD_BLOCK, [7], [8, 9])] \<and>
      got ?s' = [] \<and> cpc ?s' = CIdle \<and> \<not> invalid_local (consumer ?s') \<and> \<not> is_invalid (mem ?s') \<and>
      stored_total (sent ?s') < 2 ^ 64"
    using run mem size
    by (simp add: jreach_def can_publish_def) (simp add: journal_start_def journal_init_def)
  then show ?thesis by blast
qed

subsection \<open>The cache past the journal\<close>

definition keeps_cache :: "nat \<Rightarrow> bytes \<Rightarrow> sys \<Rightarrow> bool" where
  "keeps_cache c m s =
     (capacity (producer s) = c \<and> capacity (consumer s) = c \<and> length (mem s) = length m \<and>
      drop (JOURNAL_HEADER_BYTES + c) (mem s) = drop (JOURNAL_HEADER_BYTES + c) m)"

lemma drop_store:
  "off + 8 \<le> n \<Longrightarrow> n \<le> length m \<Longrightarrow> drop n (store_release off v m) = drop n m"
  by (intro nth_equalityI) (simp_all add: nth_store)

lemma read_start_mem:
  assumes "read_start m j = r"
  shows "case r of
      ReadRaise e m' j' \<Rightarrow> capacity j' = capacity j \<and> (m' = m \<or> m' = store_release INVALID_OFFSET INVALID m)
    | ReadNone j' \<Rightarrow> capacity j' = capacity j
    | ReadFrame con pub j' \<Rightarrow> capacity j' = capacity j"
  using assms
  by (auto simp: read_start_def read_at_def Let_def invalidate_def split: if_splits option.splits)

lemma keeps_cache_store:
  assumes "keeps_cache c m s" "JOURNAL_HEADER_BYTES + c \<le> length m" "off + 8 \<le> JOURNAL_HEADER_BYTES"
  shows "length (store_release off v (mem s)) = length m"
    "drop (JOURNAL_HEADER_BYTES + c) (store_release off v (mem s)) = drop (JOURNAL_HEADER_BYTES + c) m"
  using assms by (auto simp: keeps_cache_def drop_store)

lemma keeps_cache_step:
  assumes "jstep s s'" and k: "keeps_cache c m s" and c: "0 < c" "JOURNAL_HEADER_BYTES + c \<le> length m"
  shows "keeps_cache c m s'"
proof -
  note st = keeps_cache_store [OF k c(2) offsets_apart(1)] keeps_cache_store [OF k c(2) offsets_apart(2)]
    keeps_cache_store [OF k c(2) offsets_apart(3)]
  from assms(1) show ?thesis
  proof cases
    case (p_refuse t key payload m' j)
    then show ?thesis using publish_start_refused [OF p_refuse(3)] k st by (auto simp: keeps_cache_def)
  next
    case (p_byte pub f fr i)
    have "JOURNAL_HEADER_BYTES + (pub + i) mod c < JOURNAL_HEADER_BYTES + c" using c by simp
    then show ?thesis using p_byte k by (simp add: keeps_cache_def)
  next
    case (c_raise e m' j)
    then show ?thesis using read_start_mem [OF c_raise(3)] k st by (auto simp: keeps_cache_def)
  next
    case (c_none j)
    then show ?thesis using read_start_mem [OF c_none(3)] k by (auto simp: keeps_cache_def)
  next
    case (c_begin con pub j)
    then show ?thesis using read_start_mem [OF c_begin(3)] k by (auto simp: keeps_cache_def)
  qed (use k st in \<open>auto simp: keeps_cache_def publish_commit_def read_commit_def invalidate_def\<close>)
qed

lemma keeps_cache_start:
  assumes "JOURNAL_HEADER_BYTES < journal_bytes" "journal_bytes \<le> length m"
  shows "keeps_cache (journal_bytes - JOURNAL_HEADER_BYTES) m (journal_start m journal_bytes)"
proof -
  have "4096 < journal_bytes" "4096 < length m" using assms by (simp_all add: offset_defs)
  then show ?thesis
    using assms by (simp add: keeps_cache_def journal_start_def journal_init_def reset_def drop_store offset_defs)
qed

subsection \<open>Properties\<close>

text \<open>
  C25. However the producer and the consumer interleave, the consumer returns the published frames in
  order, whole and once, and the only error it ever raises is that the producer gave the journal up:
  the consumer's own checks never fail on what the producer wrote. The hypothesis on the total size
  is the range of the 64-bit cursors.
\<close>

theorem journal_fifo:
  assumes "JOURNAL_HEADER_BYTES < journal_bytes" "journal_bytes \<le> length m"
    and "jreach m journal_bytes s" and "stored_total (sent s) < 2 ^ 64"
  shows "prefix (got s) (sent s) \<and>
    set (raised s) \<subseteq> {RecoveryJournalError ''recovery journal is invalid''}"
  using jreach_inv [OF assms] by (auto simp: jinv_def journal_invalid_error_def)

theorem journal_fifo_witness:
  "\<exists>s. jreach (replicate 4160 0) 4160 s \<and> sent s = [(1, [7], [8, 9])] \<and> prefix (got s) (sent s)"
proof -
  obtain s where s: "jreach (replicate 4160 0) 4160 s" "sent s = [(RECORD_BLOCK, [7], [8, 9])]"
    "stored_total (sent s) < 2 ^ 64"
    using one_frame_run by blast
  then show ?thesis
    using journal_fifo [of 4160 "replicate 4160 0" s] by (auto simp: offset_defs RECORD_BLOCK_def)
qed







end
