(* ===== verification/KVCR_Memory.thy ===== *)
theory KVCR_Memory
  imports KVCR_Journal
begin

text \<open>
  The file of a pool (\<open>service/memory.py\<close>) and its geometry (\<open>service/memmap.py\<close>): the specification of a
  pool, the region past the pool that carries a handback, the reservation of its pages and the checks
  of an attachment.

  A file is its bytes. The operating system is a parameter, a record of the answers it gives: the page
  sizes, whether \<open>posix_fallocate\<close> works, how much a \<open>pwrite\<close> writes, and which calls fail.
\<close>

subsection \<open>Geometry\<close>

definition round_up :: "nat \<Rightarrow> nat \<Rightarrow> nat" where
  "round_up sz alignment = (sz + alignment - 1) div alignment * alignment"

lemma round_up_dvd: "a dvd round_up n a"
  by (simp add: round_up_def)

lemma round_up_ge: "0 < a \<Longrightarrow> n \<le> round_up n a"
proof -
  assume a: "0 < a"
  have "(n + a - 1) mod a \<le> a - 1" using mod_less_divisor [OF a, of "n + a - 1"] by linarith
  then have "(n + a - 1) div a * a + (a - 1) \<ge> n + a - 1"
    using div_mult_mod_eq [of "n + a - 1" a] by linarith
  then show ?thesis using a by (simp add: round_up_def)
qed

lemma round_up_less: "0 < a \<Longrightarrow> round_up n a < n + a"
proof -
  assume a: "0 < a"
  have "(n + a - 1) div a * a \<le> n + a - 1" by (rule div_times_less_eq_dividend)
  then show ?thesis using a unfolding round_up_def by linarith
qed

definition compute_pool_geometry :: "int \<Rightarrow> int \<Rightarrow> (int \<times> int) res" where
  "compute_pool_geometry requested_bytes block_size_bytes =
     (if requested_bytes \<le> 0 then Inl (ValueError ''requested_bytes must be positive'')
      else if block_size_bytes \<le> 0 then Inl (ValueError ''block_size_bytes must be positive'')
      else let block_count = requested_bytes div block_size_bytes in
        if block_count = 0 then Inl (ValueError ''requested_bytes must hold at least one complete KV block'')
        else Inr (block_count * block_size_bytes, block_count))"

definition validate_pool_layout :: "int \<Rightarrow> int \<Rightarrow> unit res" where
  "validate_pool_layout mapping_bytes journal_bytes =
     (if mapping_bytes \<le> 0 then Inl (ValueError ''mapping_bytes must be positive'')
      else if journal_bytes \<le> 0 then Inl (ValueError ''journal_bytes must be positive'')
      else if journal_bytes \<le> int JOURNAL_HEADER_BYTES
      then Inl (ValueError ''KVCR pool journal_bytes must exceed its 4096-byte header'')
      else if journal_bytes mod int JOURNAL_HEADER_BYTES \<noteq> 0
      then Inl (ValueError ''KVCR pool journal_bytes must be page aligned'')
      else if journal_bytes \<ge> mapping_bytes
      then Inl (ValueError ''KVCR pool journal_bytes must be smaller than mapping_bytes'')
      else Inr ())"

subsection \<open>The specification of a pool\<close>

definition POOL_PREFIX :: string where "POOL_PREFIX = ''kvcr''"

definition pool_id_char :: "char \<Rightarrow> bool" where
  "pool_id_char ch =
     (let n = of_char ch :: nat in
      (65 \<le> n \<and> n \<le> 90) \<or> (97 \<le> n \<and> n \<le> 122) \<or> (48 \<le> n \<and> n \<le> 57) \<or> ch \<in> {CHR ''_'', CHR ''.'', CHR ''-''})"

definition pool_filename :: "string \<Rightarrow> string \<Rightarrow> string res" where
  "pool_filename pool_id generation =
     (if pool_id = [] \<or> \<not> list_all pool_id_char pool_id
      then Inl (ValueError ''KVCR pool_id contains a filename-unsafe character'')
      else Inr (POOL_PREFIX @ ''-'' @ pool_id @ ''-'' @ generation))"

text \<open>\<open>Path(path).name\<close>: the last component that is neither empty nor a dot.\<close>

fun path_parts :: "string \<Rightarrow> string \<Rightarrow> string list" where
  "path_parts acc [] = [acc]"
| "path_parts acc (ch # rest) = (if ch = CHR ''/'' then acc # path_parts [] rest else path_parts (acc @ [ch]) rest)"

definition path_name :: "string \<Rightarrow> string" where
  "path_name path =
     (case rev (filter (\<lambda>part. part \<noteq> [] \<and> part \<noteq> ''.'') (path_parts [] path)) of [] \<Rightarrow> [] | name # _ \<Rightarrow> name)"

definition path_absolute :: "string \<Rightarrow> bool" where
  "path_absolute path = (take 1 path = ''/'')"

record KVCRPoolSpec =
  pool_id :: string
  path :: string
  generation :: string
  device :: nat
  inode :: nat
  mapping_bytes :: nat
  journal_bytes :: nat

definition data_bytes :: "KVCRPoolSpec \<Rightarrow> nat" where
  "data_bytes spec = mapping_bytes spec - journal_bytes spec"

text \<open>The constraints that \<open>msgspec\<close> enforces on a decoded specification, and \<open>__post_init__\<close>.\<close>

definition hex_digit :: "char \<Rightarrow> bool" where
  "hex_digit ch = (let n = of_char ch :: nat in (48 \<le> n \<and> n \<le> 57) \<or> (97 \<le> n \<and> n \<le> 102))"

definition spec_post_init :: "KVCRPoolSpec \<Rightarrow> unit res" where
  "spec_post_init spec =
     (if \<not> path_absolute (path spec) then Inl (ValueError ''KVCR pool path must be absolute'')
      else bindR (pool_filename (pool_id spec) (generation spec)) (\<lambda>name.
        if path_name (path spec) \<noteq> name
        then Inl (ValueError ''KVCR pool path does not match its identity and generation'')
        else validate_pool_layout (int (mapping_bytes spec)) (int (journal_bytes spec))))"

definition spec_decodes :: "KVCRPoolSpec \<Rightarrow> bool" where
  "spec_decodes spec =
     (length (generation spec) = 32 \<and> list_all hex_digit (generation spec) \<and>
      0 < mapping_bytes spec \<and> 0 < journal_bytes spec \<and> is_ok (spec_post_init spec))"

lemma spec_layout:
  assumes "spec_post_init spec = Inr ()"
  shows "JOURNAL_HEADER_BYTES < journal_bytes spec" "JOURNAL_HEADER_BYTES dvd journal_bytes spec"
    "journal_bytes spec < mapping_bytes spec"
proof -
  have "validate_pool_layout (int (mapping_bytes spec)) (int (journal_bytes spec)) = Inr ()"
    using assms by (auto simp: spec_post_init_def bindR_eq_Inr split: if_splits)
  then have "int JOURNAL_HEADER_BYTES < int (journal_bytes spec)"
    "int (journal_bytes spec) mod int JOURNAL_HEADER_BYTES = 0" "int (journal_bytes spec) < int (mapping_bytes spec)"
    by (auto simp: validate_pool_layout_def split: if_splits)
  then show "JOURNAL_HEADER_BYTES < journal_bytes spec" "JOURNAL_HEADER_BYTES dvd journal_bytes spec"
    "journal_bytes spec < mapping_bytes spec"
    by (simp_all add: mod_eq_0_iff_dvd)
qed

subsection \<open>The operating system's answers\<close>

text \<open>
  \<open>fallocate\<close> is None when the platform has no \<open>posix_fallocate\<close>, else the error it raises, if any;
  \<open>pwrite\<close> maps a position and a length to the number of bytes written. The errors are named by their
  \<open>errno\<close>. \<open>flush_error\<close> is asked for each \<open>flush\<close> of a mapping
  in turn. \<open>huge_page\<close> is the answer of \<open>hugetlb_page_size\<close>, 0 for an ordinary file.
\<close>

record pool_os =
  page_size :: nat
  granularity :: nat
  huge_page :: nat
  fallocate :: "string option option"
  pwrite :: "nat \<Rightarrow> nat \<Rightarrow> nat res"
  truncate_error :: "nat \<Rightarrow> string option"
  map_error :: "nat \<Rightarrow> nat \<Rightarrow> string option"
  flush_error :: "nat \<Rightarrow> string option"

definition memmap_align :: "pool_os \<Rightarrow> nat \<Rightarrow> nat" where
  "memmap_align os sz = (if huge_page os \<noteq> 0 then round_up sz (huge_page os) else sz)"

definition region_offset :: "pool_os \<Rightarrow> nat \<Rightarrow> nat" where
  "region_offset os mapping = memmap_align os (round_up mapping (granularity os))"

lemma memmap_align_ge: "n \<le> memmap_align os n"
  by (simp add: memmap_align_def round_up_ge)

lemma region_offset_ge: "0 < granularity os \<Longrightarrow> n \<le> region_offset os n"
  unfolding region_offset_def using round_up_ge memmap_align_ge by (metis le_trans)

subsection \<open>Reserving pages\<close>

definition ftruncate :: "nat \<Rightarrow> bytes \<Rightarrow> bytes" where
  "ftruncate n bs = take n bs @ replicate (n - length bs) 0"

lemma length_ftruncate [simp]: "length (ftruncate n bs) = n"
  by (simp add: ftruncate_def)

lemma take_ftruncate: "k \<le> n \<Longrightarrow> k \<le> length bs \<Longrightarrow> take k (ftruncate n bs) = take k bs"
  by (simp add: ftruncate_def min_def)

lemma ftruncate_ftruncate: "n \<le> m \<Longrightarrow> n \<le> length bs \<Longrightarrow> ftruncate n (ftruncate m bs) = ftruncate n bs"
  by (simp add: ftruncate_def min_def)

lemma ftruncate_short: "n \<le> length bs \<Longrightarrow> ftruncate n bs = take n bs"
  by (simp add: ftruncate_def)

text \<open>A write through the descriptor extends the file; \<open>count\<close> zero bytes at \<open>pos\<close>.\<close>

definition write_zeros :: "nat \<Rightarrow> nat \<Rightarrow> bytes \<Rightarrow> bytes" where
  "write_zeros pos cnt bs = slice_set pos (replicate cnt 0) (bs @ replicate (pos + cnt - length bs) 0)"

function populate_loop :: "pool_os \<Rightarrow> nat \<Rightarrow> nat \<Rightarrow> bytes \<Rightarrow> unit res \<times> bytes" where
  "populate_loop os pos stop bs =
     (if pos < stop then
        case pwrite os pos (min (page_size os) (stop - pos)) of
          Inl e \<Rightarrow> (Inl e, bs)
        | Inr cnt \<Rightarrow>
            if cnt = 0 then (Inl (OSError ''EIO''), bs)
            else populate_loop os (pos + cnt) stop (write_zeros pos cnt bs)
      else (Inr (), bs))"
  by pat_completeness auto
termination
  by (relation "measure (\<lambda>(os, pos, stop, bs). stop - pos)") auto

declare populate_loop.simps [simp del]

definition UNSUPPORTED_ERRORS :: "string set" where
  "UNSUPPORTED_ERRORS = {''ENOSYS'', ''EOPNOTSUPP'', ''ENOTSUP''}"

definition populate_pages :: "pool_os \<Rightarrow> nat \<Rightarrow> nat \<Rightarrow> bytes \<Rightarrow> unit res \<times> bytes" where
  "populate_pages os offset len bs =
     (case fallocate os of
        Some None \<Rightarrow> (Inr (), bs @ replicate (offset + len - length bs) 0)
      | Some (Some e) \<Rightarrow>
          if e \<notin> UNSUPPORTED_ERRORS then (Inl (OSError e), bs)
          else populate_loop os offset (offset + len) bs
      | None \<Rightarrow> populate_loop os offset (offset + len) bs)"

text \<open>Reserving pages past a pool changes nothing before \<open>offset\<close>, on the path that writes as well.\<close>

lemma write_zeros_below: "pos \<le> length bs \<Longrightarrow> k \<le> pos \<Longrightarrow> take k (write_zeros pos n bs) = take k bs"
  by (simp add: write_zeros_def slice_set_def min_def)

lemma length_write_zeros: "length (write_zeros pos n bs) = max (length bs) (pos + n)"
  by (simp add: write_zeros_def slice_set_def)

lemma populate_loop_step:
  assumes "pos < stop" "pwrite os pos (min (page_size os) (stop - pos)) = Inr (Suc n)"
  shows "populate_loop os pos stop bs = populate_loop os (pos + Suc n) stop (write_zeros pos (Suc n) bs)"
  using assms by (subst populate_loop.simps) simp

lemma populate_loop_stop:
  assumes "\<not> (pos < stop \<and> (\<exists>n. pwrite os pos (min (page_size os) (stop - pos)) = Inr (Suc n)))"
  shows "snd (populate_loop os pos stop bs) = bs"
proof (cases "pos < stop")
  case True
  consider e where "pwrite os pos (min (page_size os) (stop - pos)) = Inl e"
    | "pwrite os pos (min (page_size os) (stop - pos)) = Inr 0"
    using assms True by (metis not0_implies_Suc sum.exhaust)
  then show ?thesis using True by cases (subst populate_loop.simps, simp)+
qed (subst populate_loop.simps, simp)

lemma populate_loop_keeps:
  "k \<le> pos \<Longrightarrow> pos \<le> length bs \<Longrightarrow>
   take k (snd (populate_loop os pos stop bs)) = take k bs \<and> length bs \<le> length (snd (populate_loop os pos stop bs))"
proof (induction os pos stop bs rule: populate_loop.induct)
  case (1 os pos stop bs)
  show ?case
  proof (cases "pos < stop \<and> (\<exists>n. pwrite os pos (min (page_size os) (stop - pos)) = Inr (Suc n))")
    case True
    then obtain n where n: "pos < stop" "pwrite os pos (min (page_size os) (stop - pos)) = Inr (Suc n)" by blast
    show ?thesis
      using 1(1) [OF n] 1(2,3) populate_loop_step [OF n, of bs] by (simp add: length_write_zeros write_zeros_below)
  next
    case False
    then show ?thesis by (simp add: populate_loop_stop)
  qed
qed

lemma populate_pages_keeps:
  assumes "populate_pages os offset len bs = (r, bs')" "offset \<le> length bs"
  shows "take offset bs' = take offset bs" "length bs \<le> length bs'"
proof -
  have "populate_loop os offset (offset + len) bs = (r, bs') \<or> bs' = bs \<or> (\<exists>n. bs' = bs @ replicate n 0)"
    using assms(1) by (auto simp: populate_pages_def split: option.splits if_splits)
  then show "take offset bs' = take offset bs" "length bs \<le> length bs'"
    using populate_loop_keeps [of offset offset bs os "offset + len"] assms(2) by auto
qed

subsection \<open>The region past the pool\<close>

definition truncate_file :: "pool_os \<Rightarrow> nat \<Rightarrow> bytes \<Rightarrow> unit res \<times> bytes" where
  "truncate_file os n bs =
     (case truncate_error os n of Some e \<Rightarrow> (Inl (OSError e), bs) | None \<Rightarrow> (Inr (), ftruncate n bs))"

text \<open>The \<open>try\<close> block of \<open>snapshot_region\<close>: reserve the pages, map the region and run \<open>body\<close> on it.\<close>

definition region_block ::
  "pool_os \<Rightarrow> nat \<Rightarrow> nat \<Rightarrow> (bytes \<Rightarrow> unit res \<times> bytes) \<Rightarrow> bytes \<Rightarrow> unit res \<times> bytes" where
  "region_block os offset sz body bs =
     (case populate_pages os offset sz bs of
        (Inl e, bs) \<Rightarrow> (Inl e, bs)
      | (Inr _, bs) \<Rightarrow>
          (case map_error os offset sz of
             Some e \<Rightarrow> (Inl (OSError e), bs)
           | None \<Rightarrow> (case body (slice offset sz bs) of (r, region) \<Rightarrow> (r, slice_set offset region bs))))"

text \<open>
  \<open>snapshot_region\<close> is a context manager: \<open>body\<close> is the block that runs on the mapped region, and what it
  leaves there is what the file holds.
\<close>

definition snapshot_region ::
  "pool_os \<Rightarrow> KVCRPoolSpec \<Rightarrow> nat \<Rightarrow> (bytes \<Rightarrow> unit res \<times> bytes) \<Rightarrow> bytes \<Rightarrow> unit res \<times> bytes" where
  "snapshot_region os spec sz body bs =
     (let offset = region_offset os (mapping_bytes spec);
          sz = memmap_align os sz
      in case truncate_file os (offset + sz) bs of
        (Inl e, bs) \<Rightarrow> (Inl e, bs)
      | (Inr _, bs) \<Rightarrow>
          (case region_block os offset sz body bs of
             (Inr _, bs) \<Rightarrow> (Inr (), bs)
           | (Inl e, bs) \<Rightarrow> (Inl e, snd (truncate_file os offset bs))))"

definition mapped_snapshot :: "pool_os \<Rightarrow> KVCRPoolSpec \<Rightarrow> bytes \<Rightarrow> bytes option res" where
  "mapped_snapshot os spec bs =
     (let offset = region_offset os (mapping_bytes spec) in
      if length bs \<le> offset then Inr None
      else case map_error os offset (length bs - offset) of
        Some e \<Rightarrow> Inl (OSError e)
      | None \<Rightarrow> Inr (Some (drop offset bs)))"

definition release_snapshot_region :: "pool_os \<Rightarrow> KVCRPoolSpec \<Rightarrow> bytes \<Rightarrow> unit res \<times> bytes" where
  "release_snapshot_region os spec bs = truncate_file os (region_offset os (mapping_bytes spec)) bs"

subsection \<open>Attaching\<close>

definition POOL_MODE :: nat where "POOL_MODE = 384"

definition CONTENTION_ERRNOS :: "string set" where
  "CONTENTION_ERRNOS = {''EWOULDBLOCK'', ''EAGAIN'', ''EACCES''}"

text \<open>\<open>flock\<close> is the error of the non-blocking lock call, if it fails.\<close>

definition try_lock_pool :: "string option \<Rightarrow> bool res" where
  "try_lock_pool flock =
     (case flock of None \<Rightarrow> Inr True | Some e \<Rightarrow> if e \<in> CONTENTION_ERRNOS then Inr False else Inl (OSError e))"

record file_stat =
  st_regular :: bool
  st_mode :: nat
  st_dev :: nat
  st_ino :: nat
  st_size :: nat

record attachment =
  att_spec :: KVCRPoolSpec
  att_mapped :: bool
  att_fd_open :: bool

text \<open>The attachment or the error, and whether the descriptor that was passed in is still open.\<close>

definition attach_fd :: "string option \<Rightarrow> file_stat \<Rightarrow> string option \<Rightarrow> KVCRPoolSpec \<Rightarrow> attachment res \<times> bool" where
  "attach_fd flock st map_fails spec =
     (let r = bindR (try_lock_pool flock) (\<lambda>locked.
        if \<not> locked then Inl (RuntimeError ''KVCR pool is exclusively locked by another process'')
        else if \<not> st_regular st then Inl (ValueError ''KVCR pool is not a regular file'')
        else if st_mode st \<noteq> POOL_MODE then Inl (PermissionError ''KVCR pool must have mode 0600'')
        else if (st_dev st, st_ino st) \<noteq> (device spec, inode spec)
        then Inl (ValueError ''KVCR pool identity does not match the grant'')
        else if st_size st < mapping_bytes spec
        then Inl (ValueError ''KVCR pool is smaller than the grant describes'')
        else case map_fails of
          Some e \<Rightarrow> Inl (OSError e)
        | None \<Rightarrow> Inr \<lparr>att_spec = spec, att_mapped = True, att_fd_open = True\<rparr>)
      in (r, is_ok r))"

text \<open>Closing fails while an exported view of the mapping is alive, and then changes nothing.\<close>

definition attachment_close :: "bool \<Rightarrow> attachment \<Rightarrow> unit res \<times> attachment" where
  "attachment_close exported a =
     (if att_mapped a \<and> exported then (Inl (BufferError ''cannot close exported pointers exist''), a)
      else (Inr (), a\<lparr>att_mapped := False, att_fd_open := False\<rparr>))"

subsection \<open>The pool itself is left alone\<close>

lemma truncate_file_below:
  "truncate_file os n bs = (r, bs') \<Longrightarrow> k \<le> n \<Longrightarrow> k \<le> length bs \<Longrightarrow> take k bs' = take k bs"
  by (auto simp: truncate_file_def take_ftruncate split: option.splits)

lemma truncate_file_length:
  "truncate_file os n bs = (r, bs') \<Longrightarrow> length bs' = (if r = Inr () then n else length bs)"
  by (auto simp: truncate_file_def split: option.splits)

lemma take_take_eq:
  assumes "take n xs = take n ys" "k \<le> n"
  shows "take k xs = take k ys"
proof -
  have "take k (take n xs) = take k (take n ys)" using assms(1) by simp
  with assms(2) show ?thesis by (simp add: min_def)
qed

lemma slice_set_below: "k \<le> start \<Longrightarrow> start \<le> length xs \<Longrightarrow> take k (slice_set start d xs) = take k xs"
  by (simp add: slice_set_def min_def)

lemma region_block_below:
  assumes "region_block os offset sz body bs = (r, bs')" "offset \<le> length bs"
  shows "take offset bs' = take offset bs" "offset \<le> length bs'"
proof -
  obtain q c where c: "populate_pages os offset sz bs = (q, c)" by (cases "populate_pages os offset sz bs")
  have l: "offset \<le> length c" using populate_pages_keeps(2) [OF c assms(2)] assms(2) by simp
  have t: "take offset c = take offset bs" using populate_pages_keeps(1) [OF c assms(2)] .
  have "take offset bs' = take offset c \<and> offset \<le> length bs'"
    using assms(1) l by (auto simp: region_block_def c slice_set_below slice_set_def split: sum.splits option.splits prod.splits)
  with t show "take offset bs' = take offset bs" "offset \<le> length bs'" by simp_all
qed

lemma snapshot_region_below:
  assumes "snapshot_region os spec sz body bs = (r, bs')" "k \<le> region_offset os (mapping_bytes spec)" "k \<le> length bs"
  shows "take k bs' = take k bs \<and> k \<le> length bs'"
proof -
  let ?o = "region_offset os (mapping_bytes spec)" and ?n = "memmap_align os sz"
  obtain q c where c: "truncate_file os (?o + ?n) bs = (q, c)" by (cases "truncate_file os (?o + ?n) bs")
  note below = truncate_file_below [OF c _ assms(3)] and len = truncate_file_length [OF c]
  show ?thesis
  proof (cases q)
    case (Inl e)
    then show ?thesis using assms(1,2,3) below len by (auto simp: snapshot_region_def c)
  next
    case (Inr u)
    obtain p d where d: "region_block os ?o ?n body c = (p, d)" by (cases "region_block os ?o ?n body c")
    have "?o \<le> length c" using len Inr by simp
    note rb = region_block_below [OF d this]
    have d_bs: "take k d = take k bs"
      using take_take_eq [OF rb(1) assms(2)] below assms(2) by simp
    obtain p' d' where d': "truncate_file os ?o d = (p', d')" by (cases "truncate_file os ?o d")
    have "take k d' = take k d" "k \<le> length d'"
      using truncate_file_below [OF d' assms(2)] truncate_file_length [OF d'] rb(2) assms(2) by (auto split: if_splits)
    then show ?thesis
      using assms(1,2) Inr d_bs rb(2) by (auto simp: snapshot_region_def c d d' split: sum.splits)
  qed
qed

end
