(* ===== verification/KVCR_Types.thy ===== *)
theory KVCR_Types
  imports KVCR_Prelude
begin

text \<open>
  The value types of \<open>types.py\<close> and the memory references of \<open>runtime/progress.py\<close>, with the source's
  names. Python ints are \<open>int\<close>, clock readings and scores (finite floats) the rationals they denote, and
  a block key the bytes it is.
\<close>

type_synonym key = bytes
type_synonym time = rat
type_synonym score = rat

datatype CacheTier = FW_G1 | FW_G2 | LOCAL_G2 | REMOTE_G2 | G3

datatype PlacementAction = KEEP | DROP | COPY_TO | MOVE_TO

type_synonym PlacementDecision = "PlacementAction \<times> CacheTier option"

record BlockMeta =
  block_key :: key
  size_bytes :: int
  access_count :: int
  last_access :: "time option"
  resident_tiers :: "CacheTier set"
  position :: int

record PlacementFailure =
  attempted :: PlacementDecision
  failure_source :: CacheTier
  reason :: string
  failure_count :: int

record RegionDescriptor =
  mem_type :: string
  device_Id :: int
  addr :: int
  stride :: int
  count :: int
  elem_size :: int
  region_label :: string

record MemoryRef =
  mref_end_point_name :: string
  mref_label :: string
  mref_element_index :: int

record TransferRef =
  end_point_name :: string
  element_index :: int
  label :: string
  framework :: bool

datatype OpEntryStatus = SUCCESS | DROPPED | FAILED

record OpEntryResult =
  status :: OpEntryStatus
  descriptors :: "MemoryRef list option"
  release_handle :: "int option"

definition success :: "OpEntryResult \<Rightarrow> bool" where
  "success r = (status r = SUCCESS)"

definition SUCCESS_RESULT :: OpEntryResult where
  "SUCCESS_RESULT = \<lparr>status = SUCCESS, descriptors = None, release_handle = None\<rparr>"

definition DROPPED_RESULT :: OpEntryResult where
  "DROPPED_RESULT = \<lparr>status = DROPPED, descriptors = None, release_handle = None\<rparr>"

definition FAILED_RESULT :: OpEntryResult where
  "FAILED_RESULT = \<lparr>status = FAILED, descriptors = None, release_handle = None\<rparr>"

datatype QueryStatus = HIT | FETCHING | FETCHABLE | MISS

record InventoryEvent =
  event_keys :: "key list"
  event_tier :: CacheTier
  removed :: bool

text \<open>Operation ids: the kind of the operation and its handle, or the key a move to disk is for.\<close>

datatype op_arg = Handle int | OfKey key

type_synonym op_id = "string \<times> op_arg"

fun op_handle :: "op_id \<Rightarrow> int" where
  "op_handle (kind, Handle h) = h"
| "op_handle (kind, OfKey k) = 0"

end
