(* ===== verification/KVCR_Layout.thy ===== *)
theory KVCR_Layout
  imports KVCR_Types
begin

text \<open>
  Key layouts and memory registrations: the pool geometry of \<open>config.py\<close>, the matching of requested
  labels against a layout (\<open>_layout_indices\<close> of \<open>backends/local_dram_pools.py\<close>), the validation that
  \<open>runtime/core.py\<close> does of layouts, regions and descriptors, and the resolution of a reference to
  addresses (\<open>_resolve_region\<close> of \<open>runtime/progress.py\<close>).

  The checks of the source for values of another Python type (\<open>isinstance\<close>, \<open>type(...) is not int\<close>) have
  no counterpart: the model's types are those the checks establish.
\<close>

subsection \<open>Pool layouts\<close>

type_synonym pool_layouts = "(string \<times> int) list"

fun validate_pool_entries :: "pool_layouts \<Rightarrow> unit res" where
  "validate_pool_entries [] = Inr ()"
| "validate_pool_entries ((pool_name, block_size) # rest) =
     (if CHR '':'' \<in> set pool_name then Inl (ValueError ''pool_layouts pool names cannot contain a colon'')
      else if block_size \<le> 0 then Inl (ValueError ''pool_layouts block size must be a positive integer'')
      else validate_pool_entries rest)"

definition validate_pool_layouts :: "pool_layouts \<Rightarrow> unit res" where
  "validate_pool_layouts layouts =
     (if layouts = [] then Inl (ValueError ''pool_layouts must contain at least one pool'')
      else bindR (validate_pool_entries layouts) (\<lambda>_.
        let names = map fst layouts in
        if length names \<noteq> card (set names) then Inl (ValueError ''pool_layouts pool names must be unique'')
        else if length names > 1 \<and> [] \<in> set names
        then Inl (ValueError ''pool_layouts cannot use an empty name with multiple pools'')
        else Inr ()))"

lemma validate_pool_entries_ok:
  "validate_pool_entries l = Inr () \<longleftrightarrow> (\<forall>(n, b) \<in> set l. CHR '':'' \<notin> set n \<and> 0 < b)"
  by (induction l rule: validate_pool_entries.induct) auto

text \<open>The dict \<open>_block_sizes\<close> of a core: the configured block size of each pool.\<close>

definition layouts_ok :: "pool_layouts \<Rightarrow> bool" where
  "layouts_ok l = (l \<noteq> [] \<and> dict_wf l \<and> (\<forall>(n, b) \<in> set l. CHR '':'' \<notin> set n \<and> 0 < b) \<and>
     (length l > 1 \<longrightarrow> [] \<notin> fst ` set l))"

lemma validate_pool_layouts_iff: "validate_pool_layouts l = Inr () \<longleftrightarrow> layouts_ok l"
proof -
  have "length l = card (fst ` set l) \<longleftrightarrow> distinct (map fst l)"
    by (metis card_distinct distinct_card length_map set_map)
  then show ?thesis
    using validate_pool_entries_ok [of l]
    by (cases "validate_pool_entries l")
      (auto simp: validate_pool_layouts_def layouts_ok_def dict_wf_def Let_def)
qed

lemma layouts_ok_size: "layouts_ok l \<Longrightarrow> map_of l n = Some b \<Longrightarrow> 0 < b \<and> CHR '':'' \<notin> set n"
  by (auto simp: layouts_ok_def dest!: map_of_SomeD)

subsection \<open>Matching requested labels\<close>

text \<open>\<open>prepare_label_index\<close>: the position of each label that occurs once, \<open>None\<close> for one that repeats.\<close>

fun label_index_from :: "nat \<Rightarrow> string list \<Rightarrow> (string, nat option) dict \<Rightarrow> (string, nat option) dict" where
  "label_index_from i [] d = d"
| "label_index_from i (l # ls) d =
     label_index_from (Suc i) ls (AList.update l (if map_of d l \<noteq> None then None else Some i) d)"

definition prepare_label_index :: "string list \<Rightarrow> (string, nat option) dict" where
  "prepare_label_index layout = label_index_from 0 layout []"

text \<open>\<open>layout.index(label)\<close>.\<close>

fun index_of :: "string \<Rightarrow> string list \<Rightarrow> nat" where
  "index_of l [] = 0"
| "index_of l (x # xs) = (if x = l then 0 else Suc (index_of l xs))"

definition get_index :: "(string, nat option) dict \<Rightarrow> string \<Rightarrow> nat option" where
  "get_index d l = (case map_of d l of None \<Rightarrow> None | Some r \<Rightarrow> r)"

fun all_some :: "'a option list \<Rightarrow> 'a list option" where
  "all_some [] = Some []"
| "all_some (None # xs) = None"
| "all_some (Some x # xs) = map_option ((#) x) (all_some xs)"

definition layout_indices ::
  "string list \<Rightarrow> string list \<Rightarrow> (string, nat option) dict option \<Rightarrow> nat list option" where
  "layout_indices layout requested indices_by_label =
     (if layout = requested then Some [0..<length layout]
      else if requested = [] then None
      else if card (set requested) \<noteq> length requested then
        let indices = filter (\<lambda>i. layout ! i \<in> set requested) [0..<length layout] in
        (if map ((!) layout) indices = requested then Some indices else None)
      else case indices_by_label of
        Some d \<Rightarrow> all_some (map (get_index d) requested)
      | None \<Rightarrow>
          if list_ex (\<lambda>l. count_list layout l \<noteq> 1) requested then None
          else Some (map (\<lambda>l. index_of l layout) requested))"

lemma all_some_map: "all_some (map f xs) = (if \<forall>x \<in> set xs. f x \<noteq> None then Some (map (the \<circ> f) xs) else None)"
proof (induction xs)
  case (Cons x xs)
  then show ?case by (cases "f x") auto
qed simp

lemma index_of_nth: "l \<in> set xs \<Longrightarrow> index_of l xs < length xs \<and> xs ! index_of l xs = l"
  by (induction xs) auto

lemma index_of_inj: "l \<in> set xs \<Longrightarrow> l' \<in> set xs \<Longrightarrow> index_of l xs = index_of l' xs \<Longrightarrow> l = l'"
  by (metis index_of_nth)

text \<open>What the index built so far answers.\<close>

lemma label_index_from_get:
  "get_index (label_index_from i ls d) l =
     (case map_of d l of
        None \<Rightarrow> if count_list ls l = 1 then Some (i + index_of l ls) else None
      | Some r \<Rightarrow> if count_list ls l = 0 then r else None)"
proof (induction ls arbitrary: i d)
  case Nil
  show ?case by (simp add: get_index_def split: option.split)
next
  case (Cons x xs)
  show ?case
    by (cases "x = l") (auto simp: Cons count_list_0_iff split: option.splits)
qed

lemma prepare_label_index_get:
  "get_index (prepare_label_index layout) l =
     (if count_list layout l = 1 then Some (index_of l layout) else None)"
  by (simp add: prepare_label_index_def label_index_from_get)

text \<open>The shortcut over the prepared index gives what a scan of the layout gives.\<close>

lemma layout_indices_index:
  "layout_indices layout requested (Some (prepare_label_index layout)) = layout_indices layout requested None"
  by (auto simp: layout_indices_def all_some_map prepare_label_index_get list_ex_iff Let_def)

lemma layout_indices_sound:
  assumes "layout_indices layout requested None = Some indices"
  shows "length indices = length requested" "map ((!) layout) indices = requested"
    "distinct indices" "\<forall>i \<in> set indices. i < length layout"
proof -
  have scan: "map ((!) layout) (map (\<lambda>l. index_of l layout) requested) = requested \<and>
      distinct (map (\<lambda>l. index_of l layout) requested) \<and> (\<forall>l \<in> set requested. index_of l layout < length layout)"
    if "distinct requested" "set requested \<subseteq> set layout"
  proof -
    have "inj_on (\<lambda>l. index_of l layout) (set requested)"
      using that(2) by (intro inj_onI) (blast intro: index_of_inj)
    with that show ?thesis using index_of_nth [of _ layout] by (auto simp: distinct_map intro!: map_idI)
  qed
  have once: "set requested \<subseteq> set layout" if "\<not> list_ex (\<lambda>l. count_list layout l \<noteq> 1) requested"
  proof
    fix x assume "x \<in> set requested"
    with that have "count_list layout x = 1" by (auto simp: list_ex_iff)
    then show "x \<in> set layout" using count_notin [of x layout] by fastforce
  qed
  consider "layout = requested" "indices = [0..<length layout]"
    | "indices = filter (\<lambda>i. layout ! i \<in> set requested) [0..<length layout]" "map ((!) layout) indices = requested"
    | "distinct requested" "\<not> list_ex (\<lambda>l. count_list layout l \<noteq> 1) requested"
      "indices = map (\<lambda>l. index_of l layout) requested"
    using assms by (auto simp: layout_indices_def Let_def intro: card_distinct split: if_split_asm)
  then have "map ((!) layout) indices = requested \<and> distinct indices \<and> (\<forall>i \<in> set indices. i < length layout)"
  proof cases
    case 1
    then show ?thesis by (simp add: map_nth)
  next
    case 2
    have "distinct indices" "\<forall>i \<in> set indices. i < length layout" unfolding 2(1) by auto
    with 2(2) show ?thesis by blast
  next
    case 3
    with scan once show ?thesis by auto
  qed
  then show "length indices = length requested" "map ((!) layout) indices = requested"
    "distinct indices" "\<forall>i \<in> set indices. i < length layout"
    by (auto dest: arg_cong [where f = length])
qed



subsection \<open>Expected layouts\<close>

definition reserved_part :: "string \<Rightarrow> bool" where
  "reserved_part part = (part = [] \<or> part = ''*'')"

fun validate_layout_labels :: "pool_layouts \<Rightarrow> string list \<Rightarrow> string set \<Rightarrow> unit res" where
  "validate_layout_labels sizes [] labels = Inr ()"
| "validate_layout_labels sizes (l # ls) labels =
     (case partition_label l of (pool, separator, part) \<Rightarrow>
        if map_of sizes pool = None \<or> (separator \<and> reserved_part part)
        then Inl (ValueError ''expected layout must include configured local pools'')
        else if separator then
          (if l \<in> labels then Inl (ValueError ''block part labels must be unique'')
           else validate_layout_labels sizes ls (insert l labels))
        else validate_layout_labels sizes ls labels)"

definition validate_expected_layout :: "pool_layouts \<Rightarrow> string list option \<Rightarrow> string list option res" where
  "validate_expected_layout sizes layout =
     (case layout of
        None \<Rightarrow> Inr None
      | Some l \<Rightarrow>
          if l = [] then Inl (ValueError ''expected layout must include configured local pools'')
          else bindR (validate_layout_labels sizes l {}) (\<lambda>_. Inr (Some l)))"

definition is_part :: "string \<Rightarrow> bool" where
  "is_part l = fst (snd (partition_label l))"

definition label_ok :: "pool_layouts \<Rightarrow> string \<Rightarrow> bool" where
  "label_ok sizes l = (map_of sizes (label_pool l) \<noteq> None \<and>
     (is_part l \<longrightarrow> \<not> reserved_part (snd (snd (partition_label l)))))"

lemma validate_layout_labels_ok:
  "validate_layout_labels sizes ls labels = Inr () \<longleftrightarrow>
     list_all (label_ok sizes) ls \<and> distinct (filter is_part ls) \<and> set (filter is_part ls) \<inter> labels = {}"
proof (induction ls arbitrary: labels)
  case (Cons l ls)
  show ?case
    by (cases "partition_label l") (auto simp: Cons label_ok_def is_part_def label_pool_def)
qed simp

text \<open>
  C38. \<open>_validate_expected_layout\<close> accepts a layout exactly when it is nonempty, every label names a
  configured pool and no reserved part, and no part label repeats; bare pool names may repeat.
\<close>

theorem validate_expected_layout_iff:
  "validate_expected_layout sizes (Some l) = Inr r \<longleftrightarrow>
     r = Some l \<and> l \<noteq> [] \<and> list_all (label_ok sizes) l \<and> distinct (filter is_part l)"
  using validate_layout_labels_ok [of sizes l "{}"]
  by (cases "validate_layout_labels sizes l {}") (auto simp: validate_expected_layout_def)

subsection \<open>Registered regions\<close>

definition MAX_U64 :: int where "MAX_U64 = 2 ^ 64 - 1"

definition in_range :: "int \<Rightarrow> int \<Rightarrow> bool" where
  "in_range minimum v = (minimum \<le> v \<and> v \<le> MAX_U64)"

definition elem_step :: "RegionDescriptor \<Rightarrow> int" where
  "elem_step r = (if stride r \<noteq> 0 then stride r else elem_size r)"

definition extent :: "RegionDescriptor \<Rightarrow> int" where
  "extent r = elem_size r + (count r - 1) * elem_step r"

definition validate_region :: "RegionDescriptor \<Rightarrow> unit res" where
  "validate_region r =
     (if \<not> in_range 0 (addr r) then Inl (ValueError ''registration addr must be in uint64 range'')
      else if \<not> in_range 1 (elem_size r) then Inl (ValueError ''registration size must be in uint64 range'')
      else if \<not> in_range 0 (device_Id r) then Inl (ValueError ''registration device_Id must be in uint64 range'')
      else if \<not> in_range 0 (stride r) then Inl (ValueError ''registration stride must be in uint64 range'')
      else if \<not> in_range 1 (count r) then Inl (ValueError ''registration count must be in uint64 range'')
      else if stride r \<noteq> 0 \<and> stride r < elem_size r
      then Inl (ValueError ''registration stride must be zero or at least size'')
      else if addr r + extent r > MAX_U64
      then Inl (ValueError ''registration extent exceeds uint64 address range'')
      else if mem_type r = [] then Inl (ValueError ''registration memory type must be a non-empty string'')
      else (case partition_label (region_label r) of (_, separator, part) \<Rightarrow>
        if separator \<and> part = []
        then Inl (ValueError ''registration name must be a pool or pool:part string'')
        else Inr ()))"

fun validate_regions_from :: "RegionDescriptor list \<Rightarrow> (string, int) dict \<Rightarrow> unit res" where
  "validate_regions_from [] counts = Inr ()"
| "validate_regions_from (r # rs) counts =
     bindR (validate_region r) (\<lambda>_.
       let n = (case map_of counts (mem_type r) of None \<Rightarrow> 0 | Some c \<Rightarrow> c) + count r in
       if n > 2 ^ 31 then Inl (ValueError ''registration indices exceed int32 range'')
       else validate_regions_from rs (AList.update (mem_type r) n counts))"

definition validate_memory_regions :: "RegionDescriptor list \<Rightarrow> unit res" where
  "validate_memory_regions regions = validate_regions_from regions []"

lemma validate_region_ok:
  "validate_region r = Inr () \<Longrightarrow> 0 \<le> addr r \<and> 1 \<le> elem_size r \<and> 1 \<le> count r \<and> elem_size r \<le> elem_step r \<and>
     addr r + extent r \<le> MAX_U64"
  by (auto simp: validate_region_def in_range_def elem_step_def split: if_splits)

lemma validate_regions_from_ok: "validate_regions_from rs counts = Inr () \<Longrightarrow> r \<in> set rs \<Longrightarrow> validate_region r = Inr ()"
  by (induction rs counts rule: validate_regions_from.induct) (auto simp: bindR_eq_Inr Let_def split: if_splits)

subsection \<open>Resolving a reference\<close>

type_synonym regions = "(string, RegionDescriptor) dict"

definition resolve_region :: "TransferRef \<Rightarrow> regions \<times> regions \<Rightarrow> string \<Rightarrow> RegionDescriptor res" where
  "resolve_region ref rgs agent =
     (if end_point_name ref \<noteq> agent then Inl (ValueError ''memory reference has the wrong owning agent'')
      else case rgs of (fw, kvcr) \<Rightarrow>
        let region =
          (if framework ref then
             (case map_of fw (label ref) of
                Some r \<Rightarrow> Some r
              | None \<Rightarrow>
                  if CHR '':'' \<in> set (label ref) then map_of fw (label_pool (label ref) @ '':*'') else None)
           else map_of kvcr (label_pool (label ref)))
        in case region of
          None \<Rightarrow> Inl (ValueError ''no registration for label'')
        | Some r \<Rightarrow>
            if \<not> (0 \<le> element_index ref \<and> element_index ref < count r)
            then Inl (ValueError ''memory reference element_index is outside its region'')
            else Inr r)"

record MemDescriptor =
  md_mem_type :: string
  md_addr :: int
  md_size :: int
  md_device_Id :: int

definition address_descriptor :: "regions \<times> regions \<Rightarrow> string \<Rightarrow> TransferRef \<Rightarrow> MemDescriptor res" where
  "address_descriptor rgs agent ref =
     bindR (resolve_region ref rgs agent) (\<lambda>r.
       Inr \<lparr>md_mem_type = mem_type r, md_addr = addr r + element_index ref * elem_step r,
            md_size = elem_size r, md_device_Id = device_Id r\<rparr>)"

definition descriptor_bytes :: "pool_layouts \<Rightarrow> TransferRef list \<Rightarrow> int res" where
  "descriptor_bytes sizes refs =
     foldr (\<lambda>ref acc. bindR acc (\<lambda>n.
         case map_of sizes (label_pool (label ref)) of
           None \<Rightarrow> Inl (KeyError (label_pool (label ref)))
         | Some b \<Rightarrow> Inr (b + n))) refs (Inr 0)"

fun validate_descriptors_from ::
  "pool_layouts \<Rightarrow> regions \<times> regions \<Rightarrow> string \<Rightarrow> TransferRef list \<Rightarrow> string set \<Rightarrow> unit res" where
  "validate_descriptors_from sizes rgs agent [] labels = Inr ()"
| "validate_descriptors_from sizes rgs agent (ref # refs) labels =
     bindR (resolve_region ref rgs agent) (\<lambda>region.
       case partition_label (label ref) of (pool, separator, part) \<Rightarrow>
         if map_of sizes pool = None \<or> (separator \<and> reserved_part part)
         then Inl (ValueError ''block descriptors must use configured pools'')
         else if Some (elem_size region) \<noteq> map_of sizes pool
         then Inl (ValueError ''block descriptor has the wrong byte count'')
         else if separator then
           (if label ref \<in> labels then Inl (ValueError ''block part labels must be unique'')
            else validate_descriptors_from sizes rgs agent refs (insert (label ref) labels))
         else validate_descriptors_from sizes rgs agent refs labels)"

definition validate_descriptors ::
  "pool_layouts \<Rightarrow> regions \<times> regions \<Rightarrow> string \<Rightarrow> TransferRef list \<Rightarrow> unit res" where
  "validate_descriptors sizes rgs agent refs =
     (if refs = [] then Inl (ValueError ''each block requires at least one _TransferRef'')
      else validate_descriptors_from sizes rgs agent refs {})"

definition transfer_ref :: "MemoryRef \<Rightarrow> TransferRef" where
  "transfer_ref r = \<lparr>end_point_name = mref_end_point_name r, element_index = mref_element_index r,
     label = mref_label r, framework = True\<rparr>"

definition normalize_descriptors ::
  "pool_layouts \<Rightarrow> regions \<times> regions \<Rightarrow> string \<Rightarrow> MemoryRef list \<Rightarrow> TransferRef list res" where
  "normalize_descriptors sizes rgs agent refs =
     (if refs = [] then Inl (ValueError ''each block requires at least one MemoryRef'')
      else let normalized = map transfer_ref refs in
        bindR (validate_descriptors sizes rgs agent normalized) (\<lambda>_. Inr normalized))"

definition registered :: "regions \<times> regions \<Rightarrow> RegionDescriptor set" where
  "registered rgs = snd ` set (fst rgs) \<union> snd ` set (snd rgs)"

lemma resolve_region_registered:
  assumes "resolve_region ref rgs agent = Inr r"
  shows "r \<in> registered rgs" "0 \<le> element_index ref" "element_index ref < count r"
  using assms
  by (cases rgs, force simp: resolve_region_def registered_def Let_def dest!: map_of_SomeD split: if_splits option.splits)+

lemma element_bounds:
  assumes r: "validate_region r = Inr ()" and i: "0 \<le> i" "i < count r"
  shows "addr r \<le> addr r + i * elem_step r"
    "addr r + i * elem_step r + elem_size r \<le> addr r + extent r"
proof -
  have g: "0 \<le> elem_step r" using validate_region_ok [OF r] by linarith
  show "addr r \<le> addr r + i * elem_step r" using g i by simp
  have "i * elem_step r \<le> (count r - 1) * elem_step r" using g i by (intro mult_right_mono) auto
  then show "addr r + i * elem_step r + elem_size r \<le> addr r + extent r" by (simp add: extent_def)
qed

text \<open>
  C36. Whatever reference a transfer names, the addresses it resolves to lie inside a registered region
  and inside the 64-bit address space.
\<close>

theorem address_descriptor_in_bounds:
  assumes "validate_memory_regions regs = Inr ()" and "registered rgs \<subseteq> set regs"
    and "address_descriptor rgs agent ref = Inr d"
  shows "\<exists>r \<in> set regs. addr r \<le> md_addr d \<and> md_addr d + md_size d \<le> addr r + extent r \<and>
    md_addr d + md_size d \<le> MAX_U64 \<and> 0 \<le> md_addr d \<and> 0 < md_size d"
proof -
  obtain r where r: "resolve_region ref rgs agent = Inr r"
    and d: "md_addr d = addr r + element_index ref * elem_step r" "md_size d = elem_size r"
    using assms(3) by (auto simp: address_descriptor_def bindR_eq_Inr)
  note res = resolve_region_registered [OF r]
  have mem: "r \<in> set regs" using res(1) assms(2) by auto
  have ok: "validate_region r = Inr ()"
    using validate_regions_from_ok mem assms(1) by (auto simp: validate_memory_regions_def)
  show ?thesis
    using mem d validate_region_ok [OF ok] element_bounds [OF ok res(2,3)] by (intro bexI [of _ r]) auto
qed

theorem address_descriptor_in_bounds_witness:
  "address_descriptor ([(''p'', \<lparr>mem_type = ''DRAM'', device_Id = 0, addr = 4096, stride = 256, count = 4,
       elem_size = 128, region_label = ''p''\<rparr>)], []) ''a''
     \<lparr>end_point_name = ''a'', element_index = 3, label = ''p'', framework = True\<rparr> =
     Inr \<lparr>md_mem_type = ''DRAM'', md_addr = 4864, md_size = 128, md_device_Id = 0\<rparr> \<and>
   4864 + 128 \<le> MAX_U64"
proof -
  let ?r = "\<lparr>mem_type = ''DRAM'', device_Id = 0, addr = 4096, stride = 256, count = 4,
       elem_size = 128, region_label = ''p''\<rparr>"
  let ?d = "\<lparr>md_mem_type = ''DRAM'', md_addr = 4864, md_size = 128, md_device_Id = 0\<rparr>"
  let ?f = "\<lparr>end_point_name = ''a'', element_index = 3, label = ''p'', framework = True\<rparr>"
  have v: "validate_memory_regions [?r] = Inr ()"
    by (simp add: validate_memory_regions_def validate_region_def in_range_def MAX_U64_def extent_def
        elem_step_def partition_label_def)
  have a: "address_descriptor ([(''p'', ?r)], []) ''a'' ?f = Inr ?d"
    by (simp add: address_descriptor_def resolve_region_def elem_step_def)
  have "registered ([(''p'', ?r)], []) \<subseteq> set [?r]" by (simp add: registered_def)
  from address_descriptor_in_bounds [OF v this a] a show ?thesis by simp
qed

text \<open>C37. Two different elements of one registered region never share a byte.\<close>

theorem region_elements_disjoint:
  assumes "validate_region r = Inr ()" and "0 \<le> i" "i < j"
  shows "addr r + i * elem_step r + elem_size r \<le> addr r + j * elem_step r"
proof -
  have g: "elem_size r \<le> elem_step r" "0 \<le> elem_step r" using validate_region_ok [OF assms(1)] by linarith+
  have "(i + 1) * elem_step r \<le> j * elem_step r" using assms g by (intro mult_right_mono) auto
  then show ?thesis using g by (simp add: algebra_simps)
qed

theorem region_elements_disjoint_witness:
  "4096 + 1 * 256 + (128 :: int) \<le> 4096 + 2 * 256 \<and>
   validate_region \<lparr>mem_type = ''DRAM'', device_Id = 0, addr = 4096, stride = 256, count = 4,
       elem_size = 128, region_label = ''p''\<rparr> = Inr ()"
proof -
  let ?r = "\<lparr>mem_type = ''DRAM'', device_Id = 0, addr = 4096, stride = 256, count = 4,
       elem_size = 128, region_label = ''p''\<rparr>"
  have v: "validate_region ?r = Inr ()"
    by (simp add: validate_region_def in_range_def MAX_U64_def extent_def elem_step_def partition_label_def)
  from region_elements_disjoint [OF v, of 1 2] v show ?thesis by (simp add: elem_step_def)
qed

end
