(* ===== verification/KVCR_Monad.thy ===== *)
theory KVCR_Monad
  imports KVCR_Prelude
begin

text \<open>
  Stateful operations that may raise, and the rules to reason about them. A raised exception keeps the
  state it was raised in, as in Python, so a triple has a postcondition for the normal end and one for
  the exceptional end. The rules for composite operations are in the collection \<open>sx_rules\<close>.
\<close>

type_synonym ('s, 'a) sx = "'s \<Rightarrow> 'a res \<times> 's"

definition retS :: "'a \<Rightarrow> ('s, 'a) sx" where
  "retS x = (\<lambda>s. (Inr x, s))"

definition raiseS :: "exn \<Rightarrow> ('s, 'a) sx" where
  "raiseS e = (\<lambda>s. (Inl e, s))"

definition bindS :: "('s, 'a) sx \<Rightarrow> ('a \<Rightarrow> ('s, 'b) sx) \<Rightarrow> ('s, 'b) sx" where
  "bindS m f = (\<lambda>s. case m s of (Inl e, s') \<Rightarrow> (Inl e, s') | (Inr x, s') \<Rightarrow> f x s')"

definition thenS :: "('s, 'a) sx \<Rightarrow> ('s, 'b) sx \<Rightarrow> ('s, 'b) sx" where
  "thenS m n = bindS m (\<lambda>_. n)"

definition getS :: "('s \<Rightarrow> 'a) \<Rightarrow> ('s, 'a) sx" where
  "getS f = (\<lambda>s. (Inr (f s), s))"

definition modS :: "('s \<Rightarrow> 's) \<Rightarrow> ('s, unit) sx" where
  "modS f = (\<lambda>s. (Inr (), f s))"

text \<open>A computation that reads the state it starts in.\<close>

definition readS :: "('s \<Rightarrow> ('s, 'a) sx) \<Rightarrow> ('s, 'a) sx" where
  "readS f = (\<lambda>s. f s s)"

definition whenS :: "bool \<Rightarrow> ('s, unit) sx \<Rightarrow> ('s, unit) sx" where
  "whenS b m = (if b then m else retS ())"

text \<open>A loop over a list, with an accumulator.\<close>

fun foldS :: "('a \<Rightarrow> 'b \<Rightarrow> ('s, 'b) sx) \<Rightarrow> 'a list \<Rightarrow> 'b \<Rightarrow> ('s, 'b) sx" where
  "foldS f [] acc = retS acc"
| "foldS f (x # xs) acc = bindS (f x acc) (foldS f xs)"

definition forS :: "'a list \<Rightarrow> ('a \<Rightarrow> ('s, unit) sx) \<Rightarrow> ('s, unit) sx" where
  "forS xs f = foldS (\<lambda>x _. f x) xs ()"

text \<open>\<open>try ... finally\<close>, and \<open>try ... except Exception\<close>; running out of fuel is not an exception of the code.\<close>

definition finallyS :: "('s, 'a) sx \<Rightarrow> ('s \<Rightarrow> 's) \<Rightarrow> ('s, 'a) sx" where
  "finallyS m f = (\<lambda>s. case m s of (x, s') \<Rightarrow> (x, f s'))"

definition catchS :: "('s, 'a) sx \<Rightarrow> (exn \<Rightarrow> ('s, 'a) sx) \<Rightarrow> ('s, 'a) sx" where
  "catchS m h = (\<lambda>s. case m s of
     (Inl e, s') \<Rightarrow> if e = OutOfFuel then (Inl e, s') else h e s'
   | (Inr x, s') \<Rightarrow> (Inr x, s'))"

text \<open>A value of the code's fallible helpers, raised in the current state.\<close>

definition liftR :: "'a res \<Rightarrow> ('s, 'a) sx" where
  "liftR r = (case r of Inl e \<Rightarrow> raiseS e | Inr x \<Rightarrow> retS x)"

subsection \<open>Triples\<close>

definition triple ::
  "('s \<Rightarrow> bool) \<Rightarrow> ('s, 'a) sx \<Rightarrow> ('a \<Rightarrow> 's \<Rightarrow> bool) \<Rightarrow> (exn \<Rightarrow> 's \<Rightarrow> bool) \<Rightarrow> bool" where
  "triple P m Q E \<longleftrightarrow> (\<forall>s. P s \<longrightarrow> (case m s of (Inl e, s') \<Rightarrow> E e s' | (Inr x, s') \<Rightarrow> Q x s'))"

text \<open>An operation that keeps an invariant, however it ends.\<close>

definition keeps :: "('s \<Rightarrow> bool) \<Rightarrow> ('s, 'a) sx \<Rightarrow> bool" where
  "keeps I m = triple I m (\<lambda>_. I) (\<lambda>_. I)"

named_theorems sx_rules "triples of the composite operations"
named_theorems keeps_rules "operations that keep an invariant"

lemma tripleI: "(\<And>s. P s \<Longrightarrow> case m s of (Inl e, s') \<Rightarrow> E e s' | (Inr x, s') \<Rightarrow> Q x s') \<Longrightarrow> triple P m Q E"
  by (simp add: triple_def)

lemma triple_iff:
  "triple P m Q E \<longleftrightarrow>
    (\<forall>s. P s \<longrightarrow> (\<forall>x s'. m s = (Inr x, s') \<longrightarrow> Q x s') \<and> (\<forall>e s'. m s = (Inl e, s') \<longrightarrow> E e s'))"
  by (auto simp: triple_def split: prod.splits sum.splits)

lemma bindS_Inr: "bindS m f s = (Inr y, t) \<longleftrightarrow> (\<exists>x s'. m s = (Inr x, s') \<and> f x s' = (Inr y, t))"
  by (auto simp: bindS_def split: prod.splits sum.splits)

lemma bindS_Inl:
  "bindS m f s = (Inl e, t) \<longleftrightarrow> m s = (Inl e, t) \<or> (\<exists>x s'. m s = (Inr x, s') \<and> f x s' = (Inl e, t))"
  by (auto simp: bindS_def split: prod.splits sum.splits)

lemma triple_Inr: "triple P m Q E \<Longrightarrow> P s \<Longrightarrow> m s = (Inr x, s') \<Longrightarrow> Q x s'"
  by (auto simp: triple_def)

lemma triple_Inl: "triple P m Q E \<Longrightarrow> P s \<Longrightarrow> m s = (Inl e, s') \<Longrightarrow> E e s'"
  by (auto simp: triple_def)

lemma triple_weaken:
  "triple P m Q E \<Longrightarrow> (\<And>s. P' s \<Longrightarrow> P s) \<Longrightarrow> (\<And>x s. Q x s \<Longrightarrow> Q' x s) \<Longrightarrow> (\<And>e s. E e s \<Longrightarrow> E' e s) \<Longrightarrow>
    triple P' m Q' E'"
  unfolding triple_iff by blast

lemma triple_pre: "triple P m Q E \<Longrightarrow> (\<And>s. P' s \<Longrightarrow> P s) \<Longrightarrow> triple P' m Q E"
  by (erule triple_weaken)

lemma triple_ret [sx_rules]: "(\<And>s. P s \<Longrightarrow> Q x s) \<Longrightarrow> triple P (retS x) Q E"
  by (simp add: triple_def retS_def)

lemma triple_raise [sx_rules]: "(\<And>s. P s \<Longrightarrow> E e s) \<Longrightarrow> triple P (raiseS e) Q E"
  by (simp add: triple_def raiseS_def)

lemma triple_bind [sx_rules]:
  "triple P m R E \<Longrightarrow> (\<And>x. triple (R x) (f x) Q E) \<Longrightarrow> triple P (bindS m f) Q E"
  unfolding triple_iff bindS_Inr bindS_Inl by blast

lemma triple_then [sx_rules]:
  "triple P m (\<lambda>_. R) E \<Longrightarrow> triple R n Q E \<Longrightarrow> triple P (thenS m n) Q E"
  unfolding thenS_def by (rule triple_bind)

lemma triple_lift [sx_rules]:
  "(\<And>x s. r = Inr x \<Longrightarrow> P s \<Longrightarrow> Q x s) \<Longrightarrow> (\<And>e s. r = Inl e \<Longrightarrow> P s \<Longrightarrow> E e s) \<Longrightarrow> triple P (liftR r) Q E"
  by (auto simp: triple_def liftR_def retS_def raiseS_def split: sum.split)

lemma triple_get [sx_rules]: "(\<And>s. P s \<Longrightarrow> Q (f s) s) \<Longrightarrow> triple P (getS f) Q E"
  by (simp add: triple_def getS_def)

lemma triple_mod [sx_rules]: "(\<And>s. P s \<Longrightarrow> Q () (f s)) \<Longrightarrow> triple P (modS f) Q E"
  by (simp add: triple_def modS_def)

lemma triple_read: "(\<And>s0. P s0 \<Longrightarrow> triple (\<lambda>s. s = s0 \<and> P s) (f s0) Q E) \<Longrightarrow> triple P (readS f) Q E"
  by (auto simp: triple_def readS_def)

lemma triple_when [sx_rules]:
  "(b \<Longrightarrow> triple P m Q E) \<Longrightarrow> (\<not> b \<Longrightarrow> (\<And>s. P s \<Longrightarrow> Q () s)) \<Longrightarrow> triple P (whenS b m) Q E"
  by (auto simp: triple_def whenS_def retS_def)

lemma triple_if [sx_rules]:
  "(b \<Longrightarrow> triple P m Q E) \<Longrightarrow> (\<not> b \<Longrightarrow> triple P n Q E) \<Longrightarrow> triple P (if b then m else n) Q E"
  by simp

lemma triple_foldS:
  assumes "\<And>x acc. x \<in> set xs \<Longrightarrow> triple (I acc) (f x acc) I E"
  shows "triple (I acc) (foldS f xs acc) I E"
  using assms
proof (induction xs arbitrary: acc)
  case Nil
  show ?case by (auto intro: triple_ret)
next
  case (Cons x xs)
  then show ?case by (auto intro!: triple_bind)
qed

lemma triple_forS:
  "(\<And>x. x \<in> set xs \<Longrightarrow> triple P (f x) (\<lambda>_. P) E) \<Longrightarrow> triple P (forS xs f) (\<lambda>_. P) E"
  unfolding forS_def by (rule triple_foldS [where I = "\<lambda>_. P"]) auto

lemma triple_finally [sx_rules]:
  "triple P m (\<lambda>x s. Q x (g s)) (\<lambda>e s. E e (g s)) \<Longrightarrow> triple P (finallyS m g) Q E"
  unfolding triple_iff finallyS_def by (auto split: prod.splits)

lemma triple_catch:
  "triple P m Q R \<Longrightarrow> (\<And>e. e \<noteq> OutOfFuel \<Longrightarrow> triple (R e) (h e) Q E) \<Longrightarrow>
   (\<And>s. R OutOfFuel s \<Longrightarrow> E OutOfFuel s) \<Longrightarrow> triple P (catchS m h) Q E"
  unfolding triple_iff catchS_def by (auto split: prod.splits sum.splits if_splits)

subsection \<open>Invariants\<close>

lemma keepsI: "triple I m (\<lambda>_. I) (\<lambda>_. I) \<Longrightarrow> keeps I m"
  by (simp add: keeps_def)

lemma keepsD: "keeps I m \<Longrightarrow> triple I m (\<lambda>_. I) (\<lambda>_. I)"
  by (simp add: keeps_def)

lemma keeps_result: "keeps I m \<Longrightarrow> I s \<Longrightarrow> I (snd (m s))"
  unfolding keeps_def triple_iff by (metis old.sum.exhaust prod.collapse)

lemma keeps_iff: "keeps I m \<longleftrightarrow> (\<forall>s. I s \<longrightarrow> I (snd (m s)))"
  unfolding keeps_def triple_iff by (metis (no_types, opaque_lifting) old.sum.exhaust prod.collapse snd_conv)

lemma keeps_ret [keeps_rules]: "keeps I (retS x)"
  by (simp add: keeps_iff retS_def)

lemma keeps_raise [keeps_rules]: "keeps I (raiseS e)"
  by (simp add: keeps_iff raiseS_def)

lemma keeps_lift [keeps_rules]: "keeps I (liftR r)"
  by (cases r) (simp_all add: liftR_def keeps_ret keeps_raise)

lemma keeps_get [keeps_rules]: "keeps I (getS f)"
  by (simp add: keeps_iff getS_def)

lemma keeps_bind [keeps_rules]: "keeps I m \<Longrightarrow> (\<And>x. keeps I (f x)) \<Longrightarrow> keeps I (bindS m f)"
  unfolding keeps_def by (erule triple_bind)

lemma keeps_then [keeps_rules]: "keeps I m \<Longrightarrow> keeps I n \<Longrightarrow> keeps I (thenS m n)"
  unfolding thenS_def by (erule keeps_bind)

lemma keeps_mod: "(\<And>s. I s \<Longrightarrow> I (f s)) \<Longrightarrow> keeps I (modS f)"
  by (simp add: keeps_iff modS_def)

lemma keeps_read: "(\<And>s. I s \<Longrightarrow> I (snd (f s s))) \<Longrightarrow> keeps I (readS f)"
  by (simp add: keeps_iff readS_def)

lemma keeps_read_any: "(\<And>s. I s \<Longrightarrow> keeps I (f s)) \<Longrightarrow> keeps I (readS f)"
  by (simp add: keeps_iff readS_def)

lemma keeps_when [keeps_rules]: "(b \<Longrightarrow> keeps I m) \<Longrightarrow> keeps I (whenS b m)"
  by (simp add: whenS_def keeps_ret)

lemma keeps_if [keeps_rules]: "(b \<Longrightarrow> keeps I m) \<Longrightarrow> (\<not> b \<Longrightarrow> keeps I n) \<Longrightarrow> keeps I (if b then m else n)"
  by simp

lemma keeps_foldS [keeps_rules]: "(\<And>x acc. keeps I (f x acc)) \<Longrightarrow> keeps I (foldS f xs acc)"
  unfolding keeps_def by (rule triple_foldS [where I = "\<lambda>_. I"]) auto

lemma keeps_forS [keeps_rules]: "(\<And>x. keeps I (f x)) \<Longrightarrow> keeps I (forS xs f)"
  unfolding keeps_def by (rule triple_forS) auto

lemma keeps_finally: "keeps I m \<Longrightarrow> (\<And>s. I s \<Longrightarrow> I (g s)) \<Longrightarrow> keeps I (finallyS m g)"
  unfolding keeps_iff finallyS_def by (auto split: prod.splits)

lemma keeps_catch [keeps_rules]: "keeps I m \<Longrightarrow> (\<And>e. keeps I (h e)) \<Longrightarrow> keeps I (catchS m h)"
  unfolding keeps_def by (rule triple_catch [where R = "\<lambda>_. I"]) auto

end
