(* ===== verification/KVCR_Protocol.thy ===== *)
theory KVCR_Protocol
  imports KVCR_Memory KVCR_Layout KVCR_Monad
begin

text \<open>
  The messages between a worker and KVCR-Service and the client half of their exchange
  (\<open>service/protocol.py\<close>): what a claim must satisfy, the layout a grant may have, the claim of a pool
  with everything it undoes when it fails, and the release of a lease.

  The socket, the process table and the mapping are the operating system's: a record of their answers
  is a parameter, and what the client does to them is a trace of events.
\<close>

subsection \<open>Messages\<close>

record G3Config =
  g3_paths :: "string list"
  capacity_bytes_per_file :: int
  g3_backend :: string
  g3_backend_options :: "(string, string) dict"

text \<open>\<open>realpath\<close> is the operating system's resolution of symbolic links.\<close>

definition g3_config_post_init :: "(string \<Rightarrow> string) \<Rightarrow> G3Config \<Rightarrow> unit res" where
  "g3_config_post_init realpath g =
     (if \<not> list_all path_absolute (g3_paths g) then Inl (ValueError ''G3 paths must be absolute'')
      else if card (set (map realpath (g3_paths g))) \<noteq> length (g3_paths g)
      then Inl (ValueError ''G3 file paths must be unique'')
      else Inr ())"

record PoolDescriptor =
  pd_name :: string
  pd_size_bytes :: int
  pd_block_size_bytes :: int
  pd_offset_bytes :: int

definition pool_descriptor :: "string \<Rightarrow> int \<Rightarrow> int \<Rightarrow> int \<Rightarrow> PoolDescriptor res" where
  "pool_descriptor name sz block offset =
     bindR (compute_pool_geometry sz block) (\<lambda>_.
       Inr \<lparr>pd_name = name, pd_size_bytes = sz, pd_block_size_bytes = block, pd_offset_bytes = offset\<rparr>)"

record TierConfig =
  tier_pool_layouts :: pool_layouts
  tier_g3 :: "G3Config option"
  remote_fw_dram_backend :: string

definition tier_config_post_init :: "int \<Rightarrow> TierConfig \<Rightarrow> unit res" where
  "tier_config_post_init page t =
     bindR (validate_pool_layouts (tier_pool_layouts t)) (\<lambda>_.
       case tier_g3 t of
         None \<Rightarrow> Inr ()
       | Some g \<Rightarrow>
           let block_size_bytes = fold gcd (map snd (tier_pool_layouts t)) 0 in
           if block_size_bytes mod page \<noteq> 0 then Inl (ValueError ''G3 requires page-aligned slots'')
           else if capacity_bytes_per_file g < block_size_bytes
           then Inl (ValueError ''G3 file capacity must contain at least one complete slot'')
           else Inr ())"

record claim =
  claim_guard_index :: nat
  claim_digest :: string
  claim_tier :: TierConfig
  control_host :: string
  control_port :: nat
  claim_incarnation :: "string option"

text \<open>\<open>inet_pton(AF_INET, ...)\<close>: four decimal numbers below 256 without leading zeros.\<close>

definition digit :: "char \<Rightarrow> bool" where
  "digit ch = (let n = of_char ch :: nat in 48 \<le> n \<and> n \<le> 57)"

definition decimal :: "string \<Rightarrow> nat" where
  "decimal ds = foldl (\<lambda>n ch. 10 * n + (of_char ch - 48)) 0 ds"

definition octet :: "string \<Rightarrow> bool" where
  "octet ds = (ds \<noteq> [] \<and> list_all digit ds \<and> (hd ds = CHR ''0'' \<longrightarrow> length ds = 1) \<and> length ds \<le> 3 \<and> decimal ds \<le> 255)"

fun split_dots :: "string \<Rightarrow> string \<Rightarrow> string list" where
  "split_dots acc [] = [acc]"
| "split_dots acc (ch # rest) = (if ch = CHR ''.'' then acc # split_dots [] rest else split_dots (acc @ [ch]) rest)"

definition inet_pton :: "string \<Rightarrow> bool" where
  "inet_pton host = (length (split_dots [] host) = 4 \<and> list_all octet (split_dots [] host))"

definition claim_post_init :: "claim \<Rightarrow> unit res" where
  "claim_post_init c = (if inet_pton (control_host c) then Inr () else Inl (ValueError ''not a literal IPv4 address''))"

record granted =
  grant_guard_index :: nat
  grant_spec :: KVCRPoolSpec
  grant_tier :: TierConfig
  grant_pools :: "PoolDescriptor list"
  dead_incarnations :: "string list"
  heartbeat_enabled :: bool

datatype response = Granted granted | Released | Error string

datatype request = Claim claim | Heartbeat | Release (activated: bool)

definition claim_fd_counts :: "claim \<Rightarrow> nat list" where
  "claim_fd_counts _ = [0, 1]"

definition response_fd_counts :: "response \<Rightarrow> nat list" where
  "response_fd_counts r = (case r of Error _ \<Rightarrow> [0] | _ \<Rightarrow> [2])"

subsection \<open>The layout of a grant\<close>

text \<open>The loop of \<open>_grant_layout\<close>: the offset after the last pool.\<close>

fun grant_pools_from :: "int \<Rightarrow> int \<Rightarrow> PoolDescriptor list \<Rightarrow> pool_layouts \<Rightarrow> int res" where
  "grant_pools_from page expected (p # ps) ((name, block) # ls) =
     (if (pd_name p, pd_block_size_bytes p) \<noteq> (name, block) \<or> pd_offset_bytes p \<noteq> expected
         \<or> pd_size_bytes p mod page \<noteq> 0
      then Inl (KVCRGuardProtocolError ''claim pool layout mismatch'')
      else grant_pools_from page (expected + pd_size_bytes p) ps ls)"
| "grant_pools_from page expected _ _ = Inr expected"

definition grant_layout :: "int \<Rightarrow> granted \<Rightarrow> nat \<Rightarrow> TierConfig \<Rightarrow> (KVCRPoolSpec \<times> PoolDescriptor list) res" where
  "grant_layout page g requested_index requested_tier =
     (if grant_guard_index g \<noteq> requested_index then Inl (KVCRGuardProtocolError ''claim Guard mismatch'')
      else if grant_tier g \<noteq> requested_tier then Inl (KVCRGuardProtocolError ''claim tier configuration mismatch'')
      else if length (grant_pools g) \<noteq> length (tier_pool_layouts requested_tier)
      then Inl (KVCRGuardProtocolError ''claim pool count mismatch'')
      else bindR (grant_pools_from page (int (journal_bytes (grant_spec g))) (grant_pools g) (tier_pool_layouts requested_tier))
        (\<lambda>expected.
          if expected \<noteq> int (mapping_bytes (grant_spec g))
          then Inl (KVCRGuardProtocolError ''claim pool sizes do not fill the allocation'')
          else Inr (grant_spec g, grant_pools g)))"

subsection \<open>Who is at the other end\<close>

text \<open>
  \<open>_verify_peer_pidfd\<close>: \<open>peer\<close> is the process id that \<open>SO_PEERCRED\<close> reports and \<open>info\<close> the one in the
  descriptor's \<open>fdinfo\<close>, None where it has no such line; either read may fail.
\<close>

definition verify_peer_pidfd :: "int res \<Rightarrow> int option res \<Rightarrow> unit res" where
  "verify_peer_pidfd peer info =
     (case (peer, info) of
        (Inr peer_pid, Inr worker_pid) \<Rightarrow>
          if peer_pid \<le> 0 \<or> worker_pid \<noteq> Some peer_pid
          then Inl (KVCRServiceError ''worker pidfd does not match socket peer'')
          else Inr ()
      | _ \<Rightarrow> Inl (KVCRServiceError ''cannot verify worker pidfd''))"

text \<open>
  \<open>PidfdLiveness.from_peer_socket\<close>: \<open>peerpidfd\<close> is the answer of \<open>SO_PEERPIDFD\<close>, an \<open>errno\<close> or the kernel's
  descriptor. The result is the descriptor that is kept and the transferred ones that were closed.
\<close>

definition from_peer_socket ::
  "string + nat \<Rightarrow> nat option \<Rightarrow> unit res \<Rightarrow> nat res \<times> nat list" where
  "from_peer_socket peerpidfd worker_pidfd verified =
     (let transferred = (case worker_pidfd of None \<Rightarrow> [] | Some fd \<Rightarrow> [fd]) in
      case peerpidfd of
        Inr pidfd \<Rightarrow> (Inr pidfd, transferred)
      | Inl e \<Rightarrow>
          if e \<noteq> ''ENOPROTOOPT'' then (Inl (OSError e), transferred)
          else case worker_pidfd of
            None \<Rightarrow> (Inl (KVCRServiceError ''worker pidfd is required without SO_PEERPIDFD''), [])
          | Some fd \<Rightarrow> (case verified of Inl x \<Rightarrow> (Inl x, [fd]) | Inr _ \<Rightarrow> (Inr fd, [])))"

subsection \<open>The client\<close>

text \<open>What the client does to the descriptors, the mapping and the connection, in order.\<close>

datatype client_event =
    Sending request
  | ClosedFd nat
  | Mapped
  | Unmapped
  | HeartbeatStarted
  | HeartbeatStopped
  | ConnectionClosed

text \<open>
  The answers to one claim. \<open>own_pidfd\<close> is None when \<open>pidfd_open\<close> fails, \<open>grant_answer\<close> what \<open>receive_with_fd\<close>
  returned, \<open>attach_answer\<close> what \<open>attach_fd\<close> did with the pool's descriptor, \<open>start_thread\<close> whether the
  heartbeat's thread starts, \<open>unmap_answer\<close> whether the mapping closes, and \<open>release_sent\<close> and
  \<open>release_answer\<close> how the release was sent and answered.
\<close>

record client_env =
  connect_answer :: "unit res"
  own_pidfd :: "nat option"
  claim_sent :: "unit res"
  grant_answer :: "(response \<times> nat list) res"
  attach_answer :: "attachment res"
  base_address :: int
  start_thread :: "unit res"
  unmap_answer :: "unit res"
  release_sent :: "unit res"
  release_answer :: "response res"
  close_answer :: "unit res"

record hold =
  hold_regions :: "(string \<times> int \<times> int) list"
  hold_backend :: string
  hold_pools :: "PoolDescriptor list"
  hold_mapped :: bool
  hold_listener :: "nat option"
  hold_incarnation :: "string option"
  hold_dead :: "string list"
  hold_heartbeat :: bool
  release_attempted :: bool

text \<open>The locals of \<open>KVCRClient.claim\<close> that its handler reads, and the trace.\<close>

record claiming =
  listener_fd :: "nat option"
  pool_fd :: "nat option"
  attached :: bool
  grant_received :: bool
  trace :: "client_event list"

abbreviation emit :: "client_event \<Rightarrow> (claiming, unit) sx" where
  "emit e \<equiv> modS (\<lambda>s. s\<lparr>trace := trace s @ [e]\<rparr>)"

definition send_release :: "client_env \<Rightarrow> bool \<Rightarrow> (claiming, unit) sx" where
  "send_release env act =
     thenS (emit (Sending (Release act))) (thenS (liftR (release_sent env))
       (bindS (liftR (release_answer env)) (\<lambda>r.
          case r of Error msg \<Rightarrow> raiseS (KVCRServiceError msg) | _ \<Rightarrow> retS ())))"

definition granted_hold :: "client_env \<Rightarrow> claim \<Rightarrow> granted \<Rightarrow> PoolDescriptor list \<Rightarrow> nat \<Rightarrow> hold" where
  "granted_hold env req g pools listener =
     \<lparr>hold_regions = map (\<lambda>p. (pd_name p, base_address env + pd_offset_bytes p, pd_size_bytes p)) pools,
      hold_backend = remote_fw_dram_backend (claim_tier req), hold_pools = pools, hold_mapped = True,
      hold_listener = Some listener, hold_incarnation = claim_incarnation req, hold_dead = dead_incarnations g,
      hold_heartbeat = heartbeat_enabled g, release_attempted = False\<rparr>"

text \<open>The \<open>try\<close> block of \<open>claim\<close>.\<close>

definition claim_body :: "client_env \<Rightarrow> int \<Rightarrow> claim \<Rightarrow> (claiming, hold) sx" where
  "claim_body env page req =
     thenS (case own_pidfd env of
              None \<Rightarrow> thenS (emit (Sending (Claim req))) (liftR (claim_sent env))
            | Some fd \<Rightarrow>
                finallyS (thenS (emit (Sending (Claim req))) (liftR (claim_sent env)))
                  (\<lambda>s. s\<lparr>trace := trace s @ [ClosedFd fd]\<rparr>))
     (bindS (liftR (grant_answer env)) (\<lambda>(resp, fds).
        case (resp, fds) of
          (Granted g, [pool, listener]) \<Rightarrow>
            thenS (modS (\<lambda>s. s\<lparr>pool_fd := Some pool, listener_fd := Some listener, grant_received := True\<rparr>))
            (bindS (liftR (grant_layout page g (claim_guard_index req) (claim_tier req))) (\<lambda>(spec, pools).
              thenS (modS (\<lambda>s. s\<lparr>pool_fd := None\<rparr>))
              (bindS (case attach_answer env of
                        Inl e \<Rightarrow> thenS (emit (ClosedFd pool)) (raiseS e)
                      | Inr a \<Rightarrow> thenS (emit Mapped) (modS (\<lambda>s. s\<lparr>attached := True\<rparr>))) (\<lambda>_.
                thenS (whenS (heartbeat_enabled g) (thenS (liftR (start_thread env)) (emit HeartbeatStarted)))
                  (retS (granted_hold env req g pools listener)))))
            )
        | (Error msg, _) \<Rightarrow> raiseS (KVCRServiceError msg)
        | _ \<Rightarrow> raiseS (ValueError ''not enough values to unpack'')))"

text \<open>\<open>try ... except BaseException\<close>.\<close>

definition exceptS :: "('s, 'a) sx \<Rightarrow> (exn \<Rightarrow> ('s, 'a) sx) \<Rightarrow> ('s, 'a) sx" where
  "exceptS m h = (\<lambda>s. case m s of (Inl e, s') \<Rightarrow> h e s' | (Inr x, s') \<Rightarrow> (Inr x, s'))"

definition close_leftover :: "nat option \<Rightarrow> (claiming, unit) sx" where
  "close_leftover fd = (case fd of None \<Rightarrow> retS () | Some f \<Rightarrow> emit (ClosedFd f))"

text \<open>The \<open>except\<close> block: descriptors, mapping, then the release, then the connection.\<close>

definition suppressed :: "('s, unit) sx \<Rightarrow> ('s, unit) sx" where
  "suppressed m = (\<lambda>s. (Inr (), snd (m s)))"

fun socket_failure :: "exn \<Rightarrow> bool" where
  "socket_failure (OSError _) = True"
| "socket_failure (PermissionError _) = True"
| "socket_failure (TimeoutError _) = True"
| "socket_failure EOFError = True"
| "socket_failure _ = False"

definition claim_failed :: "client_env \<Rightarrow> exn \<Rightarrow> (claiming, hold) sx" where
  "claim_failed env e =
     readS (\<lambda>s.
       thenS (close_leftover (listener_fd s)) (thenS (close_leftover (pool_fd s))
       (bindS (if attached s
               then (case unmap_answer env of Inl _ \<Rightarrow> retS False | Inr _ \<Rightarrow> thenS (emit Unmapped) (retS True))
               else retS True) (\<lambda>local_access_stopped.
          thenS (whenS local_access_stopped (suppressed (send_release env False)))
          (thenS (emit ConnectionClosed)
            (if \<not> grant_received s \<and> socket_failure e
             then raiseS (KVCRSocketError ''KVCR-Service claim failed'') else raiseS e))))))"

definition client_claim :: "client_env \<Rightarrow> int \<Rightarrow> claim \<Rightarrow> hold res \<times> client_event list" where
  "client_claim env page req =
     (case connect_answer env of
        Inl e \<Rightarrow> (Inl e, [])
      | Inr _ \<Rightarrow>
          (case exceptS (claim_body env page req) (claim_failed env)
              \<lparr>listener_fd = None, pool_fd = None, attached = False, grant_received = False, trace = []\<rparr> of
             (r, s) \<Rightarrow> (r, trace s)))"

subsection \<open>Holding and releasing a lease\<close>

text \<open>\<open>adopt\<close> is the answer of the framework's channel; the hold gives the listener up only once it has it.\<close>

definition hand_listener_to :: "unit res \<Rightarrow> hold \<Rightarrow> unit res \<times> hold" where
  "hand_listener_to adopt h =
     (case hold_listener h of
        None \<Rightarrow> (Inr (), h)
      | Some fd \<Rightarrow> (case adopt of Inl e \<Rightarrow> (Inl e, h) | Inr _ \<Rightarrow> (Inr (), h\<lparr>hold_listener := None\<rparr>)))"

definition hold_release :: "client_env \<Rightarrow> bool \<Rightarrow> hold \<Rightarrow> unit res \<times> hold \<times> client_event list" where
  "hold_release env act h =
     (if release_attempted h then (Inr (), h, [])
      else case unmap_answer env of
        Inl e \<Rightarrow> (Inl e, h, [])
      | Inr _ \<Rightarrow>
          let h' = h\<lparr>hold_mapped := False, hold_listener := None, release_attempted := True\<rparr>;
              before = Unmapped # HeartbeatStopped # (case hold_listener h of None \<Rightarrow> [] | Some fd \<Rightarrow> [ClosedFd fd])
          in (case thenS (send_release env act) (liftR (close_answer env))
                  \<lparr>listener_fd = None, pool_fd = None, attached = False, grant_received = True, trace = before\<rparr> of
                (Inr _, s) \<Rightarrow> (Inr (), h', trace s @ [ConnectionClosed])
              | (Inl e, s) \<Rightarrow>
                  (Inl (if socket_failure e then KVCRSocketError ''KVCR-Service release failed'' else e), h',
                   trace s @ [ConnectionClosed])))"

text \<open>One turn of the heartbeat's loop: whether it sends and whether it goes on.\<close>

definition heartbeat_turn :: "bool \<Rightarrow> unit res \<Rightarrow> client_event list \<times> bool" where
  "heartbeat_turn stopped answer =
     (if stopped then ([], False)
      else case answer of Inl _ \<Rightarrow> ([Sending Heartbeat], False) | Inr _ \<Rightarrow> ([Sending Heartbeat], True))"

subsection \<open>What a grant may look like\<close>

text \<open>The pools of an accepted grant follow each other without a gap.\<close>

lemma grant_pools_from_tiles:
  assumes "grant_pools_from page start ps ls = Inr stop" "length ps = length ls"
  shows "stop = start + sum_list (map pd_size_bytes ps) \<and>
    (\<forall>i < length ps. pd_offset_bytes (ps ! i) = start + sum_list (map pd_size_bytes (take i ps)) \<and>
       (pd_name (ps ! i), pd_block_size_bytes (ps ! i)) = ls ! i \<and> page dvd pd_size_bytes (ps ! i))"
  using assms
proof (induction page start ps ls rule: grant_pools_from.induct)
  case (1 page start p ps name block ls)
  have h: "pd_name p = name" "pd_block_size_bytes p = block" "pd_offset_bytes p = start" "page dvd pd_size_bytes p"
    "grant_pools_from page (start + pd_size_bytes p) ps ls = Inr stop"
    using 1(2) by (auto split: if_splits)
  have "\<not> ((pd_name p, pd_block_size_bytes p) \<noteq> (name, block) \<or> pd_offset_bytes p \<noteq> start \<or> pd_size_bytes p mod page \<noteq> 0)"
    using h by auto
  note IH = 1(1) [OF this h(5)]
  show ?case
  proof (intro conjI allI impI)
    show "stop = start + sum_list (map pd_size_bytes (p # ps))" using IH 1(3) by simp
    fix i assume i: "i < length (p # ps)"
    show "pd_offset_bytes ((p # ps) ! i) = start + sum_list (map pd_size_bytes (take i (p # ps)))"
      "(pd_name ((p # ps) ! i), pd_block_size_bytes ((p # ps) ! i)) = ((name, block) # ls) ! i"
      "page dvd pd_size_bytes ((p # ps) ! i)"
      using IH 1(3) h i by (cases i; simp)+
  qed
qed auto

lemma grant_layout_Inr:
  assumes "grant_layout page g requested tier = Inr (spec, pools)"
  shows "length (grant_pools g) = length (tier_pool_layouts tier)"
    "bindR (grant_pools_from page (int (journal_bytes (grant_spec g))) (grant_pools g) (tier_pool_layouts tier))
       (\<lambda>expected. if expected \<noteq> int (mapping_bytes (grant_spec g))
          then Inl (KVCRGuardProtocolError ''claim pool sizes do not fill the allocation'')
          else Inr (grant_spec g, grant_pools g)) = Inr (spec, pools)"
proof -
  have ok: "\<not> grant_guard_index g \<noteq> requested" "\<not> grant_tier g \<noteq> tier"
    "\<not> length (grant_pools g) \<noteq> length (tier_pool_layouts tier)"
    using assms unfolding grant_layout_def by (auto split: if_split_asm)
  then show "length (grant_pools g) = length (tier_pool_layouts tier)" by simp
  show "bindR (grant_pools_from page (int (journal_bytes (grant_spec g))) (grant_pools g) (tier_pool_layouts tier))
       (\<lambda>expected. if expected \<noteq> int (mapping_bytes (grant_spec g))
          then Inl (KVCRGuardProtocolError ''claim pool sizes do not fill the allocation'')
          else Inr (grant_spec g, grant_pools g)) = Inr (spec, pools)"
    using assms unfolding grant_layout_def if_not_P [OF ok(1)] if_not_P [OF ok(2)] if_not_P [OF ok(3)] .
qed

lemma grant_layout_tiles:
  assumes "grant_layout page g index tier = Inr (spec, pools)"
  shows "spec = grant_spec g" "pools = grant_pools g" "length pools = length (tier_pool_layouts tier)"
    "int (mapping_bytes spec) = int (journal_bytes spec) + sum_list (map pd_size_bytes pools)"
    "\<And>i. i < length pools \<Longrightarrow> pd_offset_bytes (pools ! i) =
       int (journal_bytes spec) + sum_list (map pd_size_bytes (take i pools))"
    "\<And>i. i < length pools \<Longrightarrow> (pd_name (pools ! i), pd_block_size_bytes (pools ! i)) = tier_pool_layouts tier ! i"
    "\<And>i. i < length pools \<Longrightarrow> page dvd pd_size_bytes (pools ! i)"
proof -
  let ?from = "grant_pools_from page (int (journal_bytes (grant_spec g))) (grant_pools g) (tier_pool_layouts tier)"
  note gl = grant_layout_Inr [OF assms]
  from gl(2) obtain stop where stop: "?from = Inr stop"
    "(if stop \<noteq> int (mapping_bytes (grant_spec g))
      then Inl (KVCRGuardProtocolError ''claim pool sizes do not fill the allocation'')
      else Inr (grant_spec g, grant_pools g)) = Inr (spec, pools)"
    unfolding bindR_eq_Inr by blast
  have "stop = int (mapping_bytes (grant_spec g))" "spec = grant_spec g" "pools = grant_pools g"
    using stop(2) by (cases "stop = int (mapping_bytes (grant_spec g))"; simp)+
  note g = stop(1) this(1) gl(1) this(2,3)
  note t = grant_pools_from_tiles [OF g(1,3)]
  show "spec = grant_spec g" "pools = grant_pools g" by (fact g)+
  show "length pools = length (tier_pool_layouts tier)"
    "int (mapping_bytes spec) = int (journal_bytes spec) + sum_list (map pd_size_bytes pools)"
    using t g(2,3) unfolding g(4,5) by simp_all
  fix i assume i: "i < length pools"
  show "pd_offset_bytes (pools ! i) = int (journal_bytes spec) + sum_list (map pd_size_bytes (take i pools))"
    "(pd_name (pools ! i), pd_block_size_bytes (pools ! i)) = tier_pool_layouts tier ! i"
    "page dvd pd_size_bytes (pools ! i)"
    using conjunct2 [OF t, rule_format, of i] i unfolding g(4,5) by simp_all
qed

lemma unique_interval:
  fixes off :: "nat \<Rightarrow> int"
  assumes inc: "\<And>i. i < n \<Longrightarrow> off i < off (Suc i)" and b: "off 0 \<le> b" "b < off n"
  shows "\<exists>!i. i < n \<and> off i \<le> b \<and> b < off (Suc i)"
proof -
  have mono: "off i \<le> off j" if "i \<le> j" "j \<le> n" for i j
    using that
  proof (induction j)
    case (Suc j)
    then show ?case using inc [of j] by (cases "i = Suc j") auto
  qed simp
  have "\<exists>i < n. off i \<le> b \<and> b < off (Suc i)"
    using inc b
  proof (induction n)
    case (Suc m)
    then show ?case by (cases "b < off m") (auto intro: less_SucI)
  qed simp
  moreover have "i = j" if "i < n \<and> off i \<le> b \<and> b < off (Suc i)" "j < n \<and> off j \<le> b \<and> b < off (Suc j)" for i j
    using mono [of "Suc j" i] mono [of "Suc i" j] that by (cases j i rule: linorder_cases) auto
  ultimately show ?thesis by blast
qed


definition sample_spec :: KVCRPoolSpec where
  "sample_spec = \<lparr>pool_id = ''pool_0'', path = ''/p/kvcr-pool_0-g'', generation = ''g'', device = 1, inode = 2,
     mapping_bytes = 24576, journal_bytes = 8192\<rparr>"

definition sample_tier :: TierConfig where
  "sample_tier = \<lparr>tier_pool_layouts = [(''k'', 4096), (''v'', 8192)], tier_g3 = None, remote_fw_dram_backend = ''UCX''\<rparr>"

definition sample_pools :: "PoolDescriptor list" where
  "sample_pools =
     [\<lparr>pd_name = ''k'', pd_size_bytes = 4096, pd_block_size_bytes = 4096, pd_offset_bytes = 8192\<rparr>,
      \<lparr>pd_name = ''v'', pd_size_bytes = 12288, pd_block_size_bytes = 8192, pd_offset_bytes = 12288\<rparr>]"

definition sample_grant :: granted where
  "sample_grant = \<lparr>grant_guard_index = 0, grant_spec = sample_spec, grant_tier = sample_tier, grant_pools = sample_pools,
     dead_incarnations = [], heartbeat_enabled = False\<rparr>"

lemma sample_grant_layout: "grant_layout 4096 sample_grant 0 sample_tier = Inr (sample_spec, sample_pools)"
  by (simp add: grant_layout_def sample_grant_def sample_spec_def sample_tier_def sample_pools_def)


subsection \<open>A claim that fails leaves nothing behind\<close>

lemmas client_simps = bindS_def thenS_def liftR_def retS_def raiseS_def modS_def readS_def whenS_def finallyS_def

definition failure_events :: "client_env \<Rightarrow> claiming \<Rightarrow> client_event list" where
  "failure_events env s =
     (case listener_fd s of None \<Rightarrow> [] | Some f \<Rightarrow> [ClosedFd f]) @ (case pool_fd s of None \<Rightarrow> [] | Some f \<Rightarrow> [ClosedFd f]) @
     (if attached s then (case unmap_answer env of Inl _ \<Rightarrow> [] | Inr _ \<Rightarrow> [Unmapped, Sending (Release False)])
      else [Sending (Release False)]) @ [ConnectionClosed]"

lemma send_release_trace: "snd (send_release env act s) = s\<lparr>trace := trace s @ [Sending (Release act)]\<rparr>"
  by (simp add: send_release_def client_simps split: sum.split response.split)

lemma close_leftover_eq:
  "close_leftover fd s = (Inr (), s\<lparr>trace := trace s @ (case fd of None \<Rightarrow> [] | Some f \<Rightarrow> [ClosedFd f])\<rparr>)"
  by (simp add: close_leftover_def client_simps split: option.split)

lemma claim_failed_eq: "\<exists>e'. claim_failed env e s = (Inl e', s\<lparr>trace := trace s @ failure_events env s\<rparr>)"
proof (cases "attached s")
  case True
  then show ?thesis
    by (cases "unmap_answer env")
      (simp_all add: claim_failed_def close_leftover_eq suppressed_def send_release_trace client_simps failure_events_def)
next
  case False
  then show ?thesis
    by (simp add: claim_failed_def close_leftover_eq suppressed_def send_release_trace client_simps failure_events_def)
qed

definition opening_events :: "client_env \<Rightarrow> claim \<Rightarrow> client_event list" where
  "opening_events env req = Sending (Claim req) # (case own_pidfd env of None \<Rightarrow> [] | Some fd \<Rightarrow> [ClosedFd fd])"

abbreviation claim_start :: claiming where
  "claim_start \<equiv> \<lparr>listener_fd = None, pool_fd = None, attached = False, grant_received = False, trace = []\<rparr>"

text \<open>How far a claim that was granted got.\<close>

lemma claim_body_granted:
  assumes "claim_sent env = Inr ()" "grant_answer env = Inr (Granted g, [pool, listener])"
  shows "claim_body env page req claim_start =
    (let tr = opening_events env req;
         stopped = (\<lambda>p a t. \<lparr>listener_fd = Some listener, pool_fd = p, attached = a, grant_received = True, trace = t\<rparr>) in
     case grant_layout page g (claim_guard_index req) (claim_tier req) of
       Inl e \<Rightarrow> (Inl e, stopped (Some pool) False tr)
     | Inr (spec, pools) \<Rightarrow>
         (case attach_answer env of
            Inl e \<Rightarrow> (Inl e, stopped None False (tr @ [ClosedFd pool]))
          | Inr a \<Rightarrow>
              if heartbeat_enabled g then
                (case start_thread env of
                   Inl e \<Rightarrow> (Inl e, stopped None True (tr @ [Mapped]))
                 | Inr _ \<Rightarrow> (Inr (granted_hold env req g pools listener), stopped None True (tr @ [Mapped, HeartbeatStarted])))
              else (Inr (granted_hold env req g pools listener), stopped None True (tr @ [Mapped]))))"
  by (simp add: claim_body_def assms client_simps opening_events_def Let_def split: option.split sum.split prod.split)

text \<open>A granted claim ends in one of these ways.\<close>

lemma granted_claim_cases:
  assumes "client_claim env page req = (r, tr)" "connect_answer env = Inr ()" "claim_sent env = Inr ()"
    "grant_answer env = Inr (Granted g, [pool, listener])"
  shows "(\<exists>e. r = Inl e \<and>
      (tr = opening_events env req @ [ClosedFd listener, ClosedFd pool, Sending (Release False), ConnectionClosed] \<or>
       tr = opening_events env req @ [ClosedFd pool, ClosedFd listener, Sending (Release False), ConnectionClosed] \<or>
       tr = opening_events env req @ [Mapped, ClosedFd listener, Unmapped, Sending (Release False), ConnectionClosed] \<or>
       tr = opening_events env req @ [Mapped, ClosedFd listener, ConnectionClosed])) \<or>
    (\<exists>pools. r = Inr (granted_hold env req g pools listener) \<and>
      (tr = opening_events env req @ [Mapped] \<or> tr = opening_events env req @ [Mapped, HeartbeatStarted]))"
proof -
  obtain x s where b: "claim_body env page req claim_start = (x, s)" by fastforce
  show ?thesis
  proof (cases x)
    case (Inl e)
    obtain e' where f: "claim_failed env e s = (Inl e', s\<lparr>trace := trace s @ failure_events env s\<rparr>)"
      using claim_failed_eq by blast
    have "r = Inl e'" "tr = trace s @ failure_events env s"
      using assms(1,2) b Inl f by (simp_all add: client_claim_def exceptS_def)
    then show ?thesis
      using b Inl unfolding claim_body_granted [OF assms(3,4)] Let_def
      by (auto simp: failure_events_def split: sum.splits if_splits)
  next
    case (Inr h)
    have "r = Inr h" "tr = trace s" using assms(1,2) b Inr by (simp_all add: client_claim_def exceptS_def)
    then show ?thesis
      using b Inr unfolding claim_body_granted [OF assms(3,4)] Let_def
      by (auto split: sum.splits if_splits)
  qed
qed


definition sample_claim :: claim where
  "sample_claim = \<lparr>claim_guard_index = 0, claim_digest = ''d'', claim_tier = sample_tier, control_host = ''10.0.0.1'',
     control_port = 5000, claim_incarnation = Some ''i''\<rparr>"

definition sample_env :: client_env where
  "sample_env = \<lparr>connect_answer = Inr (), own_pidfd = Some 3, claim_sent = Inr (),
     grant_answer = Inr (Granted (sample_grant\<lparr>heartbeat_enabled := True\<rparr>), [5, 6]),
     attach_answer = Inr \<lparr>att_spec = sample_spec, att_mapped = True, att_fd_open = True\<rparr>, base_address = 65536,
     start_thread = Inl (RuntimeError ''no thread''), unmap_answer = Inr (), release_sent = Inr (),
     release_answer = Inr Released, close_answer = Inr ()\<rparr>"


end
