(* ===== verification/KVCR_Eviction.thy ===== *)
theory KVCR_Eviction
  imports KVCR_Prelude "HOL-Library.Multiset"
begin

text \<open>
  The eviction queue of \<open>runtime/policy_runtime.py\<close> (\<open>_EvictionQueue\<close>): a score-ordered heap with lazy
  deletion, the table of live entries beside it, and the generator \<open>candidates\<close> that a capacity scan
  holds open while other operations insert and remove keys.

  The library's \<open>heapq\<close> promises that a pop returns the smallest item. Items are compared as tuples
  \<open>(score, sequence, key)\<close> and sequence numbers are never reused, so which item is popped depends only
  on the items, not on their arrangement; the heap is kept here as the ascending list of its items.
  \<open>item is entry\<close> is equality of entries: two entries with the same sequence number are the same.
  The generator is a record of its local variables and a function that runs it to its next yield.

  The locale \<open>eviction_index\<close> is the contract the two storage tiers rely on, with the accounting of
  evictable slots proved once inside it and interpreted on the queue.
\<close>

subsection \<open>Entries and the heap\<close>

type_synonym ('s, 'k) entry = "'s \<times> nat \<times> 'k"

definition entry_seq :: "('s, 'k) entry \<Rightarrow> nat" where
  "entry_seq e = fst (snd e)"

definition entry_key :: "('s, 'k) entry \<Rightarrow> 'k" where
  "entry_key e = snd (snd e)"

definition rank :: "('s, 'k) entry \<Rightarrow> 's \<times> nat" where
  "rank e = (fst e, entry_seq e)"

lemma entry_sel [simp]:
  "entry_seq (s, n, k) = n" "entry_key (s, n, k) = k" "rank (s, n, k) = (s, n)"
  by (simp_all add: entry_seq_def entry_key_def rank_def)

definition heappush :: "('s::linorder, 'k) entry \<Rightarrow> ('s, 'k) entry list \<Rightarrow> ('s, 'k) entry list" where
  "heappush e h = insort_key rank e h"

definition heapify :: "('s::linorder, 'k) entry list \<Rightarrow> ('s, 'k) entry list" where
  "heapify h = sort_key rank h"

record ('s, 'k) evq =
  heap :: "('s, 'k) entry list"
  live :: "('k, ('s, 'k) entry) dict"
  next_sequence :: nat

definition evq_init :: "('s, 'k) evq" where
  "evq_init = \<lparr>heap = [], live = [], next_sequence = 0\<rparr>"

definition evq_len :: "('s, 'k) evq \<Rightarrow> nat" where
  "evq_len q = length (live q)"

definition evq_score :: "('s, 'k) evq \<Rightarrow> 'k \<Rightarrow> 's option" where
  "evq_score q k = map_option fst (map_of (live q) k)"

definition is_live :: "('k \<rightharpoonup> ('s, 'k) entry) \<Rightarrow> ('s, 'k) entry \<Rightarrow> bool" where
  "is_live lv e = (lv (entry_key e) = Some e)"

definition evq_insert :: "('s::linorder, 'k) evq \<Rightarrow> 'k \<Rightarrow> 's \<Rightarrow> bool \<times> ('s, 'k) evq" where
  "evq_insert q k s =
     (let previous = map_of (live q) k in
      if (case previous of None \<Rightarrow> False | Some e \<Rightarrow> fst e = s) then (False, q)
      else
        let e = (s, next_sequence q, k);
            lv = AList.update k e (live q);
            h = heappush e (heap q);
            h' = (if length h > 2 * length lv then heapify (filter (is_live (map_of lv)) h) else h)
        in (previous = None, q\<lparr>heap := h', live := lv, next_sequence := Suc (next_sequence q)\<rparr>))"

definition evq_remove :: "('s, 'k) evq \<Rightarrow> 'k \<Rightarrow> bool \<times> ('s, 'k) evq" where
  "evq_remove q k = (map_of (live q) k \<noteq> None, q\<lparr>live := AList.delete k (live q)\<rparr>)"

subsection \<open>The candidates generator\<close>

record ('s, 'k) cand =
  excluded :: "'k set"
  seen :: "'k set"
  skipped :: "('s, 'k) entry list"
  finished :: bool

definition cand_start :: "'k set \<Rightarrow> ('s, 'k) cand" where
  "cand_start ex = \<lparr>excluded = ex, seen = {}, skipped = [], finished = False\<rparr>"

text \<open>The body of the \<open>while\<close> loop up to its next \<open>yield\<close>, over the items still in the heap.\<close>

fun cand_scan :: "('k \<rightharpoonup> ('s, 'k) entry) \<Rightarrow> ('s, 'k) cand \<Rightarrow> ('s, 'k) entry list \<Rightarrow>
    'k option \<times> ('s, 'k) cand \<times> ('s, 'k) entry list" where
  "cand_scan lv g [] = (None, g, [])"
| "cand_scan lv g (e # h) =
     (if \<not> is_live lv e then cand_scan lv g h
      else if entry_key e \<notin> excluded g \<and> entry_key e \<notin> seen g
      then (Some (entry_key e),
            g\<lparr>skipped := skipped g @ [e], seen := insert (entry_key e) (seen g)\<rparr>, h)
      else cand_scan lv (g\<lparr>skipped := skipped g @ [e]\<rparr>) h)"

text \<open>The \<open>finally\<close> block: skipped items that are still live go back into the heap.\<close>

definition cand_restore :: "('s::linorder, 'k) evq \<Rightarrow> ('s, 'k) entry list \<Rightarrow> ('s, 'k) evq" where
  "cand_restore q sk =
     q\<lparr>heap := fold heappush (filter (is_live (map_of (live q))) sk) (heap q)\<rparr>"

definition cand_close :: "('s::linorder, 'k) evq \<Rightarrow> ('s, 'k) cand \<Rightarrow> ('s, 'k) evq \<times> ('s, 'k) cand" where
  "cand_close q g =
     (if finished g then (q, g)
      else (cand_restore q (skipped g), g\<lparr>skipped := [], finished := True\<rparr>))"

definition cand_next ::
  "('s::linorder, 'k) evq \<Rightarrow> ('s, 'k) cand \<Rightarrow> 'k option \<times> ('s, 'k) evq \<times> ('s, 'k) cand" where
  "cand_next q g =
     (if finished g then (None, q, g)
      else case cand_scan (map_of (live q)) g (heap q) of
        (Some k, g', h) \<Rightarrow> (Some k, q\<lparr>heap := h\<rparr>, g')
      | (None, g', h) \<Rightarrow> (None, cand_close (q\<lparr>heap := h\<rparr>) g'))"

definition passed_over :: "('k \<rightharpoonup> ('s, 'k) entry) \<Rightarrow> ('s, 'k) cand \<Rightarrow> ('s, 'k) entry list \<Rightarrow> bool" where
  "passed_over lv g pre = (\<forall>x \<in> set pre. is_live lv x \<longrightarrow> entry_key x \<in> excluded g \<union> seen g)"

lemma passed_over_simps [simp]:
  "passed_over lv g []"
  "passed_over lv g (x # pre) =
    ((is_live lv x \<longrightarrow> entry_key x \<in> excluded g \<union> seen g) \<and> passed_over lv g pre)"
  "passed_over lv (g\<lparr>skipped := sk\<rparr>) pre = passed_over lv g pre"
  by (simp_all add: passed_over_def)

lemma cand_scan_None:
  "cand_scan lv g h = (None, g', h') \<Longrightarrow>
    h' = [] \<and> g' = g\<lparr>skipped := skipped g @ filter (is_live lv) h\<rparr> \<and>
    passed_over lv g h"
proof (induction lv g h rule: cand_scan.induct)
  case (1 lv g)
  then show ?case by simp
next
  case (2 lv g e h)
  show ?case
  proof (cases "is_live lv e")
    case True
    with "2.prems" have x: "\<not> (entry_key e \<notin> excluded g \<and> entry_key e \<notin> seen g)"
      and r: "cand_scan lv (g\<lparr>skipped := skipped g @ [e]\<rparr>) h = (None, g', h')"
      by (auto split: if_splits)
    have nn: "\<not> \<not> is_live lv e" using True by simp
    show ?thesis using "2.IH"(2) [OF nn x r] True x by auto
  next
    case False
    then have r: "cand_scan lv g h = (None, g', h')" using "2.prems" by simp
    show ?thesis using "2.IH"(1) [OF False r] False by simp
  qed
qed

lemma cand_scan_Some:
  assumes "cand_scan lv g h = (Some k, g', h')"
  obtains pre e where "h = pre @ e # h'" "entry_key e = k" "is_live lv e" "k \<notin> excluded g"
    "k \<notin> seen g" "passed_over lv g pre"
    "g' = g\<lparr>skipped := skipped g @ filter (is_live lv) pre @ [e], seen := insert k (seen g)\<rparr>"
  using assms
proof (induction lv g h arbitrary: thesis rule: cand_scan.induct)
  case (1 lv g)
  then show ?case by simp
next
  case (2 lv g e h)
  consider (dead) "\<not> is_live lv e"
    | (yields) "is_live lv e" "entry_key e \<notin> excluded g \<and> entry_key e \<notin> seen g"
    | (skips) "is_live lv e" "\<not> (entry_key e \<notin> excluded g \<and> entry_key e \<notin> seen g)"
    by blast
  then show ?case
  proof cases
    case dead
    then have "cand_scan lv g h = (Some k, g', h')" using "2.prems"(2) by simp
    then obtain pre x where p: "h = pre @ x # h'" "entry_key x = k" "is_live lv x" "k \<notin> excluded g"
      "k \<notin> seen g" "passed_over lv g pre"
      "g' = g\<lparr>skipped := skipped g @ filter (is_live lv) pre @ [x], seen := insert k (seen g)\<rparr>"
      using "2.IH"(1) [OF dead] by blast
    show ?thesis
      by (rule "2.prems"(1) [of "e # pre" x]) (simp_all add: p(1-6) dead p(7) del: cand_scan.simps)
  next
    case yields
    with "2.prems"(2) have "h' = h" "k = entry_key e"
      "g' = g\<lparr>skipped := skipped g @ [e], seen := insert k (seen g)\<rparr>" by auto
    with yields show ?thesis by (intro "2.prems"(1) [of "[]" e]) simp_all
  next
    case skips
    let ?g = "g\<lparr>skipped := skipped g @ [e]\<rparr>"
    have nn: "\<not> \<not> is_live lv e" using skips(1) by simp
    have "cand_scan lv ?g h = (Some k, g', h')" using skips "2.prems"(2) by (auto split: if_splits)
    then obtain pre x where p: "h = pre @ x # h'" "entry_key x = k" "is_live lv x" "k \<notin> excluded ?g"
      "k \<notin> seen ?g" "passed_over lv ?g pre"
      "g' = ?g\<lparr>skipped := skipped ?g @ filter (is_live lv) pre @ [x], seen := insert k (seen ?g)\<rparr>"
      using "2.IH"(2) [OF nn skips(2)] by blast
    show ?thesis
      by (rule "2.prems"(1) [of "e # pre" x]) (use p(1-6) skips in \<open>auto simp: p(7)\<close>)
  qed
qed

text \<open>A consumer that takes every candidate: \<open>list(q.candidates(excluded))\<close>.\<close>

lemma cand_next_shrinks:
  assumes "cand_next q g = (Some k, q', g')"
  shows "length (heap q') < length (heap q)"
proof -
  obtain k' g'' h where sc: "cand_scan (map_of (live q)) g (heap q) = (k', g'', h)"
    by (cases "cand_scan (map_of (live q)) g (heap q)") auto
  have nf: "\<not> finished g" using assms by (auto simp: cand_next_def)
  have k': "k' = Some k" and q': "q' = q\<lparr>heap := h\<rparr>"
    using assms nf sc by (auto simp: cand_next_def split: option.splits)
  obtain pre e where "heap q = pre @ e # h"
    using cand_scan_Some [OF sc [unfolded k']] by blast
  then show ?thesis using q' by simp
qed

function candidates_all :: "('s::linorder, 'k) evq \<Rightarrow> ('s, 'k) cand \<Rightarrow> 'k list \<times> ('s, 'k) evq" where
  "candidates_all q g =
     (case cand_next q g of
        (None, q', g') \<Rightarrow> ([], q')
      | (Some k, q', g') \<Rightarrow> (case candidates_all q' g' of (ks, q'') \<Rightarrow> (k # ks, q'')))"
  by pat_completeness auto
termination
  by (relation "measure (\<lambda>(q, g). length (heap q))") (auto dest: cand_next_shrinks [OF sym] split: prod.splits)

declare candidates_all.simps [simp del]

subsection \<open>The representation invariant\<close>

text \<open>
  \<open>sk\<close> holds the entries that open generators have popped and not yet restored. Sequence numbers are
  unique over the heap and \<open>sk\<close>, and every live entry is in one of them.
\<close>

definition evq_inv :: "('s::linorder, 'k) evq \<Rightarrow> ('s, 'k) entry list \<Rightarrow> bool" where
  "evq_inv q sk \<longleftrightarrow>
     dict_wf (live q) \<and>
     (\<forall>k e. map_of (live q) k = Some e \<longrightarrow> entry_key e = k \<and> e \<in> set (heap q) \<union> set sk) \<and>
     distinct (map entry_seq (heap q @ sk)) \<and>
     (\<forall>e \<in> set (heap q) \<union> set sk. entry_seq e < next_sequence q) \<and>
     sorted (map rank (heap q))"

lemma evq_invD:
  assumes "evq_inv q sk"
  shows "dict_wf (live q)"
    and "map_of (live q) k = Some e \<Longrightarrow> entry_key e = k"
    and "map_of (live q) k = Some e \<Longrightarrow> e \<in> set (heap q) \<union> set sk"
    and "distinct (map entry_seq (heap q @ sk))"
    and "e \<in> set (heap q) \<union> set sk \<Longrightarrow> entry_seq e < next_sequence q"
    and "sorted (map rank (heap q))"
  using assms unfolding evq_inv_def by blast+

lemma evq_invI:
  assumes "dict_wf (live q)"
    and "\<And>k e. map_of (live q) k = Some e \<Longrightarrow> entry_key e = k \<and> e \<in> set (heap q) \<union> set sk"
    and "distinct (map entry_seq (heap q @ sk))"
    and "\<And>e. e \<in> set (heap q) \<union> set sk \<Longrightarrow> entry_seq e < next_sequence q"
    and "sorted (map rank (heap q))"
  shows "evq_inv q sk"
  using assms unfolding evq_inv_def by blast

lemma evq_inv_init: "evq_inv evq_init []"
  by (simp add: evq_inv_def evq_init_def)

lemma mset_heappush [simp]: "mset (heappush e h) = add_mset e (mset h)"
  by (simp add: heappush_def)

lemma set_heappush [simp]: "set (heappush e h) = insert e (set h)"
  by (simp add: heappush_def set_insort_key)

lemma length_heappush [simp]: "length (heappush e h) = Suc (length h)"
  by (simp add: heappush_def)

lemma sorted_heappush [simp]: "sorted (map rank (heappush e h)) = sorted (map rank h)"
  by (simp add: heappush_def sorted_insort_key)

lemma distinct_map_mset: "mset xs = mset ys \<Longrightarrow> distinct (map f xs) = distinct (map f ys)"
  by (metis mset_eq_imp_distinct_iff mset_map)

lemma distinct_map_filter_append:
  "distinct (map f (xs @ ys)) \<Longrightarrow> distinct (map f (filter P xs @ ys))"
  by (induction xs) auto

lemma mset_fold_heappush: "mset (fold heappush es h) = mset es + mset h"
  by (induction es arbitrary: h) auto

lemma sorted_fold_heappush: "sorted (map rank (fold heappush es h)) = sorted (map rank h)"
  by (induction es arbitrary: h) auto

lemma evq_insert_cases:
  obtains (same) e where "map_of (live q) k = Some e" "fst e = s" "evq_insert q k s = (False, q)"
  | (new) h where "evq_score q k \<noteq> Some s"
      "evq_insert q k s =
        (map_of (live q) k = None,
         q\<lparr>heap := h, live := AList.update k (s, next_sequence q, k) (live q),
           next_sequence := Suc (next_sequence q)\<rparr>)"
      "h = (let lv = AList.update k (s, next_sequence q, k) (live q);
               h0 = heappush (s, next_sequence q, k) (heap q)
            in if length h0 > 2 * length lv then heapify (filter (is_live (map_of lv)) h0) else h0)"
proof (cases "evq_score q k = Some s")
  case True
  then obtain e where "map_of (live q) k = Some e" "fst e = s"
    by (auto simp: evq_score_def)
  with same show thesis by (simp add: evq_insert_def)
next
  case False
  then have "\<not> (case map_of (live q) k of None \<Rightarrow> False | Some e \<Rightarrow> fst e = s)"
    by (auto simp: evq_score_def split: option.splits)
  with False new show thesis by (simp add: evq_insert_def Let_def)
qed

lemma evq_insert_inv:
  assumes inv: "evq_inv q sk"
  shows "evq_inv (snd (evq_insert q k s)) sk"
proof (cases rule: evq_insert_cases [of q k s])
  case (same e)
  with inv show ?thesis by simp
next
  case (new h)
  let ?e = "(s, next_sequence q, k)"
  let ?lv = "AList.update k ?e (live q)"
  let ?h0 = "heappush ?e (heap q)"
  have fresh: "next_sequence q \<notin> entry_seq ` set (heap q @ sk)"
    using evq_invD(5) [OF inv] by fastforce
  have "distinct (map entry_seq (?e # heap q @ sk))"
    using fresh evq_invD(4) [OF inv] by (auto simp: image_Un)
  moreover have "mset (?h0 @ sk) = mset (?e # heap q @ sk)" by simp
  ultimately have seqs: "distinct (map entry_seq (?h0 @ sk))"
    using distinct_map_mset by blast
  have bound: "\<forall>e \<in> set ?h0 \<union> set sk. entry_seq e < Suc (next_sequence q)"
    using evq_invD(5) [OF inv] by (auto simp: less_Suc_eq)
  have sorted0: "sorted (map rank ?h0)" using evq_invD(6) [OF inv] by simp
  have lv: "entry_key e = k' \<and> e \<in> set ?h0 \<union> set sk" if "map_of ?lv k' = Some e" for k' e
    using that evq_invD(2,3) [OF inv, of k' e] by (auto split: if_splits)
  have wf: "dict_wf ?lv" using evq_invD(1) [OF inv] by simp
  let ?f = "filter (is_live (map_of ?lv)) ?h0"
  have h: "h = ?h0 \<or> h = heapify ?f" using new(3) by (auto simp: Let_def)
  have sub: "set h \<subseteq> set ?h0" using h by (auto simp: heapify_def)
  have df: "distinct (map entry_seq (?f @ sk))"
    using seqs by (rule distinct_map_filter_append)
  have mf: "mset (heapify ?f @ sk) = mset (?f @ sk)" by (simp add: heapify_def)
  have d: "distinct (map entry_seq (h @ sk))"
    using h seqs df distinct_map_mset [OF mf, of entry_seq] by metis
  have srt: "sorted (map rank h)" using h sorted0 by (auto simp: heapify_def)
  have keep: "e \<in> set h \<union> set sk" if "map_of ?lv k' = Some e" for k' e
    using lv [OF that] that h by (auto simp: heapify_def is_live_def)
  have q': "snd (evq_insert q k s) = q\<lparr>heap := h, live := ?lv, next_sequence := Suc (next_sequence q)\<rparr>"
    using new(2) by simp
  show ?thesis unfolding q'
  proof (rule evq_invI)
    fix k' e
    assume "map_of (live (q\<lparr>heap := h, live := ?lv, next_sequence := Suc (next_sequence q)\<rparr>)) k' = Some e"
    then have "map_of ?lv k' = Some e" by simp
    from lv [OF this] keep [OF this]
    show "entry_key e = k' \<and>
      e \<in> set (heap (q\<lparr>heap := h, live := ?lv, next_sequence := Suc (next_sequence q)\<rparr>)) \<union> set sk"
      by simp
  qed (use wf d bound sub srt in auto)
qed

lemma evq_remove_inv:
  assumes "evq_inv q sk"
  shows "evq_inv (snd (evq_remove q k)) sk"
proof (rule evq_invI)
  fix k' e
  assume "map_of (live (snd (evq_remove q k))) k' = Some e"
  then have "map_of (live q) k' = Some e" by (simp add: evq_remove_def split: if_splits)
  from evq_invD(2,3) [OF assms this]
  show "entry_key e = k' \<and> e \<in> set (heap (snd (evq_remove q k))) \<union> set sk"
    by (simp add: evq_remove_def)
qed (use evq_invD(1,4,5,6) [OF assms] in \<open>auto simp: evq_remove_def\<close>)

lemma evq_insert_score: "evq_score (snd (evq_insert q k s)) = (evq_score q)(k \<mapsto> s)"
proof (cases rule: evq_insert_cases [of q k s])
  case (same e)
  then show ?thesis by (auto simp: evq_score_def fun_eq_iff)
next
  case (new h)
  then show ?thesis by (auto simp: evq_score_def fun_eq_iff)
qed

lemma evq_insert_new: "fst (evq_insert q k s) \<longleftrightarrow> evq_score q k = None"
  by (cases rule: evq_insert_cases [of q k s]) (auto simp: evq_score_def)

lemma evq_remove_score: "evq_score (snd (evq_remove q k)) = (evq_score q)(k := None)"
  by (auto simp: evq_score_def evq_remove_def fun_eq_iff)

lemma evq_remove_found: "fst (evq_remove q k) \<longleftrightarrow> evq_score q k \<noteq> None"
  by (simp add: evq_score_def evq_remove_def)

lemma evq_score_finite: "finite (dom (evq_score q))"
proof -
  have "dom (evq_score q) = dom (map_of (live q))" by (auto simp: evq_score_def)
  then show ?thesis by (simp add: finite_dom_map_of)
qed

subsection \<open>The generator keeps the invariant\<close>

lemma distinct_map_submset:
  assumes "mset ys \<subseteq># mset xs" and "distinct (map f xs)"
  shows "distinct (map f ys)"
proof -
  have "mset (map f ys) \<subseteq># mset (map f xs)"
    using assms(1) by (simp add: image_mset_subseteq_mono)
  moreover have "count (mset (map f xs)) a \<le> 1" for a
    using assms(2) by (simp add: distinct_count_atmost_1)
  ultimately have le: "count (mset (map f ys)) a \<le> 1" for a
    by (meson order_trans mset_subset_eq_count)
  have "count (mset (map f ys)) a = (if a \<in> set (map f ys) then 1 else 0)" for a
  proof (cases "a \<in> set (map f ys)")
    case True
    then have "0 < count (mset (map f ys)) a"
      by (metis count_greater_zero_iff set_mset_mset)
    with le [of a] have "count (mset (map f ys)) a = 1" by linarith
    with True show ?thesis by simp
  next
    case False
    then have "count (mset (map f ys)) a = 0" by (metis count_eq_zero_iff set_mset_mset)
    with False show ?thesis by simp
  qed
  then show ?thesis by (simp add: distinct_count_atmost_1)
qed

lemma filter_submset: "mset (filter P xs) \<subseteq># mset xs"
  by (simp add: mset_filter)

text \<open>Moving entries between the heap and the popped ones, dropping dead ones, keeps the invariant.\<close>

lemma evq_inv_move:
  assumes inv: "evq_inv q sk"
    and sub: "mset (h' @ sk') \<subseteq># mset (heap q @ sk)"
    and keep: "\<And>e. is_live (map_of (live q)) e \<Longrightarrow> e \<in> set (heap q) \<union> set sk \<Longrightarrow> e \<in> set h' \<union> set sk'"
    and srt: "sorted (map rank h')"
  shows "evq_inv (q\<lparr>heap := h'\<rparr>) sk'"
proof (rule evq_invI)
  fix k e
  assume "map_of (live (q\<lparr>heap := h'\<rparr>)) k = Some e"
  then have lv: "map_of (live q) k = Some e" by simp
  have key: "entry_key e = k" by (rule evq_invD(2) [OF inv lv])
  have "e \<in> set h' \<union> set sk'"
    using evq_invD(3) [OF inv lv] lv key by (intro keep) (simp_all add: is_live_def)
  with key show "entry_key e = k \<and> e \<in> set (heap (q\<lparr>heap := h'\<rparr>)) \<union> set sk'" by simp
next
  fix e
  assume "e \<in> set (heap (q\<lparr>heap := h'\<rparr>)) \<union> set sk'"
  then have "e \<in> set (h' @ sk')" by simp
  then have "e \<in> set (heap q @ sk)"
    using mset_subset_eqD [OF sub] by (metis set_mset_mset)
  then show "entry_seq e < next_sequence (q\<lparr>heap := h'\<rparr>)"
    using evq_invD(5) [OF inv] by simp
next
  show "distinct (map entry_seq (heap (q\<lparr>heap := h'\<rparr>) @ sk'))"
    using distinct_map_submset [OF sub evq_invD(4) [OF inv]] by simp
qed (use evq_invD(1) [OF inv] srt in simp_all)

lemma sorted_rank_append_Cons: "sorted (map rank (pre @ e # h)) \<Longrightarrow> sorted (map rank h)"
  by (simp add: sorted_append)

lemma cand_restore_inv:
  assumes inv: "evq_inv q (skd @ sk)"
  shows "evq_inv (cand_restore q skd) sk"
proof -
  let ?f = "filter (is_live (map_of (live q))) skd"
  let ?h = "fold heappush ?f (heap q)"
  have m: "mset ?h = mset ?f + mset (heap q)" by (rule mset_fold_heappush)
  have "set ?h = set ?f \<union> set (heap q)"
    using m by (metis set_mset_mset set_mset_union)
  moreover have "mset (?h @ sk) \<subseteq># mset (heap q @ skd @ sk)"
    using m filter_submset [of "is_live (map_of (live q))" skd] by (simp add: union_commute)
  ultimately show ?thesis
    unfolding cand_restore_def using sorted_fold_heappush evq_invD(6) [OF inv]
    by (intro evq_inv_move [OF inv]) auto
qed

definition cand_wf :: "('s, 'k) cand \<Rightarrow> bool" where
  "cand_wf g \<longleftrightarrow> (finished g \<longrightarrow> skipped g = [])"

lemma cand_wf_start [simp]: "cand_wf (cand_start ex)"
  by (simp add: cand_wf_def cand_start_def)

lemma live_cand_restore [simp]: "live (cand_restore q sk) = live q"
  by (simp add: cand_restore_def)

lemma cand_close_inv:
  assumes "evq_inv q (skipped g @ sk)" and "cand_wf g"
  shows "evq_inv (fst (cand_close q g)) sk"
  using assms cand_restore_inv [of q "skipped g" sk]
  by (cases "finished g") (simp_all add: cand_close_def cand_wf_def)

lemma cand_close_facts [simp]:
  "live (fst (cand_close q g)) = live q" "finished (snd (cand_close q g))"
  "cand_wf g \<Longrightarrow> skipped (snd (cand_close q g)) = []"
  by (auto simp: cand_close_def cand_wf_def)

lemma cand_next_cases:
  assumes "cand_next q g = (r, q', g')"
  obtains (over) "finished g" "r = None" "q' = q" "g' = g"
  | (item) k pre e h where "\<not> finished g" "r = Some k" "heap q = pre @ e # h" "entry_key e = k"
      "is_live (map_of (live q)) e" "k \<notin> excluded g" "k \<notin> seen g" "passed_over (map_of (live q)) g pre"
      "q' = q\<lparr>heap := h\<rparr>"
      "g' = g\<lparr>skipped := skipped g @ filter (is_live (map_of (live q))) pre @ [e],
            seen := insert k (seen g)\<rparr>"
  | (exhausted) "\<not> finished g" "r = None" "passed_over (map_of (live q)) g (heap q)"
      "(q', g') = cand_close (q\<lparr>heap := []\<rparr>)
         (g\<lparr>skipped := skipped g @ filter (is_live (map_of (live q))) (heap q)\<rparr>)"
proof (cases "finished g")
  case True
  then have "(r, q', g') = (None, q, g)" using assms by (simp add: cand_next_def)
  with True show thesis by (intro over) auto
next
  case False
  obtain k g1 h where sc: "cand_scan (map_of (live q)) g (heap q) = (k, g1, h)"
    by (cases "cand_scan (map_of (live q)) g (heap q)") auto
  show thesis
  proof (cases k)
    case None
    note n = cand_scan_None [OF sc [unfolded None]]
    have "(r, q', g') = (None, cand_close (q\<lparr>heap := h\<rparr>) g1)"
      using sc None False assms by (simp add: cand_next_def)
    with n False show thesis by (intro exhausted) auto
  next
    case (Some x)
    from sc [unfolded Some] obtain pre e where "heap q = pre @ e # h" "entry_key e = x"
      "is_live (map_of (live q)) e" "x \<notin> excluded g" "x \<notin> seen g" "passed_over (map_of (live q)) g pre"
      "g1 = g\<lparr>skipped := skipped g @ filter (is_live (map_of (live q))) pre @ [e],
         seen := insert x (seen g)\<rparr>"
      by (rule cand_scan_Some)
    moreover have "(r, q', g') = (Some x, q\<lparr>heap := h\<rparr>, g1)"
      using sc Some False assms by (simp add: cand_next_def)
    ultimately show thesis using False by (intro item [of x pre e h]) auto
  qed
qed

lemma cand_next_inv:
  assumes inv: "evq_inv q (skipped g @ sk)" and wf: "cand_wf g"
    and nx: "cand_next q g = (r, q', g')"
  shows "evq_inv q' (skipped g' @ sk) \<and> cand_wf g' \<and> live q' = live q"
  using nx
proof (cases rule: cand_next_cases)
  case over
  with inv wf show ?thesis by simp
next
  case (item k pre e h)
  have "evq_inv (q\<lparr>heap := h\<rparr>) (skipped g' @ sk)"
  proof (rule evq_inv_move [OF inv])
    show "mset (h @ skipped g' @ sk) \<subseteq># mset (heap q @ skipped g @ sk)"
      using filter_submset [of "is_live (map_of (live q))" pre] item(3,10) by simp
    show "sorted (map rank h)"
      using evq_invD(6) [OF inv] item(3) sorted_rank_append_Cons by metis
  qed (use item(3,10) in auto)
  with item wf show ?thesis by (simp add: cand_wf_def)
next
  case exhausted
  let ?g = "g\<lparr>skipped := skipped g @ filter (is_live (map_of (live q))) (heap q)\<rparr>"
  have i: "evq_inv (q\<lparr>heap := []\<rparr>) (skipped ?g @ sk)"
    by (rule evq_inv_move [OF inv])
      (use filter_submset [of "is_live (map_of (live q))" "heap q"] in \<open>auto simp: union_commute\<close>)
  have w: "cand_wf ?g" using exhausted(1) by (simp add: cand_wf_def)
  have q': "q' = fst (cand_close (q\<lparr>heap := []\<rparr>) ?g)" and g': "g' = snd (cand_close (q\<lparr>heap := []\<rparr>) ?g)"
    using exhausted(4) by (metis fst_conv snd_conv)+
  show ?thesis unfolding q' g'
    using cand_close_inv [OF i w] cand_close_facts(3) [OF w] by (simp add: cand_wf_def)
qed

subsection \<open>Draining the generator visits the live keys in score order\<close>

text \<open>The entries a client sees: the live ones, ascending by score and then by insertion.\<close>

definition live_entries :: "('s, 'k) evq \<Rightarrow> ('s, 'k) entry list" where
  "live_entries q = filter (is_live (map_of (live q))) (heap q)"

lemma set_live_entries:
  assumes inv: "evq_inv q []"
  shows "set (live_entries q) = snd ` set (live q)"
proof (rule set_eqI)
  fix e
  have "e \<in> set (live_entries q) \<longleftrightarrow> (\<exists>k. map_of (live q) k = Some e)"
    using evq_invD(2,3) [OF inv, of _ e] by (fastforce simp: live_entries_def is_live_def)
  then show "e \<in> set (live_entries q) \<longleftrightarrow> e \<in> snd ` set (live q)"
    using in_values_iff [OF evq_invD(1) [OF inv]] by simp
qed

lemma sorted_live_entries: "evq_inv q sk \<Longrightarrow> sorted (map rank (live_entries q))"
  using evq_invD(6) [of q sk] by (simp add: live_entries_def sorted_filter)

lemma live_entry_unique:
  "is_live lv e \<Longrightarrow> is_live lv e' \<Longrightarrow> entry_key e = entry_key e' \<Longrightarrow> e = e'"
  by (simp add: is_live_def)

lemma candidates_all_drain:
  assumes "evq_inv q (skipped g)" and "\<not> finished g"
    and "\<And>e. e \<in> set (live_entries q) \<Longrightarrow> entry_key e \<notin> seen g"
  shows "fst (candidates_all q g) =
           map entry_key (filter (\<lambda>e. entry_key e \<notin> excluded g) (live_entries q)) \<and>
         evq_inv (snd (candidates_all q g)) [] \<and> live (snd (candidates_all q g)) = live q"
  using assms
proof (induction q g rule: candidates_all.induct)
  case (1 q g)
  let ?lv = "map_of (live q)"
  obtain r q' g' where nx: "cand_next q g = (r, q', g')"
    by (cases "cand_next q g") auto
  have wf: "cand_wf g" using "1.prems"(2) by (simp add: cand_wf_def)
  have inv: "evq_inv q' (skipped g')" and wf': "cand_wf g'" and lv: "live q' = live q"
    using cand_next_inv [OF _ wf nx, of "[]"] "1.prems"(1) by simp_all
  from nx show ?case
  proof (cases rule: cand_next_cases)
    case over
    with "1.prems"(2) show ?thesis by simp
  next
    case exhausted
    have none: "filter (\<lambda>e. entry_key e \<notin> excluded g) (live_entries q) = []"
      using exhausted(3) "1.prems"(3) by (auto simp: filter_empty_conv passed_over_def live_entries_def)
    have "skipped g' = []"
      using exhausted(4) wf' cand_close_facts(2) by (metis cand_wf_def snd_conv)
    moreover have "candidates_all q g = ([], q')"
      using nx exhausted(2) by (simp add: candidates_all.simps [of q g])
    ultimately show ?thesis using none inv lv by simp
  next
    case (item k pre e h)
    have pre: "filter (\<lambda>e. entry_key e \<notin> excluded g) (filter (is_live ?lv) pre) = []"
      using item(8) "1.prems"(3) item(3)
      by (auto simp: filter_empty_conv passed_over_def live_entries_def)
    have "e \<notin> set h"
      using evq_invD(4) [OF "1.prems"(1)] item(3) by auto
    then have fresh: "entry_key x \<notin> seen g'" if "x \<in> set (live_entries q')" for x
      using that item(3,4,5,9,10) "1.prems"(3) live_entry_unique [of ?lv x e]
      by (auto simp: live_entries_def)
    have nf: "\<not> finished g'" and ex: "excluded g' = excluded g" using item(1,10) by simp_all
    note ih = "1.IH" [OF nx [symmetric] item(2) refl inv nf fresh]
    have eq: "candidates_all q g = (k # fst (candidates_all q' g'), snd (candidates_all q' g'))"
      using nx item(2) by (simp add: candidates_all.simps [of q g] split: prod.splits)
    have "live_entries q = filter (is_live ?lv) pre @ e # live_entries q'"
      using item(3,5,9) by (simp add: live_entries_def)
    then show ?thesis
      using ih eq pre item(4,6) ex lv by simp
  qed
qed

text \<open>
  C27. Draining \<open>candidates\<close> yields exactly the evictable keys outside the exclusion set, in ascending
  order of score and, between equal scores, of insertion; the table of live entries is untouched and the
  queue can be scanned again.
\<close>

theorem candidates_in_score_order:
  assumes "evq_inv q []"
  shows "fst (candidates_all q (cand_start ex)) =
           map entry_key (filter (\<lambda>e. entry_key e \<notin> ex) (sort_key rank (map snd (live q))))
       \<and> live (snd (candidates_all q (cand_start ex))) = live q
       \<and> evq_inv (snd (candidates_all q (cand_start ex))) []"
proof -
  have d: "distinct (map entry_seq (live_entries q))"
    using evq_invD(4) [OF assms] by (simp add: live_entries_def distinct_map_filter)
  have "inj_on rank (set (live_entries q))"
    using d by (auto simp: inj_on_def rank_def distinct_map)
  moreover have "mset (map snd (live q)) = mset (live_entries q)"
  proof (rule set_eq_iff_mset_eq_distinct [THEN iffD1])
    have "distinct (map (entry_key \<circ> snd) (live q))"
    proof -
      have "map (entry_key \<circ> snd) (live q) = map fst (live q)"
        using evq_invD(1,2) [OF assms] by (auto simp: dict_wf_map_of [symmetric])
      then show ?thesis using evq_invD(1) [OF assms] by (simp only: dict_wf_def)
    qed
    then show "distinct (map snd (live q))"
      by (metis distinct_map map_map)
    show "distinct (live_entries q)" using d by (simp add: distinct_map)
    show "set (map snd (live q)) = set (live_entries q)"
      using set_live_entries [OF assms] by simp
  qed
  ultimately have "sort_key rank (map snd (live q)) = live_entries q"
    using sorted_live_entries [OF assms] by (metis set_mset_mset sort_key_inj_key_eq)
  then show ?thesis
    using candidates_all_drain [of q "cand_start ex"] assms by (simp add: cand_start_def)
qed

theorem candidates_in_score_order_witness:
  "fst (candidates_all
     (snd (evq_insert (snd (evq_insert (snd (evq_insert evq_init ''a'' (5::int))) ''b'' 3)) ''c'' 3))
     (cand_start {''b''})) = [''c'', ''a'']"
proof -
  let ?q = "snd (evq_insert (snd (evq_insert (snd (evq_insert evq_init ''a'' (5::int))) ''b'' 3)) ''c'' 3)"
  have inv: "evq_inv ?q []"
    by (intro evq_insert_inv evq_inv_init)
  have lv: "live ?q = [(''a'', (5, 0, ''a'')), (''b'', (3, 1, ''b'')), (''c'', (3, 2, ''c''))]"
    by (simp add: evq_insert_def evq_init_def Let_def)
  show ?thesis
    using candidates_in_score_order [OF inv, of "{''b''}"] by (simp add: lv)
qed

subsection \<open>Scans interleaved with insertions and removals\<close>

datatype ('s, 'k) scan_op = ScanNext | ScanInsert 'k 's | ScanRemove 'k

fun scan_step :: "('s::linorder, 'k) evq \<times> ('s, 'k) cand \<times> 'k list \<Rightarrow> ('s, 'k) scan_op \<Rightarrow>
    ('s, 'k) evq \<times> ('s, 'k) cand \<times> 'k list" where
  "scan_step (q, g, ys) ScanNext =
     (case cand_next q g of
        (None, q', g') \<Rightarrow> (q', g', ys)
      | (Some k, q', g') \<Rightarrow> (q', g', ys @ [k]))"
| "scan_step (q, g, ys) (ScanInsert k s) = (snd (evq_insert q k s), g, ys)"
| "scan_step (q, g, ys) (ScanRemove k) = (snd (evq_remove q k), g, ys)"

text \<open>What the same operations do to the abstract table of scores.\<close>

fun score_step :: "('k \<rightharpoonup> 's) \<Rightarrow> ('s, 'k) scan_op \<Rightarrow> ('k \<rightharpoonup> 's)" where
  "score_step m ScanNext = m"
| "score_step m (ScanInsert k s) = m(k \<mapsto> s)"
| "score_step m (ScanRemove k) = m(k := None)"

definition scan_inv :: "'k set \<Rightarrow> ('k \<rightharpoonup> 's) \<Rightarrow> ('s::linorder, 'k) evq \<times> ('s, 'k) cand \<times> 'k list \<Rightarrow> bool" where
  "scan_inv ex m c \<longleftrightarrow> (case c of (q, g, ys) \<Rightarrow>
     evq_inv q (skipped g) \<and> cand_wf g \<and> evq_score q = m \<and> excluded g = ex \<and>
     seen g = set ys \<and> distinct ys \<and> set ys \<inter> ex = {})"

lemma evq_score_live: "live q' = live q \<Longrightarrow> evq_score q' = evq_score q"
  by (simp add: evq_score_def fun_eq_iff)

lemma cand_close_frame [simp]:
  "excluded (snd (cand_close q g)) = excluded g" "seen (snd (cand_close q g)) = seen g"
  by (simp_all add: cand_close_def)

lemma scan_step_inv:
  assumes "scan_inv ex m c"
  shows "scan_inv ex (score_step m op) (scan_step c op)"
proof -
  obtain q g ys where c: "c = (q, g, ys)" by (cases c) auto
  note i = assms [unfolded c scan_inv_def, simplified]
  show ?thesis
  proof (cases op)
    case ScanNext
    obtain r q' g' where nx: "cand_next q g = (r, q', g')" by (cases "cand_next q g") auto
    have step: "evq_inv q' (skipped g')" "cand_wf g'" "live q' = live q"
      using cand_next_inv [OF _ _ nx, of "[]"] i by simp_all
    note sc = evq_score_live [OF step(3)]
    from nx show ?thesis
    proof (cases rule: cand_next_cases)
      case over
      with nx i c ScanNext show ?thesis by (simp add: scan_inv_def)
    next
      case (item k pre e h)
      have "excluded g' = ex" "seen g' = insert k (set ys)" using item(10) i by simp_all
      with nx item(2,6,7) i c ScanNext step sc show ?thesis by (simp add: scan_inv_def)
    next
      case exhausted
      have "g' = snd (cand_close (q\<lparr>heap := []\<rparr>)
          (g\<lparr>skipped := skipped g @ filter (is_live (map_of (live q))) (heap q)\<rparr>))"
        using exhausted(4) by (metis snd_conv)
      then have "excluded g' = ex" "seen g' = set ys" using i by simp_all
      with nx exhausted(2) i c ScanNext step sc show ?thesis by (simp add: scan_inv_def)
    qed
  next
    case (ScanInsert k s)
    with i c show ?thesis by (simp add: scan_inv_def evq_insert_inv evq_insert_score)
  next
    case (ScanRemove k)
    with i c show ?thesis by (simp add: scan_inv_def evq_remove_inv evq_remove_score)
  qed
qed

lemma scan_run_inv: "scan_inv ex m c \<Longrightarrow> scan_inv ex (foldl score_step m ops) (foldl scan_step c ops)"
  by (induction ops arbitrary: m c) (simp_all only: foldl.simps scan_step_inv)

text \<open>
  C28. A scan that stays open while keys are inserted, rescored and removed never yields a key twice nor
  an excluded one, and once it is closed the queue holds exactly the scores those operations left: no
  live entry that the scan had popped is lost.
\<close>

theorem interleaved_scan_safe:
  assumes "evq_inv q []"
  shows "case foldl scan_step (q, cand_start ex, []) ops of (q', g', ys) \<Rightarrow>
           evq_inv (fst (cand_close q' g')) [] \<and>
           evq_score (fst (cand_close q' g')) = foldl score_step (evq_score q) ops \<and>
           distinct ys \<and> set ys \<inter> ex = {}"
proof -
  obtain q' g' ys where c: "foldl scan_step (q, cand_start ex, []) ops = (q', g', ys)"
    by (cases "foldl scan_step (q, cand_start ex, []) ops") auto
  have "scan_inv ex (evq_score q) (q, cand_start ex, [])"
    using assms by (simp add: scan_inv_def cand_start_def cand_wf_def)
  from scan_run_inv [OF this, of ops] have i: "scan_inv ex (foldl score_step (evq_score q) ops) (q', g', ys)"
    by (simp only: c)
  have "evq_score (fst (cand_close q' g')) = evq_score q'" by (rule evq_score_live) simp
  with i cand_close_inv [of q' g' "[]"] show ?thesis by (simp add: scan_inv_def c)
qed

theorem interleaved_scan_safe_witness:
  "evq_inv (evq_init :: (int, string) evq) [] \<and>
   (case foldl scan_step (evq_init :: (int, string) evq, cand_start {}, [])
      [ScanInsert ''a'' 1, ScanNext, ScanRemove ''a'', ScanInsert ''a'' 2, ScanNext] of
    (q', g', ys) \<Rightarrow> evq_score (fst (cand_close q' g')) ''a'' = Some 2 \<and> distinct ys)"
proof -
  let ?ops = "[ScanInsert ''a'' 1, ScanNext, ScanRemove ''a'', ScanInsert ''a'' 2, ScanNext]"
  have inv: "evq_inv (evq_init :: (int, string) evq) []" by (rule evq_inv_init)
  obtain q' g' ys where c: "foldl scan_step (evq_init :: (int, string) evq, cand_start {}, []) ?ops = (q', g', ys)"
    by (cases "foldl scan_step (evq_init :: (int, string) evq, cand_start {}, []) ?ops") auto
  have sc: "foldl score_step (evq_score (evq_init :: (int, string) evq)) ?ops ''a'' = Some 2" by simp
  show ?thesis
    using interleaved_scan_safe [OF inv, where ex = "{}" and ops = ?ops] inv sc unfolding c by simp
qed



subsection \<open>The contract of an eviction index\<close>

text \<open>
  The two storage tiers keep, beside the queue, a running total of the slots its keys occupy
  (\<open>_evictable_slots\<close>): they add a key's weight when \<open>insert\<close> reports a new key and subtract it when
  \<open>remove\<close> reports that the key was there. Over any index that obeys the laws below, that total stays
  the sum of the weights of the keys in the index.
\<close>

locale eviction_index =
  fixes ins :: "'q \<Rightarrow> 'k \<Rightarrow> 's \<Rightarrow> bool \<times> 'q"
    and rem :: "'q \<Rightarrow> 'k \<Rightarrow> bool \<times> 'q"
    and score :: "'q \<Rightarrow> 'k \<Rightarrow> 's option"
  assumes finite_index: "finite (dom (score q))"
    and ins_score: "score (snd (ins q k s)) = (score q)(k \<mapsto> s)"
    and ins_new: "fst (ins q k s) \<longleftrightarrow> score q k = None"
    and rem_score: "score (snd (rem q k)) = (score q)(k := None)"
    and rem_found: "fst (rem q k) \<longleftrightarrow> score q k \<noteq> None"
begin

definition total :: "('k \<Rightarrow> int) \<Rightarrow> 'q \<Rightarrow> int" where
  "total w q = (\<Sum>k \<in> dom (score q). w k)"

lemma total_ins: "total w (snd (ins q k s)) = total w q + (if fst (ins q k s) then w k else 0)"
proof (cases "score q k = None")
  case True
  then have "k \<notin> dom (score q)" by auto
  then show ?thesis
    using True by (simp add: total_def ins_score ins_new finite_index add.commute)
next
  case False
  then have "insert k (dom (score q)) = dom (score q)" by auto
  then show ?thesis using False by (auto simp: total_def ins_score ins_new)
qed

lemma total_rem: "total w (snd (rem q k)) = total w q - (if fst (rem q k) then w k else 0)"
proof (cases "score q k = None")
  case True
  then have "(score q)(k := None) = score q" by auto
  then show ?thesis using True by (simp add: total_def rem_score rem_found)
next
  case False
  then have "k \<in> dom (score q)" by auto
  then show ?thesis
    using False by (auto simp: total_def rem_score rem_found sum_diff1 finite_index)
qed

lemma total_cong: "(\<And>k. score q k \<noteq> None \<Longrightarrow> w k = w' k) \<Longrightarrow> total w q = total w' q"
  by (auto simp: total_def intro: sum.cong)

lemma total_same_dom: "dom (score q) = dom (score q') \<Longrightarrow> total w q = total w q'"
  by (simp add: total_def)

end

interpretation evq: eviction_index evq_insert evq_remove evq_score
  by unfold_locales
    (rule evq_score_finite evq_insert_score evq_insert_new evq_remove_score evq_remove_found)+

end
