(* ===== verification/KVCR_Policy.thy ===== *)
theory KVCR_Policy
  imports KVCR_Types KVCR_Eviction "HOL-Library.Log_Nat"
begin

text \<open>
  Placement policies: the built-in ones of \<open>policy.py\<close>, and \<open>_PolicyInvoker\<close> (\<open>runtime/policy_runtime.py\<close>),
  which shields the runtime from whatever a policy returns or raises.

  A policy is code of the embedding framework, so the runtime's definitions take it as an argument: a
  record of operations over a state of its own type \<open>'p\<close>. An operation returns a value or raises, and a
  value may be one that the interface does not allow. The locale \<open>invoked_policy\<close> states what the
  runtime relies on; it is interpreted on the invoker of an arbitrary policy.
\<close>

datatype raw_score = Number score | NotFinite | NotNumber
datatype raw_decision = Decision PlacementDecision | NotDecision

record 'p policy =
  pol_eviction_score :: "BlockMeta \<Rightarrow> CacheTier \<Rightarrow> 'p \<Rightarrow> raw_score res \<times> 'p"
  pol_decide_ingest :: "BlockMeta \<Rightarrow> CacheTier \<Rightarrow> bool \<Rightarrow> string option \<Rightarrow> 'p \<Rightarrow> raw_decision res \<times> 'p"
  pol_decide_eviction :: "BlockMeta \<Rightarrow> CacheTier \<Rightarrow> 'p \<Rightarrow> raw_decision res \<times> 'p"
  pol_decide_recovery :: "BlockMeta \<Rightarrow> PlacementFailure \<Rightarrow> 'p \<Rightarrow> raw_decision res \<times> 'p"
  pol_on_ingest :: "BlockMeta \<Rightarrow> CacheTier \<Rightarrow> 'p \<Rightarrow> unit res \<times> 'p"
  pol_on_remove :: "BlockMeta \<Rightarrow> 'p \<Rightarrow> unit res \<times> 'p"
  pol_on_align_sequence :: "BlockMeta list \<Rightarrow> bool \<Rightarrow> 'p \<Rightarrow> unit res \<times> 'p"
  pol_required_tiers :: "CacheTier set"

subsection \<open>The invoker\<close>

definition eviction_score ::
  "'p policy \<Rightarrow> BlockMeta \<Rightarrow> CacheTier \<Rightarrow> score option \<Rightarrow> 'p \<Rightarrow> score option \<times> 'p" where
  "eviction_score P meta source previous_score p =
     (case pol_eviction_score P meta source p of
        (Inl _, p') \<Rightarrow> (previous_score, p')
      | (Inr (Number s), p') \<Rightarrow> (Some s, p')
      | (Inr _, p') \<Rightarrow> (previous_score, p'))"

definition decide_ingest ::
  "'p policy \<Rightarrow> BlockMeta \<Rightarrow> CacheTier \<Rightarrow> bool \<Rightarrow> string option \<Rightarrow> 'p \<Rightarrow> PlacementDecision \<times> 'p" where
  "decide_ingest P meta source required_local framework_hints p =
     (case pol_decide_ingest P meta source required_local framework_hints p of
        (Inl _, p') \<Rightarrow> ((KEEP, None), p')
      | (Inr NotDecision, p') \<Rightarrow> ((KEEP, None), p')
      | (Inr (Decision d), p') \<Rightarrow>
          if d \<notin> {(KEEP, None), (DROP, None)} then ((KEEP, None), p')
          else if required_local \<and> fst d = DROP then ((KEEP, None), p')
          else (d, p'))"

definition decide_eviction ::
  "'p policy \<Rightarrow> (CacheTier \<times> CacheTier) set \<Rightarrow> BlockMeta \<Rightarrow> CacheTier \<Rightarrow> 'p \<Rightarrow> PlacementDecision \<times> 'p" where
  "decide_eviction P allowed_moves meta source p =
     (case pol_decide_eviction P meta source p of
        (Inl _, p') \<Rightarrow> ((KEEP, None), p')
      | (Inr NotDecision, p') \<Rightarrow> ((KEEP, None), p')
      | (Inr (Decision d), p') \<Rightarrow>
          if d \<in> {(KEEP, None), (DROP, None)} then (d, p')
          else (case d of
             (MOVE_TO, Some tier) \<Rightarrow> if (source, tier) \<in> allowed_moves then (d, p') else ((KEEP, None), p')
           | _ \<Rightarrow> ((KEEP, None), p')))"

definition decide_recovery ::
  "'p policy \<Rightarrow> BlockMeta \<Rightarrow> PlacementFailure \<Rightarrow> 'p \<Rightarrow> PlacementDecision \<times> 'p" where
  "decide_recovery P meta failure p =
     (case pol_decide_recovery P meta failure p of
        (Inl _, p') \<Rightarrow> ((DROP, None), p')
      | (Inr NotDecision, p') \<Rightarrow> ((DROP, None), p')
      | (Inr (Decision d), p') \<Rightarrow> if d \<noteq> (DROP, None) then ((DROP, None), p') else (d, p'))"

definition on_ingest :: "'p policy \<Rightarrow> BlockMeta \<Rightarrow> CacheTier \<Rightarrow> 'p \<Rightarrow> 'p" where
  "on_ingest P meta source p = snd (pol_on_ingest P meta source p)"

definition on_remove :: "'p policy \<Rightarrow> BlockMeta \<Rightarrow> 'p \<Rightarrow> 'p" where
  "on_remove P meta p = snd (pol_on_remove P meta p)"

definition on_align_sequence :: "'p policy \<Rightarrow> BlockMeta list \<Rightarrow> bool \<Rightarrow> 'p \<Rightarrow> 'p" where
  "on_align_sequence P blocks use_current_time p = snd (pol_on_align_sequence P blocks use_current_time p)"

subsection \<open>Built-in policies\<close>

text \<open>The built-in policies keep no state: their hooks are those of \<open>KVCachePolicy\<close>, which do nothing.\<close>

definition FIFOPolicy :: "unit policy" where
  "FIFOPolicy =
     \<lparr>pol_eviction_score = (\<lambda>meta source p. (Inr (Number 0), p)),
      pol_decide_ingest = (\<lambda>meta source required_local hints p. (Inr (Decision (KEEP, None)), p)),
      pol_decide_eviction = (\<lambda>meta source p. (Inr (Decision (DROP, None)), p)),
      pol_decide_recovery = (\<lambda>meta failure p. (Inr (Decision (DROP, None)), p)),
      pol_on_ingest = (\<lambda>meta source p. (Inr (), p)),
      pol_on_remove = (\<lambda>meta p. (Inr (), p)),
      pol_on_align_sequence = (\<lambda>blocks now p. (Inr (), p)),
      pol_required_tiers = {}\<rparr>"

definition spill_to_g3 :: "'p policy \<Rightarrow> 'p policy" where
  "spill_to_g3 P = P\<lparr>pol_decide_eviction := (\<lambda>meta source p.
      if source = LOCAL_G2 then (Inr (Decision (MOVE_TO, Some G3)), p)
      else pol_decide_eviction P meta source p),
    pol_required_tiers := pol_required_tiers P \<union> {G3}\<rparr>"

definition G3FIFOPolicy :: "unit policy" where
  "G3FIFOPolicy = spill_to_g3 FIFOPolicy"

text \<open>
  \<open>math.ulp\<close> of a finite double: one unit in the last of its 53 bits. \<open>timestamp - position * ulp\<close> is a
  multiple of that unit with fewer than 54 bits for every position below \<open>2 ^ 52\<close>, so the float
  expression rounds nothing and its value is the rational one.
\<close>

definition floor_log2 :: "rat \<Rightarrow> int" where
  "floor_log2 x =
     (case quotient_of x of (n, d) \<Rightarrow>
        let k = int (floorlog 2 (nat n)) - int (floorlog 2 (nat d)) in
        if 2 powi k \<le> x then k else k - 1)"

definition ulp :: "rat \<Rightarrow> rat" where
  "ulp x = (if \<bar>x\<bar> < 2 powi -1022 then 2 powi -1074 else 2 powi (floor_log2 \<bar>x\<bar> - 52))"

definition lru_score :: "BlockMeta \<Rightarrow> score" where
  "lru_score meta =
     (let timestamp = (case last_access meta of Some t \<Rightarrow> t | None \<Rightarrow> -1) in
      timestamp - of_int (max (position meta) 0) * ulp timestamp)"

definition LRUPolicy :: "unit policy" where
  "LRUPolicy = FIFOPolicy\<lparr>pol_eviction_score := (\<lambda>meta source p. (Inr (Number (lru_score meta)), p))\<rparr>"

definition G3LRUPolicy :: "unit policy" where
  "G3LRUPolicy = spill_to_g3 LRUPolicy"

lemma ulp_pos: "0 < ulp x"
  by (simp add: ulp_def)

text \<open>The exponent that \<open>ulp\<close> reads off is that of the number.\<close>

lemma floor_log2_bounds:
  assumes "0 < x"
  shows "2 powi floor_log2 x \<le> x" "x < 2 powi (floor_log2 x + 1)"
proof -
  obtain n d where q: "quotient_of x = (n, d)" by (cases "quotient_of x")
  have d: "0 < d" using quotient_of_denom_pos [OF q] .
  have x: "x = of_int n / of_int d" using quotient_of_div [OF q] .
  have n: "0 < n" using assms d by (simp add: x zero_less_divide_iff)
  define a b where "a = floorlog 2 (nat n)" and "b = floorlog 2 (nat d)"
  have nat: "2 ^ (a - 1) \<le> nat n" "nat n < 2 ^ a" "2 ^ (b - 1) \<le> nat d" "nat d < 2 ^ b" "0 < a" "0 < b"
    using floorlog_bounds [of "nat n" 2] floorlog_bounds [of "nat d" 2] n d
    by (simp_all add: a_def b_def floorlog_eq_zero_iff flip: neq0_conv)
  have lift: "(2 :: rat) powi (int m - 1) \<le> of_int k \<and> of_int k < (2 :: rat) powi int m"
    if "2 ^ (m - 1) \<le> nat k" "nat k < 2 ^ m" "0 < m" "0 < k" for m k
  proof -
    have "(2 :: rat) ^ (m - 1) \<le> of_nat (nat k) \<and> of_nat (nat k) < (2 :: rat) ^ m"
      using that(1,2) by (metis of_nat_le_iff of_nat_less_iff of_nat_numeral of_nat_power)
    then show ?thesis using that(3,4) by (simp add: power_int_def nat_diff_distrib)
  qed
  note N = lift [OF nat(1,2,5) n] and D = lift [OF nat(3,4,6) d]
  let ?k = "int a - int b"
  have "x < 2 powi (?k + 1)"
  proof -
    have "rat_of_int n < 2 powi int a" using N by blast
    also have "(2 :: rat) powi int a = 2 powi (?k + 1) * 2 powi (int b - 1)" by (simp flip: power_int_add)
    also have "\<dots> \<le> 2 powi (?k + 1) * of_int d" using D by (intro mult_left_mono) auto
    finally show ?thesis using d by (simp add: x divide_less_eq)
  qed
  moreover have "2 powi (?k - 1) \<le> x"
  proof -
    have "2 powi (?k - 1) * of_int d \<le> 2 powi (?k - 1) * (2 :: rat) powi int b"
      using D by (intro mult_left_mono) auto
    also have "\<dots> = 2 powi (int a - 1)"
      using power_int_add [of "2 :: rat" "?k - 1" "int b"] by simp
    finally show ?thesis using N d by (simp add: x le_divide_eq)
  qed
  ultimately show "2 powi floor_log2 x \<le> x" "x < 2 powi (floor_log2 x + 1)"
    by (simp_all add: floor_log2_def q Let_def flip: a_def b_def)
qed

subsection \<open>What the runtime relies on\<close>

text \<open>
  The contract of the policy as the runtime sees it: decisions are ones it can carry out. A client only
  ever starts a move it was configured for, and never drops a block it must keep.
\<close>

locale invoked_policy =
  fixes ingest :: "BlockMeta \<Rightarrow> CacheTier \<Rightarrow> bool \<Rightarrow> string option \<Rightarrow> 'p \<Rightarrow> PlacementDecision \<times> 'p"
    and evict :: "(CacheTier \<times> CacheTier) set \<Rightarrow> BlockMeta \<Rightarrow> CacheTier \<Rightarrow> 'p \<Rightarrow> PlacementDecision \<times> 'p"
    and recover :: "BlockMeta \<Rightarrow> PlacementFailure \<Rightarrow> 'p \<Rightarrow> PlacementDecision \<times> 'p"
  assumes ingest_cases: "fst (ingest meta source required hints p) \<in> {(KEEP, None), (DROP, None)}"
    and ingest_required: "fst (ingest meta source True hints p) = (KEEP, None)"
    and evict_cases: "fst (evict moves meta source p) \<in>
      {(KEEP, None), (DROP, None)} \<union> {(MOVE_TO, Some t) | t. (source, t) \<in> moves}"
    and recover_drop: "fst (recover meta failure p) = (DROP, None)"
begin

lemma evict_without_moves: "fst (evict {} meta source p) \<in> {(KEEP, None), (DROP, None)}"
  using evict_cases [of "{}" meta source p] by simp

lemma evict_target:
  "fst (evict moves meta source p) = (a, Some t) \<Longrightarrow> a = MOVE_TO \<and> (source, t) \<in> moves"
  using evict_cases [of moves meta source p] by auto

end

lemma decide_ingest_cases: "fst (decide_ingest P meta source required hints p) \<in> {(KEEP, None), (DROP, None)}"
  by (auto simp: decide_ingest_def split: prod.splits sum.splits raw_decision.splits)

lemma decide_ingest_required: "fst (decide_ingest P meta source True hints p) = (KEEP, None)"
  by (auto simp: decide_ingest_def split: prod.splits sum.splits raw_decision.splits)

lemma decide_eviction_cases:
  "fst (decide_eviction P moves meta source p) \<in>
     {(KEEP, None), (DROP, None)} \<union> {(MOVE_TO, Some t) | t. (source, t) \<in> moves}"
  by (auto simp: decide_eviction_def
      split: prod.splits sum.splits raw_decision.splits PlacementAction.splits option.splits)

lemma decide_recovery_drop: "fst (decide_recovery P meta failure p) = (DROP, None)"
  by (auto simp: decide_recovery_def split: prod.splits sum.splits raw_decision.splits)

interpretation invoked: invoked_policy "decide_ingest P" "decide_eviction P" "decide_recovery P" for P
  by unfold_locales
    (rule decide_ingest_cases decide_ingest_required decide_eviction_cases decide_recovery_drop)+

subsection \<open>Properties\<close>




end
