(* ===== verification/KVCR_State.thy ===== *)
theory KVCR_State
  imports KVCR_Monad KVCR_Layout KVCR_Policy "HOL-Library.Multiset"
begin

text \<open>
  The state of a core: the records of \<open>runtime/core.py\<close>, the residencies and pools of
  \<open>backends/local_dram_pools.py\<close> and the pending operations of \<open>backends/local_dram.py\<close> and
  \<open>backends/local_disk.py\<close>.

  Residencies are objects that several tables share and that the code compares by identity, so they
  live in a store and the tables hold their addresses. A pending operation is shared in the same way;
  its address is its operation id, which the handle counters never repeat. Python sets that the code
  iterates over are lists without repetition: the code leaves their order open, the model takes
  insertion order. The fields of a residency that only cache a function of its fixed slots (\<open>_layout\<close>,
  \<open>_pool_counts\<close>, \<open>_cached_size\<close>) are that function. \<open>now\<close> is the reading of the clock during the current call.
\<close>

subsection \<open>Residencies and records\<close>

datatype LocalDramState = FILLING | READY | DISCARDING

datatype ref_cache = Sparse "(nat, TransferRef) dict" | Complete "TransferRef list"

record residency =
  slots :: "(string \<times> nat) list"
  rstate :: LocalDramState
  claim_count :: int
  retire_on_release :: bool
  key_layout :: "string list"
  pending_labels :: "string set option"
  pending_deposits :: int
  writers :: "int list option"
  remote_indices :: "nat list option"
  remote_cancelled :: bool
  refs :: ref_cache
  indices_by_label :: "(string, nat option) dict option"
  source_readers :: int

text \<open>\<open>if residency.pending_labels\<close>: a missing and an empty set are both false.\<close>

definition pending :: "residency \<Rightarrow> string set" where
  "pending r = (case pending_labels r of None \<Rightarrow> {} | Some ls \<Rightarrow> ls)"

definition res_layout :: "residency \<Rightarrow> string list" where
  "res_layout r = map fst (slots r)"

definition make_residency ::
  "(string \<times> nat) list \<Rightarrow> LocalDramState \<Rightarrow> string list option \<Rightarrow> int list option \<Rightarrow> residency" where
  "make_residency sl st layout wr =
     (let pend = (if st = FILLING then Some (fst ` set sl) else None) in
      \<lparr>slots = sl, rstate = st, claim_count = 0, retire_on_release = False,
       key_layout = (case layout of None \<Rightarrow> map fst sl | Some l \<Rightarrow> l),
       pending_labels = pend, pending_deposits = 0,
       writers = (if (case pend of None \<Rightarrow> False | Some ls \<Rightarrow> ls \<noteq> {}) \<and> (case wr of None \<Rightarrow> True | Some w \<Rightarrow> w = [])
                  then Some (replicate (length sl) 0) else wr),
       remote_indices = None, remote_cancelled = False, refs = Sparse [], indices_by_label = None,  source_readers = 0\<rparr>)"

definition settle :: "residency \<Rightarrow> residency" where
  "settle r =
     (if pending r = {} then
        (let r' = r\<lparr>pending_labels := None\<rparr> in
         if pending_deposits r' = 0 \<and> remote_indices r' = None then r'\<lparr>writers := None\<rparr> else r')
      else r)"

text \<open>\<open>pool_counts\<close>: the pools of the slots in order of first use, each with its number of slots.\<close>

fun counter_add :: "'a \<Rightarrow> ('a, nat) dict \<Rightarrow> ('a, nat) dict" where
  "counter_add x d = AList.update x (case map_of d x of None \<Rightarrow> 1 | Some n \<Rightarrow> Suc n) d"

definition counter :: "'a list \<Rightarrow> ('a, nat) dict" where
  "counter xs = fold counter_add xs []"

definition pool_counts :: "residency \<Rightarrow> (string, nat) dict" where
  "pool_counts r = counter (map (label_pool \<circ> fst) (slots r))"

definition prepare_index :: "residency \<Rightarrow> residency" where
  "prepare_index r =
     (if indices_by_label r = None
      then r\<lparr>indices_by_label := Some (prepare_label_index (res_layout r))\<rparr> else r)"

definition ready_indices :: "residency \<Rightarrow> string list \<Rightarrow> nat list option" where
  "ready_indices r requested =
     (if pending r \<inter> set requested \<noteq> {} then None
      else layout_indices (res_layout r) requested (indices_by_label r))"

definition can_wait_for_pieces :: "residency \<Rightarrow> string list \<Rightarrow> bool" where
  "can_wait_for_pieces r requested = (layout_indices (res_layout r) requested (indices_by_label r) \<noteq> None)"

record g3_residency =
  g3_id :: nat
  g3_layout :: "string list"
  g3_slots :: "nat list"
  g3_claim_count :: int

text \<open>\<open>fw_mem\<close> is the pinned framework memory of a block: its references and the pin handle.\<close>

record 'r block_record =
  fw_mem :: "(TransferRef list \<times> string) option"
  local_dram :: "'r option"
  g3 :: "g3_residency option"
  in_flight_ops :: "op_id list"
  rec_access_count :: int
  rec_last_access :: "time option"
  rec_position :: int

definition new_record :: "'r block_record" where
  "new_record = \<lparr>fw_mem = None, local_dram = None, g3 = None, in_flight_ops = [], rec_access_count = 0,
     rec_last_access = None, rec_position = -1\<rparr>"

text \<open>What a recovery record keeps of a block (\<open>_RecoveryBlock\<close>).\<close>

record recovery_block =
  rb_g2 :: "(string \<times> nat) list option"
  rb_g3 :: "(string list \<times> nat list) option"
  rb_position :: int

definition complete_residency :: "residency \<Rightarrow> bool" where
  "complete_residency r = (rstate r = READY \<and> pending r = {})"

definition project_recovery_record :: "residency block_record \<Rightarrow> recovery_block" where
  "project_recovery_record rec =
     \<lparr>rb_g2 = (case local_dram rec of None \<Rightarrow> None
        | Some r \<Rightarrow> if complete_residency r then Some (slots r) else None),
      rb_g3 = (case g3 rec of None \<Rightarrow> None | Some d \<Rightarrow> Some (g3_layout d, g3_slots d)),
      rb_position = rec_position rec\<rparr>"

definition deref_record :: "(nat \<Rightarrow> residency) \<Rightarrow> nat block_record \<Rightarrow> residency block_record" where
  "deref_record store rec =
     \<lparr>fw_mem = fw_mem rec, local_dram = map_option store (local_dram rec), g3 = g3 rec,
      in_flight_ops = in_flight_ops rec, rec_access_count = rec_access_count rec,
      rec_last_access = rec_last_access rec, rec_position = rec_position rec\<rparr>"

definition add_in_flight_op :: "op_id \<Rightarrow> 'r block_record \<Rightarrow> 'r block_record" where
  "add_in_flight_op i r = r\<lparr>in_flight_ops := add_end i (in_flight_ops r)\<rparr>"

definition discard_in_flight_op :: "op_id \<Rightarrow> 'r block_record \<Rightarrow> 'r block_record" where
  "discard_in_flight_op i r = r\<lparr>in_flight_ops := removeAll i (in_flight_ops r)\<rparr>"

subsection \<open>Pending operations\<close>

record residency_op =
  op_keys :: "key list"
  op_deadline :: time
  claim_on_ready :: bool
  request_id :: "string option"
  op_results :: "(key, OpEntryResult) dict"
  remote_fill_keys :: "key list"
  op_waiting :: "key list"
  op_sources :: "(key, TransferRef list) dict option"
  op_hints :: "string option"
  active_keys :: "key list"
  requested_layout :: "string list"
  op_key_layout :: "string list option"
  fill_sources :: "(key, CacheTier) dict"
  claimed_keys :: "key list"

record deliver_op =
  dl_keys :: "key list"
  dl_deadline :: time
  dl_destinations :: "(key, TransferRef list) dict"
  dl_results :: "(key, OpEntryResult) dict"
  dl_active :: "key list"
  dl_claimed :: "key list"

record copy_op =
  copy_id :: op_id
  deliver_op_id :: "op_id option"
  ordered_keys :: "key list"
  local_indices :: "nat list list"
  src_descriptors :: "TransferRef list"
  dst_descriptors :: "TransferRef list"
  copy_deadline :: time
  abandon_deadline :: time
  transfer_id :: "nat option"
  copy_success :: bool
  failure_latched :: bool
  uncertain :: bool
  deposit_op :: "op_id option"

datatype G3Kind = Store | Fill | Deliver

record g3_op =
  g3_op_id :: op_id
  g3_kind :: G3Kind
  g3_keys :: "key list"
  memory_descriptors :: "MemDescriptor list"
  file_descriptors :: "MemDescriptor list"
  g3_deadline :: time
  g3_reservations :: "(key \<times> g3_residency) list"
  g3_claims :: "(key \<times> nat) list"
  g3_memory_refs :: "TransferRef list"
  lifecycle_handle :: "int option"
  g3_abandon_deadline :: "time option"
  g3_uncertain :: bool
  g3_transfer_id :: "nat option"
  g3_failure_latched :: bool
  g3_success :: bool

text \<open>
  A pull from a remote source (\<open>_TargetPullOp\<close> of \<open>backends/remote_ops.py\<close>): \<open>pull_keys\<close> also has the keys
  the source is known to miss, \<open>pull_ordered\<close> those it is asked for.
\<close>

datatype TargetPullState = START_WRITE | WAITING_WRITE_DONE | WAITING_TERMINAL | QUARANTINED | FINISHED

record pull_op =
  pull_id :: op_id
  pull_keys :: "key list"
  pull_deadline :: time
  pull_state :: TargetPullState
  local_fill :: bool
  remote_ctrl_ep :: string
  pull_ordered :: "key list"
  pull_dst :: "TransferRef list list"
  pull_request_id :: "string option"
  pull_key_layout :: "string list"
  pull_success :: bool
  completed_keys :: "key list"
  probe_sent :: bool
  source_incarnation :: "string option"
  pull_uncertain :: bool
  retried :: bool

text \<open>What the core hands to the progress thread.\<close>

datatype submission = LocalCopy copy_op | G3Transfer g3_op | TargetPull pull_op | TargetMetadataRequest string

record request_hint =
  hint_source :: "string option"
  block_hashes :: "int set"
  hint_failed :: bool
  missing_keys :: "key set"

subsection \<open>A core\<close>

text \<open>
  The configuration of G3: the unit of disk allocation, the size of each file, the descriptors of the
  open files, and the check that recovery makes before a store.
\<close>

record g3_config =
  g3_slot_size :: int
  bytes_per_file :: int
  direct_fds :: "int list"
  recovery_preflight :: "(key \<Rightarrow> residency block_record \<Rightarrow> g3_residency \<Rightarrow> bool) option"

record 'p config =
  agent_name :: string
  layouts :: pool_layouts
  regions_of :: "(string, int \<times> int \<times> int) dict"
  has_framework_control :: bool
  has_inventory_sink :: bool
  has_capacity_callback :: bool
  low_watermarks :: "(string, int) dict"
  the_policy :: "'p policy"
  allowed_moves :: "(CacheTier \<times> CacheTier) set"
  operation_timeout :: time
  abandon_grace :: time
  has_local_dram :: bool
  memory_regs :: "regions \<times> regions"
  g3_cfg :: "g3_config option"
  eager_ctrl_connect :: bool
  opportunistic_query :: bool
  encode_to_router :: "(key \<Rightarrow> int) option"

text \<open>The pools of local DRAM (\<open>_LocalDramPools\<close>, with its \<open>_SourceState\<close>).\<close>

record pools =
  free_slots :: "(string, nat list) dict"
  evictable :: "(score, key) evq"
  evictable_slots :: "string \<Rightarrow> int"
  unscored :: "key list"
  capacity_eviction_key :: "key option"
  public_claims :: "(int, key \<times> nat) dict"
  next_release_handle :: int
  src_index :: "(key, nat option) dict"
  src_active :: "(key, nat) dict"
  src_operations :: int
  src_completions :: "(key list \<times> nat list \<times> bool) list"
  draining :: bool

text \<open>The requests on local DRAM (\<open>_LocalDram\<close>).\<close>

record dram =
  res_ops :: "op_id \<Rightarrow> residency_op"
  pending_residency_ops :: "op_id list"
  del_ops :: "op_id \<Rightarrow> deliver_op"
  pending_deliver_ops :: "op_id list"
  capacity_waiters :: "(op_id \<times> key) list"
  resuming :: bool

text \<open>The metadata of G3 (\<open>_G3\<close>).\<close>

record g3_state =
  g3_free_slots :: "nat list"
  g3_evictable :: "(score, key) evq"
  g3_evictable_slots :: int
  g3_unscored :: "key list"
  pending_keys :: "key list"
  g3_active :: "(op_id, g3_op) dict"
  next_g3 :: nat

text \<open>What the framework, the recovery observers and the progress thread have been given.\<close>

record outputs =
  completion_queue :: "(int \<times> (key, OpEntryResult) dict) list"
  capacity_requests :: "(string \<times> int) list list"
  inventory :: "InventoryEvent list"
  observed :: "(key \<times> recovery_block) list"
  submissions :: "submission list"

record 'p core =
  cfg :: "'p config"
  now :: time
  pol :: 'p
  block_record_map :: "(key, nat block_record) dict"
  res_store :: "nat \<Rightarrow> residency"
  next_res :: nat
  closed :: bool
  outstanding_operations :: int
  joined_completions :: "(int, key set \<times> (key, OpEntryResult) dict) dict"
  next_op_handle :: int
  next_fill_handle :: int
  pressure_pools :: "string list"
  sources_by_op :: "(op_id, (key, nat) dict) dict"
  remote_delivery_keys :: "(string option, key list) dict"
  progress_failure :: "exn option"
  pl :: pools
  ld :: dram
  gd :: g3_state
  request_hints :: "(string, request_hint) dict"
  out :: outputs

type_synonym ('p, 'a) act = "('p core, 'a) sx"

text \<open>The residency at an address, and writing to one of its fields.\<close>

definition upd_res :: "nat \<Rightarrow> (residency \<Rightarrow> residency) \<Rightarrow> 'p core \<Rightarrow> 'p core" where
  "upd_res a f s = s\<lparr>res_store := (res_store s)(a := f (res_store s a))\<rparr>"

definition upd_record :: "key \<Rightarrow> (nat block_record \<Rightarrow> nat block_record) \<Rightarrow> 'p core \<Rightarrow> 'p core" where
  "upd_record k f s =
     (case map_of (block_record_map s) k of
        None \<Rightarrow> s
      | Some r \<Rightarrow> s\<lparr>block_record_map := AList.update k (f r) (block_record_map s)\<rparr>)"

text \<open>\<open>record.local_dram if record is not None else None\<close>.\<close>

definition residency_of :: "'p core \<Rightarrow> key \<Rightarrow> nat option" where
  "residency_of s k = (case map_of (block_record_map s) k of None \<Rightarrow> None | Some r \<Rightarrow> local_dram r)"

subsection \<open>Bookkeeping of the core\<close>

text \<open>The residency observers of both tiers: the recovery record of the block as it is now.\<close>

definition observe :: "key \<Rightarrow> 'p core \<Rightarrow> 'p core" where
  "observe k s =
     (case map_of (block_record_map s) k of
        None \<Rightarrow> s
      | Some rec \<Rightarrow>
          out_update (\<lambda>ou. ou\<lparr>observed := observed ou @
            [(k, project_recovery_record (deref_record (res_store s) rec))]\<rparr>) s)"

definition get_block_record :: "key \<Rightarrow> 'p core \<Rightarrow> 'p core" where
  "get_block_record k s =
     (case map_of (block_record_map s) k of
        Some _ \<Rightarrow> s
      | None \<Rightarrow> s\<lparr>block_record_map := AList.update k new_record (block_record_map s)\<rparr>)"

definition prune_block_record :: "key \<Rightarrow> 'p core \<Rightarrow> 'p core" where
  "prune_block_record k s =
     (case map_of (block_record_map s) k of
        None \<Rightarrow> s
      | Some r \<Rightarrow>
          if fw_mem r = None \<and> local_dram r = None \<and> g3 r = None \<and> in_flight_ops r = []
          then s\<lparr>block_record_map := AList.delete k (block_record_map s)\<rparr> else s)"

definition block_meta :: "key \<Rightarrow> 'r block_record \<Rightarrow> int \<Rightarrow> BlockMeta" where
  "block_meta k r sz =
     \<lparr>block_key = k, size_bytes = sz, access_count = rec_access_count r, last_access = rec_last_access r,
      resident_tiers = (if fw_mem r \<noteq> None then {FW_G2} else {}) \<union>
        (if local_dram r \<noteq> None then {LOCAL_G2} else {}) \<union> (if g3 r \<noteq> None then {G3} else {}),
      position = rec_position r\<rparr>"

definition record_access :: "key list \<Rightarrow> ('p, unit) act" where
  "record_access ks = forS ks (\<lambda>k s.
     case map_of (block_record_map s) k of
       None \<Rightarrow> (Inl (KeyError ''block record''), s)
     | Some _ \<Rightarrow>
         (Inr (), upd_record k (\<lambda>r. r\<lparr>rec_access_count := rec_access_count r + 1,
            rec_last_access := Some (now s)\<rparr>) s))"

definition core_on_ingest :: "BlockMeta \<Rightarrow> CacheTier \<Rightarrow> 'p core \<Rightarrow> 'p core" where
  "core_on_ingest meta source s =
     (if card (resident_tiers meta \<inter> {LOCAL_G2, G3}) = 1
      then s\<lparr>pol := on_ingest (the_policy (cfg s)) meta source (pol s)\<rparr> else s)"

definition core_on_remove :: "BlockMeta \<Rightarrow> 'p core \<Rightarrow> 'p core" where
  "core_on_remove meta s =
     (if resident_tiers meta \<inter> {LOCAL_G2, G3} = {}
      then s\<lparr>pol := on_remove (the_policy (cfg s)) meta (pol s)\<rparr> else s)"

text \<open>
  The callbacks of the framework: what is sent to them is logged. A callback that raises changes
  nothing in the core.
\<close>

definition publish_inventory :: "key list \<Rightarrow> CacheTier \<Rightarrow> bool \<Rightarrow> 'p core \<Rightarrow> 'p core" where
  "publish_inventory ks tier rm s =
     (if ks = [] \<or> \<not> has_inventory_sink (cfg s) then s
      else out_update (\<lambda>ou. ou\<lparr>inventory := inventory ou @ [\<lparr>event_keys = ks, event_tier = tier, removed = rm\<rparr>]\<rparr>) s)"

definition core_update_capacity_pressure :: "(string, int) dict \<Rightarrow> 'p core \<Rightarrow> 'p core" where
  "core_update_capacity_pressure reclaimable s =
     (let marks = low_watermarks (cfg s);
          pressured = map fst (filter (\<lambda>(name, w). w \<noteq> 0 \<and>
            (case map_of reclaimable name of None \<Rightarrow> False | Some n \<Rightarrow> n < w)) marks);
          newly = filter (\<lambda>name. name \<notin> set (pressure_pools s)) pressured;
          s' = s\<lparr>pressure_pools := pressured\<rparr>
      in if newly = [] then s'
         else out_update (\<lambda>ou. ou\<lparr>capacity_requests := capacity_requests ou @
             [filter (\<lambda>(name, w). name \<in> set newly) marks]\<rparr>) s')"

definition push_completion :: "int \<Rightarrow> (key, OpEntryResult) dict \<Rightarrow> 'p core \<Rightarrow> 'p core" where
  "push_completion h entries s =
     out_update (\<lambda>ou. ou\<lparr>completion_queue := completion_queue ou @ [(h, entries)]\<rparr>) s"

definition core_complete :: "int \<Rightarrow> (key, OpEntryResult) dict \<Rightarrow> 'p core \<Rightarrow> 'p core" where
  "core_complete h entries s =
     (case map_of (joined_completions s) h of
        None \<Rightarrow> push_completion h entries s
      | Some (expected, completed) \<Rightarrow>
          let completed' = fold (\<lambda>(k, v). AList.update k v) entries completed in
          if \<not> expected \<subseteq> fst ` set completed'
          then s\<lparr>joined_completions := AList.update h (expected, completed') (joined_completions s)\<rparr>
          else push_completion h completed'
            (s\<lparr>joined_completions := AList.delete h (joined_completions s)\<rparr>))"

text \<open>\<open>_KVCRProgress.submit\<close> refuses work after the progress thread has failed.\<close>

definition progress_submit :: "submission \<Rightarrow> ('p, unit) act" where
  "progress_submit item = readS (\<lambda>s.
     case progress_failure s of
       Some e \<Rightarrow> raiseS e
     | None \<Rightarrow> modS (out_update (\<lambda>ou. ou\<lparr>submissions := submissions ou @ [item]\<rparr>)))"

definition add_block_dependencies :: "op_id \<Rightarrow> key list \<Rightarrow> bool \<Rightarrow> 'p core \<Rightarrow> 'p core" where
  "add_block_dependencies i ks new_operation s =
     fold (\<lambda>k s. upd_record k (add_in_flight_op i) (get_block_record k s)) ks
       (if new_operation then s\<lparr>outstanding_operations := outstanding_operations s + 1\<rparr> else s)"

definition remove_block_dependencies :: "op_id \<Rightarrow> key list \<Rightarrow> 'p core \<Rightarrow> 'p core" where
  "remove_block_dependencies i ks s =
     fold (\<lambda>k s. prune_block_record k (upd_record k (discard_in_flight_op i) s)) ks
       (s\<lparr>outstanding_operations := outstanding_operations s - 1\<rparr>)"

end
