(* ===== verification/KVCR_Pools.thy ===== *)
theory KVCR_Pools
  imports KVCR_State
begin

text \<open>
  \<open>_LocalDramPools\<close> (\<open>backends/local_dram_pools.py\<close>): slots, claims, readers on the progress thread, and
  eviction under capacity pressure.

  The pools call back into the rest of the core in two places. When a claim's release frees slots they
  resume the operations waiting for capacity; that is the argument \<open>rs\<close>. A capacity scan asks the core
  to decide on each candidate, which may start a move to G3; that is the argument \<open>dec\<close>.
\<close>

type_synonym 'p decider = "BlockMeta \<Rightarrow> CacheTier \<Rightarrow> time \<Rightarrow> ('p, PlacementDecision \<times> bool) act"

subsection \<open>Descriptors and sizes\<close>

definition descriptor :: "'p config \<Rightarrow> string \<Rightarrow> nat \<Rightarrow> TransferRef" where
  "descriptor c l slot =
     \<lparr>end_point_name = agent_name c, element_index = int slot, label = l, framework = False\<rparr>"

definition pool_descriptors :: "'p config \<Rightarrow> (string \<times> nat) list \<Rightarrow> TransferRef list" where
  "pool_descriptors c locations = map (\<lambda>(l, slot). descriptor c l slot) locations"

text \<open>Every label of a residency names a configured pool.\<close>

definition slot_size :: "'p config \<Rightarrow> string \<Rightarrow> int" where
  "slot_size c pool = (case map_of (regions_of c) pool of None \<Rightarrow> 0 | Some (_, _, sz) \<Rightarrow> sz)"

definition residency_size :: "'p config \<Rightarrow> residency \<Rightarrow> int" where
  "residency_size c r = sum_list (map (\<lambda>(pool, n). slot_size c pool * int n) (pool_counts r))"

definition memory_regions :: "'p config \<Rightarrow> RegionDescriptor list" where
  "memory_regions c =
     map (\<lambda>(name, address, len, sz).
       \<lparr>mem_type = ''DRAM'', device_Id = 0, addr = address, stride = 0, count = len div sz, elem_size = sz,
        region_label = name\<rparr>) (regions_of c)"

text \<open>\<open>source_refs\<close>: descriptors of the indexed pieces, remembered in the residency.\<close>

definition cache_ref :: "'p config \<Rightarrow> residency \<Rightarrow> nat \<Rightarrow> (nat, TransferRef) dict \<Rightarrow> (nat, TransferRef) dict" where
  "cache_ref c r i d =
     (if map_of d i = None then AList.update i (descriptor c (fst (slots r ! i)) (snd (slots r ! i))) d else d)"

definition source_refs :: "'p config \<Rightarrow> residency \<Rightarrow> nat list \<Rightarrow> TransferRef list \<times> residency" where
  "source_refs c r indices =
     (case refs r of
        Complete l \<Rightarrow> (map ((!) l) indices, r)
      | Sparse d \<Rightarrow>
          let d' = fold (cache_ref c r) indices d in
          (map (\<lambda>i. the (map_of d' i)) indices, r\<lparr>refs := Sparse d'\<rparr>))"

subsection \<open>Readers on the progress thread\<close>

definition mark_source_pending :: "key \<Rightarrow> 'p core \<Rightarrow> 'p core" where
  "mark_source_pending k s =
     (if has_framework_control (cfg s)
      then pl_update (\<lambda>p. p\<lparr>src_index := AList.update k None (src_index p)\<rparr>) s else s)"

definition publish_source :: "key \<Rightarrow> nat \<Rightarrow> TransferRef list option \<Rightarrow> 'p core \<Rightarrow> 'p core" where
  "publish_source k a given s =
     (let r = res_store s a in
      if \<not> has_framework_control (cfg s) \<or> pending r \<noteq> {} then s
      else
        let (l, r') = (case given of
              Some l \<Rightarrow> (l, r)
            | None \<Rightarrow>
                if refs r = Sparse [] \<or> refs r = Complete [] then (pool_descriptors (cfg s) (slots r), r)
                else source_refs (cfg s) r [0..<length (slots r)]);
            s' = upd_res a (\<lambda>_. r') s
        in if rstate r' = READY \<and> \<not> retire_on_release r'
           then pl_update (\<lambda>p. p\<lparr>src_index := AList.update k (Some a) (src_index p)\<rparr>)
                  (upd_res a (\<lambda>r. r\<lparr>refs := Complete l\<rparr>) s')
           else s')"

text \<open>
  \<open>acquire_readers\<close>: the progress thread claims published sources for a remote read. The lock may be
  taken (retry), or a source may need the caller's path.
\<close>

datatype readers = Contended | UseCaller | Readers "(nat \<times> nat \<times> TransferRef list) list"

definition published_refs :: "residency \<Rightarrow> TransferRef list" where
  "published_refs r = (case refs r of Complete l \<Rightarrow> l | Sparse d \<Rightarrow> map snd d)"

fun scan_readers ::
  "'p core \<Rightarrow> string list \<Rightarrow> bool \<Rightarrow> (nat \<times> key \<times> TransferRef list) list \<Rightarrow>
     (nat \<times> nat \<times> TransferRef list) list option" where
  "scan_readers s layout allow_missing [] = Some []"
| "scan_readers s layout allow_missing ((i, k, destination) # rest) =
     (case map_of (src_index (pl s)) k of
        None \<Rightarrow> if allow_missing then scan_readers s layout allow_missing rest else None
      | Some None \<Rightarrow> None
      | Some (Some a) \<Rightarrow>
          let r = res_store s a; requested = map label destination in
          if layout \<noteq> [] \<and> layout \<noteq> key_layout r then
            (if allow_missing then scan_readers s layout allow_missing rest else None)
          else if res_layout r = requested then
            map_option ((#) (i, a, published_refs r)) (scan_readers s layout allow_missing rest)
          else
            (case layout_indices (res_layout r) requested (indices_by_label r) of
               None \<Rightarrow> if allow_missing then scan_readers s layout allow_missing rest else None
             | Some indices \<Rightarrow>
                 map_option ((#) (i, a, map ((!) (published_refs r)) indices))
                   (scan_readers s layout allow_missing rest)))"

definition claim_reader :: "key list \<Rightarrow> nat \<times> nat \<times> TransferRef list \<Rightarrow> 'p core \<Rightarrow> 'p core" where
  "claim_reader ks claim s =
     (case claim of (i, a, _) \<Rightarrow>
        pl_update (\<lambda>p. p\<lparr>src_active := AList.update (ks ! i) a (src_active p)\<rparr>)
          (upd_res a (\<lambda>r. r\<lparr>source_readers := source_readers r + 1\<rparr>) s))"

definition acquire_readers ::
  "bool \<Rightarrow> key list \<Rightarrow> TransferRef list list \<Rightarrow> string list \<Rightarrow> bool \<Rightarrow> 'p core \<Rightarrow> readers \<times> 'p core" where
  "acquire_readers contended ks destinations layout allow_missing s =
     (if contended then (Contended, s)
      else case scan_readers s layout allow_missing (zip [0..<length ks] (zip ks destinations)) of
        None \<Rightarrow> (UseCaller, s)
      | Some claims \<Rightarrow>
          let s' = fold (claim_reader ks) claims s in
          (Readers claims,
           if claims \<noteq> [] then pl_update (\<lambda>p. p\<lparr>src_operations := src_operations p + 1\<rparr>) s' else s'))"

definition release_readers :: "key list \<Rightarrow> nat list \<Rightarrow> bool \<Rightarrow> 'p core \<Rightarrow> 'p core" where
  "release_readers ks sources succ s =
     pl_update (\<lambda>p. p\<lparr>src_operations := src_operations p - 1,
       src_completions := src_completions p @ [(ks, sources, succ)]\<rparr>) s"

subsection \<open>Evictable residencies\<close>

definition add_counts :: "(string, nat) dict \<Rightarrow> int \<Rightarrow> (string \<Rightarrow> int) \<Rightarrow> string \<Rightarrow> int" where
  "add_counts counts sign f = fold (\<lambda>(pool, n) f. f(pool := f pool + sign * int n)) counts f"

definition remove_evictable :: "key \<Rightarrow> nat \<Rightarrow> 'p core \<Rightarrow> 'p core" where
  "remove_evictable k a s =
     pl_update (\<lambda>p.
       case evq_remove (evictable p) k of (found, q) \<Rightarrow>
         p\<lparr>unscored := removeAll k (unscored p), evictable := q,
           evictable_slots :=
             (if found then add_counts (pool_counts (res_store s a)) (-1) (evictable_slots p)
              else evictable_slots p)\<rparr>) s"

definition rank_evictable :: "key \<Rightarrow> nat \<Rightarrow> score \<Rightarrow> 'p core \<Rightarrow> 'p core" where
  "rank_evictable k a sc s =
     pl_update (\<lambda>p.
       case evq_insert (evictable p) k sc of (new, q) \<Rightarrow>
         p\<lparr>unscored := removeAll k (unscored p), evictable := q,
           evictable_slots :=
             (if new then add_counts (pool_counts (res_store s a)) 1 (evictable_slots p)
              else evictable_slots p)\<rparr>) s"

definition make_evictable :: "key \<Rightarrow> ('p, unit) act" where
  "make_evictable k = readS (\<lambda>s.
     case map_of (block_record_map s) k of
       None \<Rightarrow> raiseS (RuntimeError ''missing block record'')
     | Some rec \<Rightarrow>
         (case local_dram rec of
            None \<Rightarrow> retS ()
          | Some a \<Rightarrow>
              let r = res_store s a in
              if rstate r \<noteq> READY \<or> claim_count r \<noteq> 0 \<or> retire_on_release r \<or> pending r \<noteq> {} then retS ()
              else
                (case eviction_score (the_policy (cfg s)) (block_meta k rec (residency_size (cfg s) r)) LOCAL_G2
                        (evq_score (evictable (pl s)) k) (pol s) of
                   (sc, p') \<Rightarrow>
                     thenS (modS (\<lambda>s. s\<lparr>pol := p'\<rparr>))
                       (modS (case sc of
                          None \<Rightarrow> pl_update (\<lambda>p. p\<lparr>unscored := add_end k (unscored p)\<rparr>)
                        | Some v \<Rightarrow> rank_evictable k a v)))))"

definition retry_unscored :: "('p, unit) act" where
  "retry_unscored = readS (\<lambda>s. forS (unscored (pl s)) make_evictable)"

definition reclaimable_slots :: "'p core \<Rightarrow> (string, int) dict" where
  "reclaimable_slots s =
     (let start = map (\<lambda>(name, free). (name, int (length free) + evictable_slots (pl s) name)) (free_slots (pl s)) in
      fold (\<lambda>(k, a) sl.
          if evq_score (evictable (pl s)) k \<noteq> None
          then fold (\<lambda>(pool, n) sl.
                 AList.update pool ((case map_of sl pool of None \<Rightarrow> 0 | Some v \<Rightarrow> v) - int n) sl)
               (pool_counts (res_store s a)) sl
          else sl)
        (src_active (pl s)) start)"

definition update_capacity_pressure :: "'p core \<Rightarrow> 'p core" where
  "update_capacity_pressure s =
     (if has_capacity_callback (cfg s) then core_update_capacity_pressure (reclaimable_slots s) s else s)"

definition free_locations :: "(string \<times> nat) list \<Rightarrow> 'p core \<Rightarrow> 'p core" where
  "free_locations locations s =
     pl_update (\<lambda>p. p\<lparr>free_slots := fold (\<lambda>(l, slot) f.
        AList.update (label_pool l) ((case map_of f (label_pool l) of None \<Rightarrow> [] | Some xs \<Rightarrow> xs) @ [slot]) f)
        locations (free_slots p)\<rparr>) s"

definition abandon_capacity_eviction :: "key \<Rightarrow> 'p core \<Rightarrow> 'p core" where
  "abandon_capacity_eviction k s =
     (if capacity_eviction_key (pl s) = Some k
      then pl_update (\<lambda>p. p\<lparr>capacity_eviction_key := None\<rparr>) s else s)"

subsection \<open>Claims\<close>

text \<open>
  \<open>_after_last_claim\<close>: a residency whose last claim is gone becomes evictable, or leaves when it is
  retiring. While the progress thread still reads it, nothing happens: draining the reader's
  completion comes back here.
\<close>

definition withdraw :: "key \<Rightarrow> 'p core \<Rightarrow> 'p core" where
  "withdraw k s =
     upd_record k (\<lambda>rec. rec\<lparr>local_dram := None\<rparr>)
       (pl_update (\<lambda>p. p\<lparr>src_index := AList.delete k (src_index p)\<rparr>) s)"

text \<open>\<open>_block_meta\<close> of the record a key has now.\<close>

definition meta_of :: "key \<Rightarrow> int \<Rightarrow> 'p core \<Rightarrow> BlockMeta" where
  "meta_of k sz s =
     block_meta k (case map_of (block_record_map s) k of None \<Rightarrow> new_record | Some rec \<Rightarrow> rec) sz"

definition free_retired :: "key \<Rightarrow> residency \<Rightarrow> 'p core \<Rightarrow> 'p core" where
  "free_retired k r s =
     (if rstate r = READY then
        let s1 = abandon_capacity_eviction k (free_locations (slots r) (observe k s));
            s2 = core_on_remove (meta_of k (residency_size (cfg s1) r) s1) s1
        in if pending r = {} then publish_inventory [k] LOCAL_G2 True s2 else s2
      else free_locations (slots r) s)"

definition after_last_claim :: "('p, unit) act \<Rightarrow> key \<Rightarrow> nat \<Rightarrow> ('p, bool) act" where
  "after_last_claim rs k a = readS (\<lambda>s.
     case map_of (block_record_map s) k of
       None \<Rightarrow> raiseS (KeyError ''block record'')
     | Some _ \<Rightarrow>
         let r = res_store s a in
         if source_readers r \<noteq> 0 then retS False
         else if rstate r = READY \<and> \<not> retire_on_release r then thenS (make_evictable k) (retS False)
         else
           thenS (modS (\<lambda>s. prune_block_record k (free_retired k r (withdraw k s))))
             (thenS (readS (\<lambda>s. whenS (\<not> closed s \<and> \<not> draining (pl s)) rs)) (retS True)))"

definition acquire_claim :: "key \<Rightarrow> nat \<Rightarrow> ('p, unit) act" where
  "acquire_claim k a = readS (\<lambda>s.
     if rstate (res_store s a) = DISCARDING then raiseS (RuntimeError ''cannot claim discarded local DRAM entry'')
     else modS (\<lambda>s. upd_res a (\<lambda>r. r\<lparr>claim_count := claim_count r + 1\<rparr>) (remove_evictable k a s)))"

definition release_claim :: "('p, unit) act \<Rightarrow> key \<Rightarrow> nat \<Rightarrow> ('p, unit) act" where
  "release_claim rs k a = readS (\<lambda>s.
     if residency_of s k \<noteq> Some a \<or> claim_count (res_store s a) \<le> 0
     then raiseS (RuntimeError ''invalid local DRAM claim'')
     else
       thenS (modS (upd_res a (\<lambda>r. r\<lparr>claim_count := claim_count r - 1\<rparr>)))
         (readS (\<lambda>s. if claim_count (res_store s a) = 0
            then thenS (after_last_claim rs k a) (retS ()) else retS ())))"

definition release_handle_step ::
  "('p, unit) act \<Rightarrow> int \<Rightarrow> (int \<times> bool) list \<Rightarrow> ('p, (int \<times> bool) list) act" where
  "release_handle_step rs h results = readS (\<lambda>s.
     case map_of (public_claims (pl s)) h of
       None \<Rightarrow> retS (results @ [(h, False)])
     | Some (k, a) \<Rightarrow>
         thenS (modS (pl_update (\<lambda>p. p\<lparr>public_claims := AList.delete h (public_claims p)\<rparr>)))
           (thenS (release_claim rs k a) (retS (results @ [(h, True)]))))"

definition pools_release :: "('p, unit) act \<Rightarrow> int list \<Rightarrow> ('p, (int \<times> bool) list) act" where
  "pools_release rs handles =
     bindS (foldS (release_handle_step rs) handles []) (\<lambda>results.
       thenS (modS update_capacity_pressure) (retS results))"

definition acquire_source_step ::
  "bool \<Rightarrow> key \<Rightarrow> (key, nat) dict \<Rightarrow> ('p, (key, nat) dict) act" where
  "acquire_source_step allow_filling k sources = readS (\<lambda>s.
     if map_of sources k \<noteq> None then retS sources
     else
       case residency_of s k of
         None \<Rightarrow> retS sources
       | Some a \<Rightarrow>
           let st = rstate (res_store s a) in
           if st \<noteq> READY \<and> \<not> (allow_filling \<and> st = FILLING) then retS sources
           else thenS (acquire_claim k a) (retS (AList.update k a sources)))"

definition acquire_sources :: "key list \<Rightarrow> bool \<Rightarrow> ('p, (key, nat) dict) act" where
  "acquire_sources ks allow_filling =
     bindS (foldS (acquire_source_step allow_filling) ks []) (\<lambda>sources.
       thenS (modS update_capacity_pressure) (retS sources))"

definition release_sources :: "('p, unit) act \<Rightarrow> key list \<Rightarrow> ('p, unit) act" where
  "release_sources rs ks =
     thenS (forS ks (\<lambda>k. readS (\<lambda>s.
       case residency_of s k of
         None \<Rightarrow> raiseS (RuntimeError ''local DRAM source state lost'')
       | Some a \<Rightarrow> release_claim rs k a)))
     (modS update_capacity_pressure)"

text \<open>\<open>dict.fromkeys(keys)\<close>: each key once, in order of its first appearance.\<close>

definition fromkeys :: "'a list \<Rightarrow> 'a list" where
  "fromkeys xs = fold add_end xs []"

definition retire_sources :: "key list \<Rightarrow> ('p, unit) act" where
  "retire_sources ks = forS (fromkeys ks) (\<lambda>k. readS (\<lambda>s.
     case residency_of s k of
       None \<Rightarrow> raiseS (RuntimeError ''local DRAM source cannot retire'')
     | Some a \<Rightarrow>
         if rstate (res_store s a) \<noteq> READY \<or> claim_count (res_store s a) \<le> 0
         then raiseS (RuntimeError ''local DRAM source cannot retire'')
         else modS (\<lambda>s. mark_source_pending k (upd_res a (\<lambda>r. r\<lparr>retire_on_release := True\<rparr>) s))))"

definition memory_refs :: "'p config \<Rightarrow> (string \<times> nat) list \<Rightarrow> MemoryRef list" where
  "memory_refs c locations =
     map (\<lambda>(l, slot). \<lparr>mref_end_point_name = agent_name c, mref_label = l, mref_element_index = int slot\<rparr>) locations"

definition new_public_claim :: "key \<Rightarrow> nat \<Rightarrow> (string \<times> nat) list option \<Rightarrow> ('p, OpEntryResult) act" where
  "new_public_claim k a locations =
     thenS (acquire_claim k a) (readS (\<lambda>s.
       let h = next_release_handle (pl s) in
       thenS (modS (pl_update (\<lambda>p. p\<lparr>next_release_handle := h + 1,
                public_claims := AList.update h (k, a) (public_claims p)\<rparr>)))
         (retS \<lparr>status = SUCCESS, descriptors = map_option (memory_refs (cfg s)) locations,
                release_handle = Some h\<rparr>)))"

subsection \<open>Reader completions\<close>

definition release_reader :: "key \<times> nat \<Rightarrow> ('p, unit) act" where
  "release_reader = (\<lambda>(k, a). readS (\<lambda>s.
     if source_readers (res_store s a) \<le> 0
     then raiseS (RuntimeError ''local DRAM source reader ownership lost'')
     else
       thenS (modS (upd_res a (\<lambda>r. r\<lparr>source_readers := source_readers r - 1\<rparr>)))
         (readS (\<lambda>s.
            if source_readers (res_store s a) \<noteq> 0 then retS ()
            else if map_of (src_active (pl s)) k = None then raiseS (KeyError ''active source'')
            else modS (pl_update (\<lambda>p. p\<lparr>src_active := AList.delete k (src_active p)\<rparr>))))))"

definition settle_reader :: "('p, unit) act \<Rightarrow> key \<times> nat \<Rightarrow> bool \<Rightarrow> ('p, bool) act" where
  "settle_reader rs = (\<lambda>(k, a) freed. readS (\<lambda>s.
     if residency_of s k = Some a \<and> claim_count (res_store s a) = 0
     then bindS (after_last_claim rs k a) (\<lambda>b. retS (freed \<or> b)) else retS freed))"

definition drain_completion :: "('p, unit) act \<Rightarrow> key list \<times> nat list \<times> bool \<Rightarrow> bool \<Rightarrow> ('p, bool) act" where
  "drain_completion rs = (\<lambda>(ks, sources, succ) freed.
     thenS (modS (pl_update (\<lambda>p. p\<lparr>src_completions := tl (src_completions p)\<rparr>)))
       (thenS (whenS succ (record_access ks))
         (thenS (forS (zip ks sources) release_reader)
           (foldS (settle_reader rs) (zip ks sources) freed))))"

text \<open>
  The queue is drained until it is empty. The caller's thread adds nothing to it meanwhile, so the loop
  runs over what is in the queue; a completion the progress thread adds during the loop is a later call's.
\<close>

definition drain_source_completions :: "('p, unit) act \<Rightarrow> ('p, unit) act" where
  "drain_source_completions rs = readS (\<lambda>s.
     if draining (pl s) then retS ()
     else
       bindS
         (finallyS
           (thenS (modS (pl_update (\<lambda>p. p\<lparr>draining := True\<rparr>)))
             (foldS (drain_completion rs) (src_completions (pl s)) False))
           (pl_update (\<lambda>p. p\<lparr>draining := False\<rparr>)))
         (\<lambda>freed. readS (\<lambda>s. whenS (freed \<and> \<not> closed s) rs)))"

definition pools_close :: "('p, unit) act \<Rightarrow> ('p, unit) act" where
  "pools_close rs =
     thenS (drain_source_completions rs) (modS (pl_update (\<lambda>p. p\<lparr>public_claims := []\<rparr>)))"

subsection \<open>Allocation\<close>

text \<open>
  Callers have validated the layout they pass, so each of its labels names a configured pool; the free
  list of any other pool is a \<open>KeyError\<close> in the code and empty here.
\<close>

definition free_count :: "'p core \<Rightarrow> string \<Rightarrow> nat" where
  "free_count s pool = (case map_of (free_slots (pl s)) pool of None \<Rightarrow> 0 | Some xs \<Rightarrow> length xs)"

definition take_slot :: "string \<Rightarrow> (string \<times> nat) list \<Rightarrow> ('p, (string \<times> nat) list) act" where
  "take_slot l locations = readS (\<lambda>s.
     case map_of (free_slots (pl s)) (label_pool l) of
       None \<Rightarrow> raiseS (KeyError ''pool'')
     | Some [] \<Rightarrow> raiseS (IndexError ''pop from an empty deque'')
     | Some (slot # rest) \<Rightarrow>
         thenS (modS (pl_update (\<lambda>p. p\<lparr>free_slots := AList.update (label_pool l) rest (free_slots p)\<rparr>)))
           (retS (locations @ [(l, slot)])))"

definition take_slots :: "string list \<Rightarrow> ('p, (string \<times> nat) list) act" where
  "take_slots layout = foldS take_slot layout []"

text \<open>\<open>short()\<close>: the pools that have too few free slots, counting those the chosen victims will free.\<close>

definition short :: "(string, nat) dict \<Rightarrow> (string \<Rightarrow> int) \<Rightarrow> 'p core \<Rightarrow> string list" where
  "short required freed s =
     map fst (filter (\<lambda>(name, n). int (free_count s name) + freed name < int n) required)"

type_synonym victim = "key \<times> nat \<times> int"

datatype scan_outcome = Exhausted | Pending | Selected "victim list"

text \<open>
  The \<open>while deficient\<close> loop. Its fuel bounds the number of candidates, which are distinct keys of the
  queue; a decision may change the state of the whole core between two of them.
\<close>

fun alloc_scan ::
  "nat \<Rightarrow> 'p decider \<Rightarrow> (string, nat) dict \<Rightarrow> time \<Rightarrow> (string \<Rightarrow> int) \<Rightarrow> victim list \<Rightarrow> (score, key) cand \<Rightarrow>
     'p core \<Rightarrow> (scan_outcome res \<times> (score, key) cand) \<times> 'p core" where
  "alloc_scan 0 dec required deadline freed victims g s = ((Inl OutOfFuel, g), s)"
| "alloc_scan (Suc n) dec required deadline freed victims g s =
     (let deficient = short required freed s in
      if deficient = [] then ((Inr (Selected victims), g), s)
      else
        case cand_next (evictable (pl s)) g of (found, q, g1) \<Rightarrow>
          let s1 = pl_update (\<lambda>p. p\<lparr>evictable := q\<rparr>) s in
          case found of
            None \<Rightarrow> ((Inr Exhausted, g1), s1)
          | Some k \<Rightarrow>
              (case residency_of s1 k of
                 None \<Rightarrow> ((Inl (RuntimeError ''invalid evictable local DRAM entry''), g1), s1)
               | Some a \<Rightarrow>
                   let r = res_store s1 a in
                   if rstate r \<noteq> READY \<or> claim_count r \<noteq> 0
                   then ((Inl (RuntimeError ''invalid evictable local DRAM entry''), g1), s1)
                   else if set deficient \<inter> fst ` set (pool_counts r) = {} \<or> source_readers r \<noteq> 0
                   then alloc_scan n dec required deadline freed victims g1 s1
                   else
                     let sz = residency_size (cfg s1) r in
                     case dec (meta_of k sz s1) LOCAL_G2 deadline s1 of
                       (Inl e, s2) \<Rightarrow> ((Inl e, g1), s2)
                     | (Inr (decision, eviction_pending), s2) \<Rightarrow>
                         if short required freed s2 = [] then ((Inr (Selected victims), g1), s2)
                         else if eviction_pending
                         then ((Inr Pending, g1), pl_update (\<lambda>p. p\<lparr>capacity_eviction_key := Some k\<rparr>) s2)
                         else if fst decision = KEEP
                         then alloc_scan n dec required deadline freed victims g1 s2
                         else alloc_scan n dec required deadline (add_counts (pool_counts r) 1 freed)
                                (victims @ [(k, a, sz)]) g1 s2))"

text \<open>\<open>with closing(...)\<close>: on every way out the generator puts what it passed over back.\<close>

definition scan_victims ::
  "'p decider \<Rightarrow> (string, nat) dict \<Rightarrow> key set \<Rightarrow> time \<Rightarrow> ('p, scan_outcome) act" where
  "scan_victims dec required protected deadline = (\<lambda>s.
     case alloc_scan (Suc (length (block_record_map s))) dec required deadline (\<lambda>_. 0) [] (cand_start protected) s of
       ((x, g), s') \<Rightarrow> (x, pl_update (\<lambda>p. p\<lparr>evictable := fst (cand_close (evictable p) g)\<rparr>) s'))"

text \<open>A victim leaves; \<open>record\<close> is the record of its key, which an attached residency keeps in the map.\<close>

definition evict_victim :: "victim \<Rightarrow> 'p core \<Rightarrow> 'p core" where
  "evict_victim = (\<lambda>(k, a, sz) s.
     let s1 = observe k (upd_record k (\<lambda>rec. rec\<lparr>local_dram := None\<rparr>) (remove_evictable k a s));
         s2 = prune_block_record k (core_on_remove (meta_of k sz s1) s1)
     in free_locations (slots (res_store s2 a)) s2)"

definition unindex :: "key \<Rightarrow> 'p core \<Rightarrow> 'p core" where
  "unindex k = pl_update (\<lambda>p. p\<lparr>src_index := AList.delete k (src_index p)\<rparr>)"

definition allocate_slots ::
  "'p decider \<Rightarrow> string list \<Rightarrow> key set \<Rightarrow> time \<Rightarrow> ('p, (string \<times> nat) list option \<times> key list \<times> bool) act" where
  "allocate_slots dec layout protected deadline = readS (\<lambda>s.
     let required = counter (map label_pool layout) in
     if list_all (\<lambda>(name, n). n \<le> free_count s name) required
     then bindS (take_slots layout) (\<lambda>locations. retS (Some locations, [], False))
     else if capacity_eviction_key (pl s) \<noteq> None then retS (None, [], True)
     else
       thenS retry_unscored (bindS (scan_victims dec required protected deadline) (\<lambda>outcome.
         case outcome of
           Exhausted \<Rightarrow> retS (None, [], False)
         | Pending \<Rightarrow> retS (None, [], True)
         | Selected victims \<Rightarrow> readS (\<lambda>s.
             if list_ex (\<lambda>(k, a, sz). source_readers (res_store s a) \<noteq> 0) victims then retS (None, [], False)
             else
               thenS (modS (fold (\<lambda>(k, a, sz). unindex k) victims))
                 (thenS (modS (fold evict_victim victims))
                   (bindS (take_slots layout) (\<lambda>locations.
                     retS (Some locations, map fst victims, False))))))))"

subsection \<open>Configuration and recovery\<close>

fun pool_geometry ::
  "(string \<times> int \<times> int) list \<Rightarrow> pool_layouts \<Rightarrow>
     (string, int \<times> int \<times> int) dict \<Rightarrow> (string, nat list) dict \<Rightarrow>
     ((string, int \<times> int \<times> int) dict \<times> (string, nat list) dict) res" where
  "pool_geometry ((name, address, len) # rest) ((_, sz) # sizes) rgs free =
     (if address \<le> 0 then Inl (ValueError ''local DRAM address must be positive'')
      else if len \<le> 0 then Inl (ValueError ''local DRAM pool size must be a positive integer'')
      else if len div sz = 0 then Inl (ValueError ''local DRAM pool must hold at least one block'')
      else pool_geometry rest sizes (AList.update name (address, len, sz) rgs)
             (AList.update name [0..<nat (len div sz)] free))"
| "pool_geometry _ _ rgs free = Inr (rgs, free)"

definition pools_init ::
  "(string \<times> int \<times> int) list \<Rightarrow> string \<Rightarrow> pool_layouts \<Rightarrow>
     ((string, int \<times> int \<times> int) dict \<times> pools) res" where
  "pools_init region_pools backend sizes =
     (if map fst region_pools \<noteq> map fst sizes then Inl (ValueError ''local DRAM pools must match pool_layouts'')
      else if backend = [] then Inl (ValueError ''local DRAM NIXL backend must be non-empty'')
      else bindR (pool_geometry region_pools sizes [] []) (\<lambda>(rgs, free).
        let ranges = sort (map (\<lambda>(_, address, len, _). (address, address + len)) rgs) in
        if list_ex (\<lambda>(left, right). snd left > fst right) (zip ranges (tl ranges))
        then Inl (ValueError ''local DRAM pools must not overlap'')
        else Inr (rgs,
          \<lparr>free_slots = free, evictable = evq_init, evictable_slots = (\<lambda>_. 0), unscored = [],
           capacity_eviction_key = None, public_claims = [], next_release_handle = 1, src_index = [],
           src_active = [], src_operations = 0, src_completions = [], draining = False\<rparr>)))"

text \<open>
  \<open>adopt_recovery_slots\<close> takes the rows that recovered records name; a set of (pool, slot) pairs is the
  table of occupied slots. Slots are naturals here; the code refuses negative ones at the same place.
\<close>

fun claim_recovery_slots ::
  "'p config \<Rightarrow> string set \<Rightarrow> (string \<times> nat) set \<Rightarrow> (string \<times> nat) list \<Rightarrow> (string \<times> nat) set option" where
  "claim_recovery_slots c labels occupied [] = Some occupied"
| "claim_recovery_slots c labels occupied ((l, slot) # rest) =
     (case partition_label l of (pool, separator, part) \<Rightarrow>
        case map_of (regions_of c) pool of
          None \<Rightarrow> None
        | Some (_, len, sz) \<Rightarrow>
            if (separator \<and> (reserved_part part \<or> l \<in> labels)) \<or> \<not> int slot < len div sz \<or>
               (pool, slot) \<in> occupied
            then None
            else claim_recovery_slots c (insert l labels) (insert (pool, slot) occupied) rest)"

definition adopt_residency ::
  "key \<times> nat block_record \<Rightarrow> (string \<times> nat) set \<Rightarrow> ('p, (string \<times> nat) set) act" where
  "adopt_residency = (\<lambda>(k, rec) occupied.
     case local_dram rec of
       None \<Rightarrow> retS occupied
     | Some a \<Rightarrow> readS (\<lambda>s.
         let r = res_store s a in
         if rstate r \<noteq> READY \<or> slots r = [] \<or> pending r \<noteq> {}
         then raiseS (ValueError ''invalid local DRAM recovery slots'')
         else
           case claim_recovery_slots (cfg s) {} occupied (slots r) of
             None \<Rightarrow> raiseS (ValueError ''invalid local DRAM recovery slots'')
           | Some occupied' \<Rightarrow>
               (case validate_expected_layout (layouts (cfg s)) (Some (key_layout r)) of
                  Inl e \<Rightarrow> raiseS e
                | Inr declaration \<Rightarrow>
                    if declaration \<noteq> Some (res_layout r)
                    then raiseS (ValueError ''invalid local DRAM recovery layout'')
                    else thenS (modS (\<lambda>s. publish_source k a None
                           (upd_res a (\<lambda>r. prepare_index (r\<lparr>refs := Sparse []\<rparr>)) s)))
                         (retS occupied'))))"

definition adopt_recovery_slots :: "(key, nat block_record) dict \<Rightarrow> ('p, unit) act" where
  "adopt_recovery_slots records =
     bindS (foldS adopt_residency records {}) (\<lambda>occupied.
       modS (\<lambda>s. pl_update (\<lambda>p. p\<lparr>free_slots :=
         map (\<lambda>(name, _, len, sz). (name, filter (\<lambda>slot. (name, slot) \<notin> occupied) [0..<nat (len div sz)]))
           (regions_of (cfg s))\<rparr>) s))"

definition rank_recovered :: "(key, nat block_record) dict \<Rightarrow> ('p, unit) act" where
  "rank_recovered records =
     forS records (\<lambda>(k, rec). whenS (local_dram rec \<noteq> None) (make_evictable k))"

record pools_telemetry =
  local_g2_total_slots :: int
  local_g2_free_slots :: int
  local_g2_allocated_slots :: int
  local_g2_evictable_slots :: int

definition pools_telemetry_state :: "'p core \<Rightarrow> pools_telemetry" where
  "pools_telemetry_state s =
     (let total = sum_list (map (\<lambda>(_, _, len, sz). len div sz) (regions_of (cfg s)));
          free = int (sum_list (map (length \<circ> snd) (free_slots (pl s))))
      in \<lparr>local_g2_total_slots = total, local_g2_free_slots = free,
          local_g2_allocated_slots = total - free,
          local_g2_evictable_slots = sum_list (map snd (reclaimable_slots s)) - free\<rparr>)"

end
