(* ===== verification/KVCR_PoolInv.thy ===== *)
theory KVCR_PoolInv
  imports KVCR_Pools
begin

text \<open>
  The invariant of the pools and that their operations keep it: slots are conserved, the eviction index
  holds exactly what may be evicted, published sources are attached and readable, and a residency that
  the progress thread reads stays attached.
\<close>

subsection \<open>Frames\<close>

text \<open>The invariant reads the configuration, the attached residencies, the store and the pools.\<close>

named_theorems frame "what bookkeeping operations leave alone"

definition view :: "'p core \<Rightarrow> 'p config \<times> (key \<Rightarrow> nat option) \<times> (nat \<Rightarrow> residency) \<times> nat \<times> pools" where
  "view s = (cfg s, residency_of s, res_store s, next_res s, pl s)"

lemma residency_of_cong: "block_record_map s' = block_record_map s \<Longrightarrow> residency_of s' = residency_of s"
  by (rule ext) (simp add: residency_of_def)

lemma residency_of_update:
  "residency_of (s\<lparr>block_record_map := AList.update k r m\<rparr>) =
    (\<lambda>x. if x = k then local_dram r else case map_of m x of None \<Rightarrow> None | Some r \<Rightarrow> local_dram r)"
  by (rule ext) (simp add: residency_of_def)

lemma residency_of_delete:
  "residency_of (s\<lparr>block_record_map := AList.delete k m\<rparr>) =
    (\<lambda>x. if x = k then None else case map_of m x of None \<Rightarrow> None | Some r \<Rightarrow> local_dram r)"
  by (rule ext) (simp add: residency_of_def)

lemma residency_of_upd_record:
  "(\<And>r. map_of (block_record_map s) k = Some r \<Longrightarrow> local_dram (f r) = local_dram r) \<Longrightarrow>
    residency_of (upd_record k f s) = residency_of s"
  by (rule ext) (auto simp: upd_record_def residency_of_def split: option.splits)

lemma residency_of_get_block_record [simp]: "residency_of (get_block_record k s) = residency_of s"
  by (rule ext) (auto simp: get_block_record_def residency_of_def new_record_def split: option.splits)

lemma residency_of_prune [simp]: "residency_of (prune_block_record k s) = residency_of s"
  by (rule ext) (auto simp: prune_block_record_def residency_of_def split: option.splits)

lemma view_cong:
  "cfg s' = cfg s \<Longrightarrow> residency_of s' = residency_of s \<Longrightarrow> res_store s' = res_store s \<Longrightarrow> next_res s' = next_res s \<Longrightarrow>
    pl s' = pl s \<Longrightarrow> view s' = view s"
  by (simp add: view_def)

lemma view_observe [frame]: "view (observe k s) = view s"
  by (rule view_cong) (auto simp: observe_def residency_of_def fun_eq_iff split: option.splits)

lemma record_map_fields [simp]:
  "cfg (s\<lparr>block_record_map := m\<rparr>) = cfg s" "res_store (s\<lparr>block_record_map := m\<rparr>) = res_store s"
  "next_res (s\<lparr>block_record_map := m\<rparr>) = next_res s" "pl (s\<lparr>block_record_map := m\<rparr>) = pl s"
  by simp_all

lemma view_get_block_record [frame]: "view (get_block_record k s) = view s"
  using residency_of_get_block_record [of k s]
  by (simp add: view_def) (auto simp: get_block_record_def split: option.splits)

lemma view_prune [frame]: "view (prune_block_record k s) = view s"
  using residency_of_prune [of k s]
  by (simp add: view_def) (auto simp: prune_block_record_def split: option.splits)

lemma view_upd_record: "(\<And>r. local_dram (f r) = local_dram r) \<Longrightarrow> view (upd_record k f s) = view s"
  using residency_of_upd_record [of s k f]
  by (simp add: view_def) (auto simp: upd_record_def split: option.splits)

lemma view_pol [frame]: "view (s\<lparr>pol := p\<rparr>) = view s"
  by (rule view_cong) (auto simp: residency_of_def)

lemma view_ld [frame]: "view (ld_update f s) = view s"
  by (rule view_cong) (auto simp: residency_of_def)

lemma view_gd [frame]: "view (gd_update f s) = view s"
  by (rule view_cong) (auto simp: residency_of_def)

lemma view_out [frame]: "view (out_update f s) = view s"
  by (rule view_cong) (auto simp: residency_of_def)

lemma view_fields [frame]:
  "view (s\<lparr>pressure_pools := a\<rparr>) = view s" "view (s\<lparr>joined_completions := b\<rparr>) = view s"
  "view (s\<lparr>outstanding_operations := c\<rparr>) = view s" "view (s\<lparr>next_op_handle := d\<rparr>) = view s"
  "view (s\<lparr>next_fill_handle := d\<rparr>) = view s" "view (s\<lparr>sources_by_op := e\<rparr>) = view s"
  "view (s\<lparr>remote_delivery_keys := g\<rparr>) = view s" "view (s\<lparr>request_hints := h\<rparr>) = view s"
  "view (s\<lparr>closed := i\<rparr>) = view s"
  by (auto simp: view_def residency_of_def fun_eq_iff)

lemma view_on_ingest [frame]: "view (core_on_ingest m t s) = view s"
  by (simp add: core_on_ingest_def frame)

lemma view_on_remove [frame]: "view (core_on_remove m s) = view s"
  by (simp add: core_on_remove_def frame)

lemma view_publish_inventory [frame]: "view (publish_inventory ks t b s) = view s"
  by (simp add: publish_inventory_def frame)

lemma view_capacity_pressure [frame]: "view (update_capacity_pressure s) = view s"
  by (simp add: update_capacity_pressure_def core_update_capacity_pressure_def Let_def frame)

lemma view_complete [frame]: "view (core_complete h es s) = view s"
  by (auto simp: core_complete_def push_completion_def Let_def frame split: option.splits)

lemma view_fold: "(\<And>x s. view (f x s) = view s) \<Longrightarrow> view (fold f xs s) = view s"
  by (induction xs arbitrary: s) auto

lemma view_add_dependencies [frame]: "view (add_block_dependencies i ks b s) = view s"
  unfolding add_block_dependencies_def
  by (rule trans [OF view_fold]) (auto simp: frame view_upd_record add_in_flight_op_def)

lemma view_remove_dependencies [frame]: "view (remove_block_dependencies i ks s) = view s"
  unfolding remove_block_dependencies_def
  by (rule trans [OF view_fold]) (auto simp: frame view_upd_record discard_in_flight_op_def)

lemma view_record_access_step [frame]:
  "view (upd_record k (\<lambda>r. r\<lparr>rec_access_count := x r, rec_last_access := t\<rparr>) s) = view s"
  by (rule view_upd_record) simp

text \<open>Operations that keep every invariant of the view.\<close>

lemma keeps_view_mod: "(\<And>s. view (f s) = view s) \<Longrightarrow> keeps (\<lambda>s. I (view s)) (modS f)"
  by (simp add: keeps_iff modS_def)

lemma keeps_record_access: "keeps (\<lambda>s. I (view s)) (record_access ks)"
  unfolding record_access_def
  by (rule keeps_forS) (auto simp: keeps_iff view_record_access_step split: option.splits)

lemma keeps_progress_submit: "keeps (\<lambda>s. I (view s)) (progress_submit x)"
  unfolding progress_submit_def
  by (rule keeps_read) (auto simp: modS_def raiseS_def frame split: option.splits)

subsection \<open>Counting slots\<close>

lemma map_of_counter_fold:
  "map_of (fold counter_add xs d) x =
    (if x \<in> set xs then Some (count_list xs x + (case map_of d x of None \<Rightarrow> 0 | Some n \<Rightarrow> n)) else map_of d x)"
  by (induction xs arbitrary: d) (auto split: option.splits)

lemma map_of_counter: "map_of (counter xs) x = (if x \<in> set xs then Some (count_list xs x) else None)"
  by (simp add: counter_def map_of_counter_fold)

lemma dict_wf_counter: "dict_wf (counter xs)"
proof -
  have "dict_wf d \<Longrightarrow> dict_wf (fold counter_add xs d)" for d :: "('a, nat) dict"
    by (induction xs arbitrary: d) auto
  then show ?thesis by (simp add: counter_def)
qed

lemma add_counts_Nil [simp]: "add_counts [] sign f = f"
  by (simp add: add_counts_def)

lemma add_counts_Cons [simp]: "add_counts ((x, n) # d) sign f = add_counts d sign (f(x := f x + sign * int n))"
  by (simp add: add_counts_def)

lemma add_counts_apply:
  "dict_wf d \<Longrightarrow> add_counts d sign f x = f x + sign * int (case map_of d x of None \<Rightarrow> 0 | Some n \<Rightarrow> n)"
proof (induction d arbitrary: f)
  case Nil
  then show ?case by simp
next
  case (Cons e d)
  obtain y n where e: "e = (y, n)" by (cases e)
  have wf: "dict_wf d" and y: "map_of d y = None"
    using Cons.prems by (auto simp: dict_wf_def e map_of_eq_None_iff)
  show ?case using Cons.IH [OF wf] y by (auto simp: e)
qed

definition pool_count :: "string \<Rightarrow> residency \<Rightarrow> nat" where
  "pool_count pool r = count_list (map (label_pool \<circ> fst) (slots r)) pool"

lemma map_of_pool_counts:
  "map_of (pool_counts r) pool = (if pool_count pool r = 0 then None else Some (pool_count pool r))"
  by (auto simp: pool_counts_def map_of_counter pool_count_def count_list_0_iff)

lemma add_counts_pool_counts:
  "add_counts (pool_counts r) sign f pool = f pool + sign * int (pool_count pool r)"
  using add_counts_apply [OF dict_wf_counter [of "map (label_pool \<circ> fst) (slots r)"], of sign f pool]
  by (simp add: pool_counts_def [symmetric] map_of_pool_counts)

lemma keys_pool_counts: "fst ` set (pool_counts r) = {pool. 0 < pool_count pool r}"
proof -
  have "fst ` set (pool_counts r) = {x. map_of (pool_counts r) x \<noteq> None}"
    by (auto simp: map_of_eq_None_iff)
  then show ?thesis by (auto simp: map_of_pool_counts)
qed

subsection \<open>The invariant\<close>

definition slot_pairs :: "(string \<times> nat) list \<Rightarrow> (string \<times> nat) multiset" where
  "slot_pairs sl = mset (map (\<lambda>(l, x). (label_pool l, x)) sl)"

definition pool_mset :: "(string \<Rightarrow> nat list option) \<Rightarrow> (string \<times> nat) multiset" where
  "pool_mset f = (\<Sum>pool \<in> dom f. image_mset (Pair pool) (mset (the (f pool))))"

definition all_slots :: "'p config \<Rightarrow> (string \<times> nat) multiset" where
  "all_slots c = pool_mset (\<lambda>name. map_option (\<lambda>(_, len, sz). [0..<nat (len div sz)]) (map_of (regions_of c) name))"

definition held :: "(key \<Rightarrow> nat option) \<Rightarrow> (nat \<Rightarrow> residency) \<Rightarrow> (string \<times> nat) multiset" where
  "held rof st = (\<Sum>k \<in> dom rof. slot_pairs (slots (st (the (rof k)))))"

definition evictable_now :: "residency \<Rightarrow> bool" where
  "evictable_now r = (rstate r = READY \<and> claim_count r = 0 \<and> \<not> retire_on_release r \<and> pending r = {})"

definition readable :: "residency \<Rightarrow> bool" where
  "readable r = (rstate r = READY \<and> \<not> retire_on_release r \<and> pending r = {})"

definition attached_ok :: "(key \<Rightarrow> nat option) \<Rightarrow> (nat \<Rightarrow> residency) \<Rightarrow> nat \<Rightarrow> bool" where
  "attached_ok rof st nr \<longleftrightarrow>
     finite (dom rof) \<and> (\<forall>k a. rof k = Some a \<longrightarrow> a < nr \<and> 0 \<le> claim_count (st a)) \<and>
     (\<forall>k k' a. rof k = Some a \<longrightarrow> rof k' = Some a \<longrightarrow> k = k')"

definition indexed :: "pools \<Rightarrow> key \<Rightarrow> bool" where
  "indexed p k \<longleftrightarrow> evq_score (evictable p) k \<noteq> None \<or> k \<in> set (unscored p)"

definition weight :: "(key \<Rightarrow> nat option) \<Rightarrow> (nat \<Rightarrow> residency) \<Rightarrow> string \<Rightarrow> key \<Rightarrow> int" where
  "weight rof st pool k = (case rof k of None \<Rightarrow> 0 | Some a \<Rightarrow> int (pool_count pool (st a)))"

definition index_ok :: "(score, key) entry list \<Rightarrow> (key \<Rightarrow> nat option) \<Rightarrow> (nat \<Rightarrow> residency) \<Rightarrow> pools \<Rightarrow> bool" where
  "index_ok sk rof st p \<longleftrightarrow>
     evq_inv (evictable p) sk \<and>
     (\<forall>k. indexed p k \<longrightarrow> (\<exists>a. rof k = Some a \<and> evictable_now (st a))) \<and>
     (\<forall>pool. evictable_slots p pool = evq.total (weight rof st pool) (evictable p))"

definition sources_ok :: "bool \<Rightarrow> (key \<Rightarrow> nat option) \<Rightarrow> (nat \<Rightarrow> residency) \<Rightarrow> pools \<Rightarrow> bool" where
  "sources_ok control rof st p \<longleftrightarrow>
     (\<forall>k a. map_of (src_index p) k = Some (Some a) \<longrightarrow> rof k = Some a \<and> readable (st a) \<and> control) \<and>
     (\<forall>a. 0 \<le> source_readers (st a) \<and> (0 < source_readers (st a) \<longrightarrow> (\<exists>k. rof k = Some a)))"

text \<open>
  \<open>C\<close> restricts the configuration, \<open>hand\<close> holds slots taken from a free list and not yet attached to a residency, \<open>sk\<close> the entries an open
  scan of the eviction queue has passed over.
\<close>

definition pool_inv ::
  "('p config \<Rightarrow> bool) \<Rightarrow> (string \<times> nat) list \<Rightarrow> (score, key) entry list \<Rightarrow>
     'p config \<times> (key \<Rightarrow> nat option) \<times> (nat \<Rightarrow> residency) \<times> nat \<times> pools \<Rightarrow> bool" where
  "pool_inv C hand sk = (\<lambda>(c, rof, st, nr, p).
     C c \<and> attached_ok rof st nr \<and> index_ok sk rof st p \<and> sources_ok (has_framework_control c) rof st p \<and>
     pool_mset (map_of (free_slots p)) + held rof st + slot_pairs hand = all_slots c)"

definition pool_ok :: "('p config \<Rightarrow> bool) \<Rightarrow> (string \<times> nat) list \<Rightarrow> (score, key) entry list \<Rightarrow> 'p core \<Rightarrow> bool" where
  "pool_ok C hand sk s = pool_inv C hand sk (view s)"

lemma pool_ok_view: "view s' = view s \<Longrightarrow> pool_ok C hand sk s' = pool_ok C hand sk s"
  by (simp add: pool_ok_def)

lemmas pool_ok_frame [simp] = frame [THEN pool_ok_view]

lemma pool_okD:
  assumes "pool_ok C hand sk s"
  shows "attached_ok (residency_of s) (res_store s) (next_res s)"
    and "index_ok sk (residency_of s) (res_store s) (pl s)"
    and "sources_ok (has_framework_control (cfg s)) (residency_of s) (res_store s) (pl s)"
    and "pool_mset (map_of (free_slots (pl s))) + held (residency_of s) (res_store s) + slot_pairs hand
           = all_slots (cfg s)"
    and "C (cfg s)"
  using assms by (simp_all add: pool_ok_def pool_inv_def view_def)

lemma pool_okI:
  assumes "attached_ok (residency_of s) (res_store s) (next_res s)"
    and "index_ok sk (residency_of s) (res_store s) (pl s)"
    and "sources_ok (has_framework_control (cfg s)) (residency_of s) (res_store s) (pl s)"
    and "pool_mset (map_of (free_slots (pl s))) + held (residency_of s) (res_store s) + slot_pairs hand
           = all_slots (cfg s)"
    and "C (cfg s)"
  shows "pool_ok C hand sk s"
  using assms by (simp add: pool_ok_def pool_inv_def view_def)

lemma finite_residency_of [simp]: "finite (dom (residency_of s))"
proof (rule finite_subset [OF _ finite_dom_map_of [of "block_record_map s"]])
  show "dom (residency_of s) \<subseteq> dom (map_of (block_record_map s))"
    by (auto simp: residency_of_def split: option.splits)
qed

lemma slot_pairs_append [simp]: "slot_pairs (xs @ ys) = slot_pairs xs + slot_pairs ys"
  by (simp add: slot_pairs_def)

lemma slot_pairs_Nil [simp]: "slot_pairs [] = {#}"
  by (simp add: slot_pairs_def)

lemma slot_pairs_Cons [simp]: "slot_pairs ((l, x) # sl) = add_mset (label_pool l, x) (slot_pairs sl)"
  by (simp add: slot_pairs_def)

lemma pool_mset_remove:
  assumes "finite (dom f)" and "f k = Some xs"
  shows "pool_mset f = image_mset (Pair k) (mset xs) + pool_mset (f(k := None))"
proof -
  have "pool_mset (f(k := None)) = (\<Sum>pool \<in> dom f - {k}. image_mset (Pair pool) (mset (the (f pool))))"
    unfolding pool_mset_def by (rule sum.cong) auto
  then show ?thesis
    using sum.remove [OF assms(1), of k "\<lambda>pool. image_mset (Pair pool) (mset (the (f pool)))"] assms(2)
    by (simp add: pool_mset_def domI)
qed

lemma pool_mset_update:
  assumes "finite (dom f)"
  shows "pool_mset (f(k \<mapsto> xs)) = image_mset (Pair k) (mset xs) + pool_mset (f(k := None))"
  using pool_mset_remove [of "f(k \<mapsto> xs)" k xs] assms by simp

lemma held_remove:
  assumes "finite (dom rof)" and "rof k = Some a"
  shows "held rof st = slot_pairs (slots (st a)) + held (rof(k := None)) st"
proof -
  have "held (rof(k := None)) st = (\<Sum>x \<in> dom rof - {k}. slot_pairs (slots (st (the (rof x)))))"
    unfolding held_def by (rule sum.cong) auto
  then show ?thesis
    using sum.remove [OF assms(1), of k "\<lambda>x. slot_pairs (slots (st (the (rof x))))"] assms(2)
    by (simp add: held_def domI)
qed

lemma held_cong: "(\<And>k a. rof k = Some a \<Longrightarrow> slots (st' a) = slots (st a)) \<Longrightarrow> held rof st' = held rof st"
  unfolding held_def by (rule sum.cong) auto

lemma pool_ok_facts:
  assumes "pool_ok C hand sk s"
  shows pool_ok_attached: "residency_of s k = Some a \<Longrightarrow> a < next_res s"
    and pool_ok_claims: "residency_of s k = Some a \<Longrightarrow> 0 \<le> claim_count (res_store s a)"
    and pool_ok_inj: "residency_of s k = Some a \<Longrightarrow> residency_of s k' = Some a \<Longrightarrow> k = k'"
    and pool_ok_indexed: "indexed (pl s) k \<Longrightarrow> \<exists>a. residency_of s k = Some a \<and> evictable_now (res_store s a)"
    and pool_ok_published: "map_of (src_index (pl s)) k = Some (Some a) \<Longrightarrow> residency_of s k = Some a \<and> readable (res_store s a) \<and> has_framework_control (cfg s)"
    and pool_ok_readers: "0 \<le> source_readers (res_store s a)"
    and pool_ok_read: "0 < source_readers (res_store s a) \<Longrightarrow> \<exists>k. residency_of s k = Some a"
    and pool_ok_queue: "evq_inv (evictable (pl s)) sk"
    and pool_ok_total: "evictable_slots (pl s) pool = evq.total (weight (residency_of s) (res_store s) pool) (evictable (pl s))"
  using pool_okD [OF assms] by (auto simp: attached_ok_def index_ok_def sources_ok_def)

lemma pool_ok_not_indexed:
  "pool_ok C hand sk s \<Longrightarrow> residency_of s k = Some a \<Longrightarrow> \<not> evictable_now (res_store s a) \<Longrightarrow> \<not> indexed (pl s) k"
  using pool_ok_indexed by fastforce

subsection \<open>Writing to the store and to the pools\<close>

lemma upd_res_fields [simp]:
  "residency_of (upd_res a f s) = residency_of s" "cfg (upd_res a f s) = cfg s" "pl (upd_res a f s) = pl s"
  "next_res (upd_res a f s) = next_res s" "res_store (upd_res a f s) = (res_store s)(a := f (res_store s a))"
  "block_record_map (upd_res a f s) = block_record_map s"
  by (auto simp: upd_res_def residency_of_def fun_eq_iff)

lemma pl_update_fields [simp]:
  "residency_of (pl_update g s) = residency_of s"
  by (auto simp: residency_of_def fun_eq_iff)

lemma weight_cong: "(\<And>a. rof k = Some a \<Longrightarrow> slots (st' a) = slots (st a)) \<Longrightarrow> weight rof st' pool k = weight rof st pool k"
  by (auto simp: weight_def pool_count_def split: option.splits)

text \<open>A write that leaves slots and readers of a residency alone.\<close>

lemma pool_ok_upd_res:
  assumes ok: "pool_ok C hand sk s"
    and sl: "slots (f (res_store s a)) = slots (res_store s a)"
    and rd: "source_readers (f (res_store s a)) = source_readers (res_store s a)"
    and cl: "\<And>k. residency_of s k = Some a \<Longrightarrow> 0 \<le> claim_count (f (res_store s a))"
    and ix: "\<And>k. residency_of s k = Some a \<Longrightarrow> indexed (pl s) k \<Longrightarrow> evictable_now (f (res_store s a))"
    and rb: "\<And>k. residency_of s k = Some a \<Longrightarrow> map_of (src_index (pl s)) k = Some (Some a) \<Longrightarrow> readable (f (res_store s a))"
  shows "pool_ok C hand sk (upd_res a f s)"
proof (rule pool_okI)
  let ?st = "(res_store s)(a := f (res_store s a))"
  note D = pool_okD [OF ok]
  have slots: "slots (?st b) = slots (res_store s b)" for b using sl by simp
  show "attached_ok (residency_of (upd_res a f s)) (res_store (upd_res a f s)) (next_res (upd_res a f s))"
    using D(1) cl by (simp add: attached_ok_def)
  have w: "weight (residency_of s) ?st pool = weight (residency_of s) (res_store s) pool" for pool
    by (rule ext) (rule weight_cong, simp add: sl)
  show "index_ok sk (residency_of (upd_res a f s)) (res_store (upd_res a f s)) (pl (upd_res a f s))"
  proof -
    have "\<exists>b. residency_of s k = Some b \<and> evictable_now (?st b)" if k: "indexed (pl s) k" for k
    proof -
      obtain b where b: "residency_of s k = Some b" "evictable_now (res_store s b)"
        using pool_ok_indexed [OF ok k] by blast
      then show ?thesis using ix [OF _ k] by (cases "b = a") auto
    qed
    then show ?thesis using D(2) by (simp add: index_ok_def w)
  qed
  show "sources_ok (has_framework_control (cfg (upd_res a f s))) (residency_of (upd_res a f s)) (res_store (upd_res a f s)) (pl (upd_res a f s))"
    using D(3) rb rd unfolding sources_ok_def by simp
  show "pool_mset (map_of (free_slots (pl (upd_res a f s)))) + held (residency_of (upd_res a f s)) (res_store (upd_res a f s))
      + slot_pairs hand = all_slots (cfg (upd_res a f s))"
    using D(4) held_cong [of "residency_of s" ?st "res_store s"] slots by simp
  show "C (cfg (upd_res a f s))" using D(5) by simp
qed

text \<open>A write that changes none of the fields the invariant reads.\<close>

definition inert :: "(residency \<Rightarrow> residency) \<Rightarrow> bool" where
  "inert f \<longleftrightarrow> (\<forall>r. slots (f r) = slots r \<and> source_readers (f r) = source_readers r \<and> claim_count (f r) = claim_count r \<and>
     rstate (f r) = rstate r \<and> retire_on_release (f r) = retire_on_release r \<and> pending (f r) = pending r)"

lemma pool_ok_inert:
  assumes f: "inert f" and ok: "pool_ok C hand sk s"
  shows "pool_ok C hand sk (upd_res a f s)"
proof (rule pool_ok_upd_res [OF ok])
  have e: "evictable_now (f r) = evictable_now r" "readable (f r) = readable r" for r
    using f by (simp_all add: inert_def evictable_now_def readable_def)
  show "0 \<le> claim_count (f (res_store s a))" if "residency_of s k = Some a" for k
    using pool_ok_claims [OF ok that] f by (simp add: inert_def)
  show "evictable_now (f (res_store s a))" if "residency_of s k = Some a" "indexed (pl s) k" for k
    using pool_ok_indexed [OF ok that(2)] that(1) by (auto simp: e)
  show "readable (f (res_store s a))" if "map_of (src_index (pl s)) k = Some (Some a)" for k
    using pool_ok_published [OF ok that] by (auto simp: e)
qed (use f in \<open>auto simp: inert_def\<close>)

lemma pool_ok_pl_same:
  assumes "\<And>p. free_slots (g p) = free_slots p" "\<And>p. evictable (g p) = evictable p"
    "\<And>p. evictable_slots (g p) = evictable_slots p" "\<And>p. unscored (g p) = unscored p" "\<And>p. src_index (g p) = src_index p"
  shows "pool_ok C hand sk (pl_update g s) = pool_ok C hand sk s"
proof -
  have "index_ok sk rof st (g p) = index_ok sk rof st p" "sources_ok b rof st (g p) = sources_ok b rof st p" for b rof st p
    using assms by (simp_all add: index_ok_def indexed_def sources_ok_def)
  then show ?thesis using assms by (simp add: pool_ok_def pool_inv_def view_def)
qed

lemma pool_ok_src_index:
  assumes ok: "pool_ok C hand sk s"
    and new: "\<And>k a. map_of (h (src_index (pl s))) k = Some (Some a) \<Longrightarrow>
      residency_of s k = Some a \<and> readable (res_store s a) \<and> has_framework_control (cfg s)"
  shows "pool_ok C hand sk (pl_update (\<lambda>p. p\<lparr>src_index := h (src_index p)\<rparr>) s)"
  using ok new by (simp add: pool_ok_def pool_inv_def view_def index_ok_def indexed_def sources_ok_def)

lemma pool_ok_mark_pending:
  assumes "pool_ok C hand sk s"
  shows "pool_ok C hand sk (mark_source_pending k s)"
proof -
  have "pool_ok C hand sk (pl_update (\<lambda>p. p\<lparr>src_index := AList.update k None (src_index p)\<rparr>) s)"
    by (rule pool_ok_src_index [OF assms, of "AList.update k None"])
      (simp add: pool_ok_published [OF assms] split: if_splits)
  then show ?thesis using assms by (simp add: mark_source_pending_def)
qed

lemma pool_ok_unindex:
  assumes "pool_ok C hand sk s"
  shows "pool_ok C hand sk (unindex k s)"
  unfolding unindex_def
  by (rule pool_ok_src_index [OF assms, of "AList.delete k"])
    (simp add: pool_ok_published [OF assms] split: if_splits)

subsection \<open>The eviction index\<close>

lemma evq_total_insert:
  "evq.total w (snd (evq_insert q k v)) = evq.total w q + (if evq_score q k = None then w k else 0)"
  using evq.total_ins [of w q k v] by (simp add: evq.ins_new)

lemma evq_total_remove:
  "evq.total w (snd (evq_remove q k)) = evq.total w q - (if evq_score q k \<noteq> None then w k else 0)"
  using evq.total_rem [of w q k] by (simp add: evq.rem_found)

lemma remove_evictable_pl:
  "pl (remove_evictable k a s) = (pl s)\<lparr>unscored := removeAll k (unscored (pl s)),
      evictable := snd (evq_remove (evictable (pl s)) k),
      evictable_slots := (if evq_score (evictable (pl s)) k \<noteq> None
        then add_counts (pool_counts (res_store s a)) (-1) (evictable_slots (pl s)) else evictable_slots (pl s))\<rparr>"
  using evq_remove_found [of "evictable (pl s)" k]
  by (cases "evq_remove (evictable (pl s)) k") (auto simp: remove_evictable_def)

lemma remove_evictable_fields [simp]:
  "cfg (remove_evictable k a s) = cfg s" "residency_of (remove_evictable k a s) = residency_of s"
  "res_store (remove_evictable k a s) = res_store s" "next_res (remove_evictable k a s) = next_res s"
  "block_record_map (remove_evictable k a s) = block_record_map s"
  by (simp_all add: remove_evictable_def)

lemma indexed_remove_evictable: "indexed (pl (remove_evictable k a s)) x \<longleftrightarrow> indexed (pl s) x \<and> x \<noteq> k"
  by (auto simp: indexed_def remove_evictable_pl evq_remove_score)

lemma pool_ok_remove_evictable:
  assumes ok: "pool_ok C hand sk s" and att: "residency_of s k = Some a"
  shows "pool_ok C hand sk (remove_evictable k a s)"
proof (rule pool_okI)
  note D = pool_okD [OF ok]
  let ?s = "remove_evictable k a s"
  show "attached_ok (residency_of ?s) (res_store ?s) (next_res ?s)" "C (cfg ?s)" using D(1,5) by simp_all
  show "sources_ok (has_framework_control (cfg ?s)) (residency_of ?s) (res_store ?s) (pl ?s)"
    using D(3) by (simp add: sources_ok_def remove_evictable_pl)
  show "pool_mset (map_of (free_slots (pl ?s))) + held (residency_of ?s) (res_store ?s) + slot_pairs hand = all_slots (cfg ?s)"
    using D(4) by (simp add: remove_evictable_pl)
  have "evq_inv (evictable (pl ?s)) sk"
    using evq_remove_inv [OF pool_ok_queue [OF ok]] by (simp add: remove_evictable_pl)
  moreover have "evictable_slots (pl ?s) pool = evq.total (weight (residency_of ?s) (res_store ?s) pool) (evictable (pl ?s))" for pool
    using pool_ok_total [OF ok, of pool] att
    by (simp add: remove_evictable_pl evq_total_remove add_counts_pool_counts weight_def)
  moreover have "\<exists>b. residency_of ?s x = Some b \<and> evictable_now (res_store ?s b)" if "indexed (pl ?s) x" for x
    using that pool_ok_indexed [OF ok] by (simp add: indexed_remove_evictable)
  ultimately show "index_ok sk (residency_of ?s) (res_store ?s) (pl ?s)" by (simp add: index_ok_def)
qed

lemma rank_evictable_pl:
  "pl (rank_evictable k a v s) = (pl s)\<lparr>unscored := removeAll k (unscored (pl s)),
      evictable := snd (evq_insert (evictable (pl s)) k v),
      evictable_slots := (if evq_score (evictable (pl s)) k = None
        then add_counts (pool_counts (res_store s a)) 1 (evictable_slots (pl s)) else evictable_slots (pl s))\<rparr>"
  using evq_insert_new [of "evictable (pl s)" k v]
  by (cases "evq_insert (evictable (pl s)) k v") (auto simp: rank_evictable_def)

lemma rank_evictable_fields [simp]:
  "cfg (rank_evictable k a v s) = cfg s" "residency_of (rank_evictable k a v s) = residency_of s"
  "res_store (rank_evictable k a v s) = res_store s" "next_res (rank_evictable k a v s) = next_res s"
  by (simp_all add: rank_evictable_def)

lemma pool_ok_rank_evictable:
  assumes ok: "pool_ok C hand sk s" and att: "residency_of s k = Some a" and ev: "evictable_now (res_store s a)"
  shows "pool_ok C hand sk (rank_evictable k a v s)"
proof (rule pool_okI)
  note D = pool_okD [OF ok]
  let ?s = "rank_evictable k a v s"
  show "attached_ok (residency_of ?s) (res_store ?s) (next_res ?s)" "C (cfg ?s)" using D(1,5) by simp_all
  show "sources_ok (has_framework_control (cfg ?s)) (residency_of ?s) (res_store ?s) (pl ?s)"
    using D(3) by (simp add: sources_ok_def rank_evictable_pl)
  show "pool_mset (map_of (free_slots (pl ?s))) + held (residency_of ?s) (res_store ?s) + slot_pairs hand = all_slots (cfg ?s)"
    using D(4) by (simp add: rank_evictable_pl)
  have "evq_inv (evictable (pl ?s)) sk"
    using evq_insert_inv [OF pool_ok_queue [OF ok]] by (simp add: rank_evictable_pl)
  moreover have "evictable_slots (pl ?s) pool = evq.total (weight (residency_of ?s) (res_store ?s) pool) (evictable (pl ?s))" for pool
    using pool_ok_total [OF ok, of pool] att
    by (simp add: rank_evictable_pl evq_total_insert add_counts_pool_counts weight_def)
  moreover have "\<exists>b. residency_of ?s x = Some b \<and> evictable_now (res_store ?s b)" if "indexed (pl ?s) x" for x
  proof (cases "x = k")
    case False
    then have "indexed (pl s) x" using that by (simp add: indexed_def rank_evictable_pl evq_insert_score)
    then show ?thesis using pool_ok_indexed [OF ok] by simp
  qed (use att ev in simp)
  ultimately show "index_ok sk (residency_of ?s) (res_store ?s) (pl ?s)" by (simp add: index_ok_def)
qed

lemma pool_ok_unscore:
  assumes ok: "pool_ok C hand sk s" and att: "residency_of s k = Some a" and ev: "evictable_now (res_store s a)"
  shows "pool_ok C hand sk (pl_update (\<lambda>p. p\<lparr>unscored := add_end k (unscored p)\<rparr>) s)"
  using pool_okD [OF ok] att ev
  by (auto intro!: pool_okI simp: index_ok_def indexed_def sources_ok_def)

lemma make_evictable_cases:
  obtains (skip) x where "make_evictable k s = (x, s)"
  | (unscored) a q where "residency_of s k = Some a" "evictable_now (res_store s a)"
      "make_evictable k s = (Inr (), pl_update (\<lambda>p. p\<lparr>unscored := add_end k (unscored p)\<rparr>) (s\<lparr>pol := q\<rparr>))"
  | (ranked) a q v where "residency_of s k = Some a" "evictable_now (res_store s a)"
      "make_evictable k s = (Inr (), rank_evictable k a v (s\<lparr>pol := q\<rparr>))"
proof (cases "\<exists>rec a. map_of (block_record_map s) k = Some rec \<and> local_dram rec = Some a \<and> evictable_now (res_store s a)")
  case True
  then obtain rec a where r: "map_of (block_record_map s) k = Some rec" "local_dram rec = Some a"
    and ev: "evictable_now (res_store s a)" by blast
  have att: "residency_of s k = Some a" using r by (simp add: residency_of_def)
  obtain sc q where e: "eviction_score (the_policy (cfg s)) (block_meta k rec (residency_size (cfg s) (res_store s a))) LOCAL_G2
      (evq_score (evictable (pl s)) k) (pol s) = (sc, q)" by fastforce
  show ?thesis
    using ranked [OF att ev, of _ q] unscored [OF att ev, of q] r ev e
    by (cases sc) (auto simp: make_evictable_def readS_def thenS_def bindS_def modS_def evictable_now_def)
next
  case False
  then have "snd (make_evictable k s) = s"
    by (auto simp: make_evictable_def readS_def raiseS_def retS_def evictable_now_def Let_def split: option.splits)
  then show ?thesis using skip by (metis prod.collapse)
qed

lemma residency_of_pol [simp]: "residency_of (s\<lparr>pol := q\<rparr>) = residency_of s"
  by (auto simp: residency_of_def fun_eq_iff)

lemma keeps_make_evictable: "keeps (pool_ok C hand sk) (make_evictable k)"
  unfolding keeps_iff
proof (intro allI impI)
  fix s
  assume ok: "pool_ok C hand sk s"
  show "pool_ok C hand sk (snd (make_evictable k s))"
  proof (cases rule: make_evictable_cases [of k s])
    case (unscored a q)
    then show ?thesis using ok by (simp add: pool_ok_unscore)
  next
    case (ranked a q v)
    then show ?thesis using ok by (simp add: pool_ok_rank_evictable)
  qed (use ok in simp)
qed

lemma keeps_retry_unscored: "keeps (pool_ok C hand sk) retry_unscored"
  unfolding retry_unscored_def by (rule keeps_read_any) (intro keeps_forS keeps_make_evictable)

subsection \<open>Freeing and taking slots\<close>

definition free_step :: "string \<times> nat \<Rightarrow> (string, nat list) dict \<Rightarrow> (string, nat list) dict" where
  "free_step = (\<lambda>(l, slot) f.
     AList.update (label_pool l) ((case map_of f (label_pool l) of None \<Rightarrow> [] | Some xs \<Rightarrow> xs) @ [slot]) f)"

lemma pool_mset_free_step: "pool_mset (map_of (free_step e f)) = pool_mset (map_of f) + slot_pairs [e]"
proof -
  obtain l x where e: "e = (l, x)" by (cases e)
  let ?p = "label_pool l" let ?m = "map_of f"
  have u: "pool_mset (?m(?p \<mapsto> ys)) = image_mset (Pair ?p) (mset ys) + pool_mset (?m(?p := None))" for ys
    by (rule pool_mset_update) (simp add: finite_dom_map_of)
  show ?thesis
  proof (cases "?m ?p")
    case None
    then have "?m(?p := None) = ?m" by auto
    then show ?thesis using None by (simp add: free_step_def e u)
  next
    case (Some ys)
    have "pool_mset ?m = image_mset (Pair ?p) (mset ys) + pool_mset (?m(?p := None))"
      by (rule pool_mset_remove) (simp_all add: finite_dom_map_of Some)
    then show ?thesis using Some by (simp add: free_step_def e u)
  qed
qed

lemma pool_mset_free: "pool_mset (map_of (fold free_step locs f)) = pool_mset (map_of f) + slot_pairs locs"
proof (induction locs arbitrary: f)
  case (Cons e locs)
  have "slot_pairs (e # locs) = slot_pairs [e] + slot_pairs locs"
    using slot_pairs_append [of "[e]" locs] by simp
  then show ?case using Cons.IH [of "free_step e f"] by (simp add: pool_mset_free_step)
qed simp

lemma free_locations_alt: "free_locations locs s = pl_update (\<lambda>p. p\<lparr>free_slots := fold free_step locs (free_slots p)\<rparr>) s"
  by (simp add: free_locations_def free_step_def)

lemma pool_ok_free_locations:
  assumes "pool_ok C (locs @ hand) sk s"
  shows "pool_ok C hand sk (free_locations locs s)"
  using pool_okD [OF assms]
  by (intro pool_okI) (simp_all add: free_locations_alt index_ok_def indexed_def sources_ok_def pool_mset_free ac_simps)

lemma free_locations_fields [simp]:
  "residency_of (free_locations l s) = residency_of s" "res_store (free_locations l s) = res_store s"
  "cfg (free_locations l s) = cfg s"
  by (simp_all add: free_locations_def)

text \<open>A residency leaves its block; its slots are in hand until they are freed.\<close>

lemma pool_ok_detach:
  assumes ok: "pool_ok C hand sk s" and att: "residency_of s k = Some a"
    and rd: "source_readers (res_store s a) = 0" and ix: "\<not> indexed (pl s) k"
    and pub: "map_of (src_index (pl s)) k \<noteq> Some (Some a)"
  shows "pool_ok C (slots (res_store s a) @ hand) sk (upd_record k (\<lambda>rec. rec\<lparr>local_dram := None\<rparr>) s)"
proof -
  let ?s = "upd_record k (\<lambda>rec. rec\<lparr>local_dram := None\<rparr>) s" let ?r = "residency_of s"
  have rof: "residency_of ?s = ?r(k := None)"
    using att by (auto simp: upd_record_def residency_of_def fun_eq_iff split: option.splits)
  have f: "cfg ?s = cfg s" "res_store ?s = res_store s" "next_res ?s = next_res s" "pl ?s = pl s"
    by (simp_all add: upd_record_def split: option.splits)
  note D = pool_okD [OF ok]
  show ?thesis
  proof (rule pool_okI, unfold rof f)
    show "C (cfg s)" by (rule D(5))
    show "attached_ok (?r(k := None)) (res_store s) (next_res s)"
      using D(1) by (auto simp: attached_ok_def split: if_splits)
    have "evq.total (weight (?r(k := None)) (res_store s) pool) (evictable (pl s)) =
        evq.total (weight ?r (res_store s) pool) (evictable (pl s))" for pool
      by (rule evq.total_cong) (use ix in \<open>auto simp: indexed_def weight_def\<close>)
    then show "index_ok sk (?r(k := None)) (res_store s) (pl s)"
      using D(2) ix unfolding index_ok_def by (metis fun_upd_apply)
    show "sources_ok (has_framework_control (cfg s)) (?r(k := None)) (res_store s) (pl s)"
      unfolding sources_ok_def
    proof (intro conjI allI impI)
      fix x b assume b: "map_of (src_index (pl s)) x = Some (Some b)"
      have "?r x = Some b" using pool_ok_published [OF ok b] by simp
      then show "(?r(k := None)) x = Some b" using b pub att by (cases "x = k") auto
      show "readable (res_store s b)" "has_framework_control (cfg s)" using pool_ok_published [OF ok b] by simp_all
    next
      fix b assume b: "0 < source_readers (res_store s b)"
      then obtain x where x: "?r x = Some b" using pool_ok_read [OF ok] by blast
      then have "x \<noteq> k" using b rd att by auto
      then show "\<exists>x. (?r(k := None)) x = Some b" using x by auto
    qed (rule pool_ok_readers [OF ok])
    show "pool_mset (map_of (free_slots (pl s))) + held (?r(k := None)) (res_store s)
        + slot_pairs (slots (res_store s a) @ hand) = all_slots (cfg s)"
      using D(4) held_remove [of ?r k a "res_store s"] att by (simp add: ac_simps)
  qed
qed

text \<open>A new residency takes the slots in hand.\<close>

lemma pool_ok_attach:
  assumes ok: "pool_ok C (slots r @ hand) sk s" and none: "residency_of s k = None"
    and known: "map_of (block_record_map s) k \<noteq> None"
    and r: "0 \<le> claim_count r" "source_readers r = 0"
  shows "pool_ok C hand sk (upd_record k (\<lambda>rec. rec\<lparr>local_dram := Some (next_res s)\<rparr>)
      (upd_res (next_res s) (\<lambda>_. r) (s\<lparr>next_res := Suc (next_res s)\<rparr>)))"
proof -
  let ?a = "next_res s" let ?r = "residency_of s" let ?st = "(res_store s)(?a := r)"
  let ?t = "upd_res ?a (\<lambda>_. r) (s\<lparr>next_res := Suc ?a\<rparr>)"
  let ?s = "upd_record k (\<lambda>rec. rec\<lparr>local_dram := Some ?a\<rparr>) ?t"
  have t: "residency_of ?t = ?r" "block_record_map ?t = block_record_map s" by (auto simp: residency_of_def)
  have rof: "residency_of ?s = ?r(k \<mapsto> ?a)"
    using known t by (auto simp: upd_record_def residency_of_def fun_eq_iff split: option.splits)
  have f: "cfg ?s = cfg s" "res_store ?s = ?st" "next_res ?s = Suc ?a" "pl ?s = pl s"
    by (simp_all add: upd_record_def split: option.splits)
  note D = pool_okD [OF ok]
  have old: "?st b = res_store s b" if "?r x = Some b" for x b
    using pool_ok_attached [OF ok that] by simp
  have ix: "\<not> indexed (pl s) k" using pool_ok_indexed [OF ok, of k] none by auto
  show ?thesis
  proof (rule pool_okI, unfold rof f)
    show "C (cfg s)" by (rule D(5))
    show "attached_ok (?r(k \<mapsto> ?a)) ?st (Suc ?a)"
      using D(1) r(1) by (auto simp: attached_ok_def less_SucI split: if_splits)
    have "evq.total (weight (?r(k \<mapsto> ?a)) ?st pool) (evictable (pl s)) =
        evq.total (weight ?r (res_store s) pool) (evictable (pl s))" for pool
      by (rule evq.total_cong) (use ix old in \<open>auto simp: indexed_def weight_def split: option.splits\<close>)
    moreover have "\<exists>b. (?r(k \<mapsto> ?a)) x = Some b \<and> evictable_now (?st b)" if x: "indexed (pl s) x" for x
    proof -
      obtain b where "?r x = Some b" "evictable_now (res_store s b)" using pool_ok_indexed [OF ok x] by blast
      then show ?thesis using x ix old by (cases "x = k") auto
    qed
    ultimately show "index_ok sk (?r(k \<mapsto> ?a)) ?st (pl s)"
      using D(2) by (simp add: index_ok_def)
    show "sources_ok (has_framework_control (cfg s)) (?r(k \<mapsto> ?a)) ?st (pl s)"
      unfolding sources_ok_def
    proof (intro conjI allI impI)
      fix x b assume b: "map_of (src_index (pl s)) x = Some (Some b)"
      have p: "?r x = Some b" "readable (res_store s b)" using pool_ok_published [OF ok b] by simp_all
      show "has_framework_control (cfg s)" using pool_ok_published [OF ok b] by simp
      show "(?r(k \<mapsto> ?a)) x = Some b" using p none by (cases "x = k") auto
      show "readable (?st b)" using p old by simp
    next
      fix b show "0 \<le> source_readers (?st b)" using pool_ok_readers [OF ok] r by simp
    next
      fix b assume b: "0 < source_readers (?st b)"
      then have "b \<noteq> ?a" using r by auto
      then obtain x where x: "?r x = Some b" using b pool_ok_read [OF ok, of b] by auto
      then have "x \<noteq> k" using none by auto
      then show "\<exists>x. (?r(k \<mapsto> ?a)) x = Some b" using x by auto
    qed
    have "held (?r(k \<mapsto> ?a)) ?st = slot_pairs (slots r) + held ?r (res_store s)"
      using held_remove [of "?r(k \<mapsto> ?a)" k ?a ?st] held_cong [of ?r ?st "res_store s"] old none
      by (simp add: fun_upd_idem)
    then show "pool_mset (map_of (free_slots (pl s))) + held (?r(k \<mapsto> ?a)) ?st + slot_pairs hand = all_slots (cfg s)"
      using D(4) by (simp add: ac_simps)
  qed
qed

subsection \<open>Claims\<close>

abbreviation pools_ok :: "('p config \<Rightarrow> bool) \<Rightarrow> 'p core \<Rightarrow> bool" where
  "pools_ok C \<equiv> pool_ok C [] []"

lemma pool_ok_abandon [simp]: "pool_ok C hand sk (abandon_capacity_eviction k s) = pool_ok C hand sk s"
  by (simp add: abandon_capacity_eviction_def pool_ok_pl_same)

lemma unindex_fields [simp]:
  "residency_of (unindex k s) = residency_of s" "res_store (unindex k s) = res_store s" "cfg (unindex k s) = cfg s"
  "map_of (src_index (pl (unindex k s))) = (map_of (src_index (pl s)))(k := None)"
  "indexed (pl (unindex k s)) = indexed (pl s)"
  by (auto simp: unindex_def indexed_def fun_eq_iff)

lemma pool_ok_withdraw:
  assumes ok: "pool_ok C hand sk s" and att: "residency_of s k = Some a"
    and rd: "source_readers (res_store s a) = 0" and ix: "\<not> indexed (pl s) k"
  shows "pool_ok C (slots (res_store s a) @ hand) sk (withdraw k s)"
proof -
  have "withdraw k s = upd_record k (\<lambda>rec. rec\<lparr>local_dram := None\<rparr>) (unindex k s)"
    by (simp add: withdraw_def unindex_def)
  then show ?thesis
    using pool_ok_detach [OF pool_ok_unindex [OF ok, of k], of k a] att rd ix by simp
qed

lemma pool_ok_free_retired:
  assumes "pool_ok C (slots r @ hand) sk s"
  shows "pool_ok C hand sk (free_retired k r s)"
  using assms by (auto simp: free_retired_def Let_def intro: pool_ok_free_locations)

lemma pool_ok_retire:
  assumes ok: "pool_ok C hand sk s" and att: "residency_of s k = Some a"
    and rd: "source_readers (res_store s a) = 0"
    and ret: "\<not> (rstate (res_store s a) = READY \<and> \<not> retire_on_release (res_store s a))"
  shows "pool_ok C hand sk (prune_block_record k (free_retired k (res_store s a) (withdraw k s)))"
proof -
  have "\<not> indexed (pl s) k"
    by (rule pool_ok_not_indexed [OF ok att]) (use ret in \<open>auto simp: evictable_now_def\<close>)
  then show ?thesis
    by (simp add: pool_ok_free_retired [OF pool_ok_withdraw [OF ok att rd]])
qed

lemma pool_ok_acquire_claim:
  assumes ok: "pool_ok C hand sk s" and att: "residency_of s k = Some a"
  shows "pool_ok C hand sk (snd (acquire_claim k a s))"
proof -
  let ?s = "remove_evictable k a s" let ?f = "\<lambda>r. r\<lparr>claim_count := claim_count r + 1\<rparr>"
  have ok': "pool_ok C hand sk ?s" by (rule pool_ok_remove_evictable [OF ok att])
  have "pool_ok C hand sk (upd_res a ?f ?s)"
  proof (rule pool_ok_upd_res [OF ok'])
    fix x assume x: "residency_of ?s x = Some a"
    then have "x = k" using pool_ok_inj [OF ok _ att] by simp
    then show "indexed (pl ?s) x \<Longrightarrow> evictable_now (?f (res_store ?s a))" by (simp add: indexed_remove_evictable)
    show "0 \<le> claim_count (?f (res_store ?s a))" using pool_ok_claims [OF ok att] by simp
    show "map_of (src_index (pl ?s)) x = Some (Some a) \<Longrightarrow> readable (?f (res_store ?s a))"
      using pool_ok_published [OF ok', of x a] by (simp add: readable_def pending_def)
  qed simp_all
  then show ?thesis using ok by (simp add: acquire_claim_def readS_def raiseS_def modS_def)
qed

lemma acquire_claim_residency_of [simp]: "residency_of (snd (acquire_claim k a s)) = residency_of s"
  by (simp add: acquire_claim_def readS_def raiseS_def modS_def)

lemma pool_ok_new_public_claim:
  assumes ok: "pool_ok C hand sk s" and att: "residency_of s k = Some a"
  shows "pool_ok C hand sk (snd (new_public_claim k a locs s))"
proof -
  obtain x s' where e: "acquire_claim k a s = (x, s')" by fastforce
  have "pool_ok C hand sk s'" using pool_ok_acquire_claim [OF ok att] e by simp
  then show ?thesis
    by (cases x) (simp_all add: new_public_claim_def thenS_def bindS_def e readS_def modS_def retS_def Let_def pool_ok_pl_same)
qed

lemma keeps_acquire_sources: "keeps (pool_ok C hand sk) (acquire_sources ks b)"
proof -
  have "keeps (pool_ok C hand sk) (acquire_source_step b k d)" for k d
    unfolding acquire_source_step_def
  proof (rule keeps_read, goal_cases)
    case (1 s)
    show ?case
    proof (cases "residency_of s k")
      case None
      then show ?thesis using 1 by (simp add: retS_def)
    next
      case (Some a)
      have "pool_ok C hand sk (snd (acquire_claim k a s))" by (rule pool_ok_acquire_claim [OF 1 Some])
      then show ?thesis using 1 Some
        by (cases "acquire_claim k a s"; cases "fst (acquire_claim k a s)")
          (auto simp: retS_def Let_def thenS_def bindS_def)
    qed
  qed
  then show ?thesis
    unfolding acquire_sources_def by (intro keeps_rules keeps_mod) simp_all
qed

lemma mark_pending_fields [simp]:
  "residency_of (mark_source_pending k s) = residency_of s" "res_store (mark_source_pending k s) = res_store s"
  "cfg (mark_source_pending k s) = cfg s" "indexed (pl (mark_source_pending k s)) = indexed (pl s)"
  "next_res (mark_source_pending k s) = next_res s" "block_record_map (mark_source_pending k s) = block_record_map s"
  by (auto simp: mark_source_pending_def indexed_def fun_eq_iff)

lemma mark_pending_upd_res: "mark_source_pending k (upd_res a f s) = upd_res a f (mark_source_pending k s)"
  by (simp add: mark_source_pending_def upd_res_def)

lemma mark_pending_unpublished:
  "pool_ok C hand sk s \<Longrightarrow> map_of (src_index (pl (mark_source_pending k s))) k \<noteq> Some (Some a)"
  using pool_ok_published [of C hand sk s k a] by (auto simp: mark_source_pending_def)

lemma keeps_retire_sources: "keeps (pool_ok C hand sk) (retire_sources ks)"
  unfolding retire_sources_def
proof (intro keeps_forS keeps_read, goal_cases)
  case (1 k s)
  show ?case
  proof (cases "residency_of s k")
    case None
    then show ?thesis using 1 by (simp add: raiseS_def)
  next
    case (Some a)
    let ?f = "\<lambda>r :: residency. r\<lparr>retire_on_release := True\<rparr>"
    have "pool_ok C hand sk (mark_source_pending k (upd_res a ?f s))"
      if cl: "\<not> claim_count (res_store s a) \<le> 0"
    proof -
      have nix: "\<not> indexed (pl s) x" if "residency_of s x = Some a" for x
        by (rule pool_ok_not_indexed [OF 1 that]) (use cl in \<open>simp add: evictable_now_def\<close>)
      have ok: "pool_ok C hand sk (mark_source_pending k s)" by (rule pool_ok_mark_pending [OF 1])
      have "pool_ok C hand sk (upd_res a ?f (mark_source_pending k s))"
      proof (rule pool_ok_upd_res [OF ok])
        fix x assume x: "residency_of (mark_source_pending k s) x = Some a"
        then have "x = k" using pool_ok_inj [OF 1 _ Some] by simp
        then show "map_of (src_index (pl (mark_source_pending k s))) x = Some (Some a) \<Longrightarrow>
            readable (?f (res_store (mark_source_pending k s) a))"
          using mark_pending_unpublished [OF 1] by simp
        show "0 \<le> claim_count (?f (res_store (mark_source_pending k s) a))" using cl by simp
        show "indexed (pl (mark_source_pending k s)) x \<Longrightarrow> evictable_now (?f (res_store (mark_source_pending k s) a))"
          using nix x by simp
      qed simp_all
      then show ?thesis by (simp add: mark_pending_upd_res)
    qed
    then show ?thesis using 1 Some by (auto simp: raiseS_def modS_def)
  qed
qed

subsection \<open>The contract of the resume hook\<close>

text \<open>What the pools rely on when they resume waiting operations: that the call keeps the invariant.\<close>

lemma pool_ok_release_dec:
  assumes ok: "pool_ok C hand sk s" and att: "residency_of s k = Some a" and cl: "0 < claim_count (res_store s a)"
  shows "pool_ok C hand sk (upd_res a (\<lambda>r. r\<lparr>claim_count := claim_count r - 1\<rparr>) s)"
proof (rule pool_ok_upd_res [OF ok])
  let ?f = "\<lambda>r :: residency. r\<lparr>claim_count := claim_count r - 1\<rparr>"
  fix x assume x: "residency_of s x = Some a"
  have "\<not> indexed (pl s) x" by (rule pool_ok_not_indexed [OF ok x]) (use cl in \<open>simp add: evictable_now_def\<close>)
  then show "indexed (pl s) x \<Longrightarrow> evictable_now (?f (res_store s a))" by simp
  show "0 \<le> claim_count (?f (res_store s a))" using cl by simp
  show "map_of (src_index (pl s)) x = Some (Some a) \<Longrightarrow> readable (?f (res_store s a))"
    using pool_ok_published [OF ok, of x a] by (simp add: readable_def pending_def)
qed simp_all

lemma pool_ok_release_reader: "keeps (pool_ok C hand sk) (release_reader x)"
proof -
  obtain k a where x: "x = (k, a)" by (cases x)
  show ?thesis
    unfolding release_reader_def x split
  proof (rule keeps_read, goal_cases)
    case (1 s)
    let ?f = "\<lambda>r :: residency. r\<lparr>source_readers := source_readers r - 1\<rparr>"
    let ?s = "upd_res a ?f s"
    have "pool_ok C hand sk ?s" if pos: "\<not> source_readers (res_store s a) \<le> 0"
    proof (rule pool_okI)
      note D = pool_okD [OF 1]
      let ?st = "(res_store s)(a := ?f (res_store s a))"
      have sl: "slots (?st b) = slots (res_store s b)" for b by simp
      have ev: "evictable_now (?st b) = evictable_now (res_store s b)" "readable (?st b) = readable (res_store s b)" for b
        by (simp_all add: evictable_now_def readable_def pending_def)
      show "attached_ok (residency_of ?s) (res_store ?s) (next_res ?s)" "C (cfg ?s)"
        using D(1,5) by (simp_all add: attached_ok_def)
      have w: "weight (residency_of s) ?st pool = weight (residency_of s) (res_store s) pool" for pool
        by (rule ext) (rule weight_cong, simp)
      show "index_ok sk (residency_of ?s) (res_store ?s) (pl ?s)"
        using D(2) ev unfolding index_ok_def upd_res_fields w by metis
      show "sources_ok (has_framework_control (cfg ?s)) (residency_of ?s) (res_store ?s) (pl ?s)"
        using D(3) ev pos pool_ok_read [OF 1, of a] unfolding sources_ok_def upd_res_fields
        by (auto simp del: fun_upd_apply) (auto split: if_splits)
      show "pool_mset (map_of (free_slots (pl ?s))) + held (residency_of ?s) (res_store ?s) + slot_pairs hand = all_slots (cfg ?s)"
        using D(4) held_cong [of "residency_of s" ?st "res_store s"] by simp
    qed
    then show ?case using 1
      by (auto simp: readS_def raiseS_def thenS_def bindS_def modS_def retS_def pool_ok_pl_same)
  qed
qed

locale resume_hook =
  fixes rs :: "('p, unit) act" and C :: "'p config \<Rightarrow> bool"
  assumes resume_keeps: "keeps (pools_ok C) rs"
begin

lemma after_last_claim_ok:
  assumes ok: "pools_ok C s" and att: "residency_of s k = Some a"
  shows "pools_ok C (snd (after_last_claim rs k a s))"
proof -
  obtain rec where rec: "map_of (block_record_map s) k = Some rec"
    using att by (auto simp: residency_of_def split: option.splits)
  let ?t = "prune_block_record k (free_retired k (res_store s a) (withdraw k s))"
  have "pools_ok C (snd (rs ?t))" "pools_ok C ?t"
    if "source_readers (res_store s a) = 0" "\<not> (rstate (res_store s a) = READY \<and> \<not> retire_on_release (res_store s a))"
    using pool_ok_retire [OF ok att that] keeps_result [OF resume_keeps] by blast+
  moreover have "pools_ok C (snd (make_evictable k s))"
    by (rule keeps_result [OF keeps_make_evictable ok])
  ultimately show ?thesis
    using ok rec
    by (cases "rs ?t"; cases "fst (rs ?t)"; cases "make_evictable k s"; cases "fst (make_evictable k s)")
      (auto simp: after_last_claim_def readS_def retS_def Let_def thenS_def bindS_def modS_def whenS_def)
qed

lemma keeps_release_claim: "keeps (pools_ok C) (release_claim rs k a)"
  unfolding release_claim_def
proof (rule keeps_read, goal_cases)
  case (1 s)
  show ?case
  proof (cases "residency_of s k \<noteq> Some a \<or> claim_count (res_store s a) \<le> 0")
    case True
    then show ?thesis using 1 by (simp add: raiseS_def)
  next
    case False
    let ?t = "upd_res a (\<lambda>r. r\<lparr>claim_count := claim_count r - 1\<rparr>) s"
    have t: "pools_ok C ?t" by (rule pool_ok_release_dec [OF 1]) (use False in auto)
    have "pools_ok C (snd (after_last_claim rs k a ?t))" by (rule after_last_claim_ok [OF t]) (use False in simp)
    then show ?thesis using t False
      by (cases "after_last_claim rs k a ?t"; cases "fst (after_last_claim rs k a ?t)")
        (auto simp: thenS_def bindS_def modS_def readS_def retS_def)
  qed
qed

lemma keeps_release_sources: "keeps (pools_ok C) (release_sources rs ks)"
  unfolding release_sources_def
  by (intro keeps_then keeps_forS keeps_mod keeps_read_any)
    (auto intro: keeps_release_claim keeps_raise split: option.splits)

lemma keeps_pools_release: "keeps (pools_ok C) (pools_release rs hs)"
proof -
  have "keeps (pools_ok C) (release_handle_step rs h acc)" for h acc
    unfolding release_handle_step_def
    by (rule keeps_read_any)
      (auto intro!: keeps_then keeps_ret keeps_mod keeps_release_claim simp: pool_ok_pl_same split: option.splits)
  then show ?thesis
    unfolding pools_release_def by (intro keeps_rules keeps_mod) simp_all
qed

lemma keeps_settle_reader: "keeps (pools_ok C) (settle_reader rs x b)"
proof -
  obtain k a where x: "x = (k, a)" by (cases x)
  show ?thesis
    unfolding settle_reader_def x split
  proof (rule keeps_read, goal_cases)
    case (1 s)
    then show ?case
      using after_last_claim_ok [OF 1, of k a]
      by (cases "after_last_claim rs k a s"; cases "fst (after_last_claim rs k a s)") (auto simp: retS_def bindS_def)
  qed
qed

lemma keeps_drain_source_completions: "keeps (pools_ok C) (drain_source_completions rs)"
proof -
  have c: "keeps (pools_ok C) (drain_completion rs x b)" for x b
  proof -
    obtain ks sources ok where x: "x = (ks, sources, ok)" by (cases x)
    show ?thesis
      unfolding drain_completion_def x split
      by (intro keeps_then keeps_mod keeps_when keeps_foldS keeps_forS keeps_settle_reader pool_ok_release_reader)
        (simp_all add: pool_ok_pl_same keeps_record_access [where I = "pool_inv C [] []", folded pool_ok_def])
  qed
  show ?thesis
    unfolding drain_source_completions_def
    by (rule keeps_read_any, rule keeps_if, rule keeps_ret, rule keeps_bind, rule keeps_finally, rule keeps_then)
      (auto intro!: keeps_mod keeps_foldS c keeps_read_any keeps_when resume_keeps simp: pool_ok_pl_same)
qed

lemma keeps_pools_close: "keeps (pools_ok C) (pools_close rs)"
  unfolding pools_close_def
  by (intro keeps_then keeps_drain_source_completions keeps_mod) (simp add: pool_ok_pl_same)

end

end
