(* ===== verification/KVCR_Alloc.thy ===== *)
theory KVCR_Alloc
  imports KVCR_PoolInv
begin

text \<open>
  Allocation of slots keeps the invariant of the pools, always returns, and evicts only what may be
  evicted, for a core whose decisions on victims change nothing but the policy's own state.
\<close>

subsection \<open>Taking slots\<close>

definition wants :: "string list \<Rightarrow> string \<Rightarrow> nat" where
  "wants layout pool = count_list (map label_pool layout) pool"

lemma free_count_update:
  "free_count (pl_update (\<lambda>p. p\<lparr>free_slots := AList.update x xs (free_slots p)\<rparr>) s) pool =
    (if pool = x then length xs else free_count s pool)"
  by (simp add: free_count_def)

lemma pool_ok_pop:
  assumes ok: "pool_ok C hand sk s" and f: "map_of (free_slots (pl s)) (label_pool l) = Some (x # xs)"
  shows "pool_ok C ((l, x) # hand) sk (pl_update (\<lambda>p. p\<lparr>free_slots := AList.update (label_pool l) xs (free_slots p)\<rparr>) s)"
proof -
  let ?m = "map_of (free_slots (pl s))" let ?p = "label_pool l"
  have fin: "finite (dom ?m)" by (simp add: finite_dom_map_of)
  have "pool_mset ?m = add_mset (?p, x) (pool_mset (?m(?p \<mapsto> xs)))"
    using pool_mset_remove [OF fin f] pool_mset_update [OF fin, of ?p xs] by simp
  then show ?thesis
    using pool_okD [OF ok]
    by (intro pool_okI) (simp_all add: index_ok_def indexed_def sources_ok_def ac_simps)
qed

text \<open>Popping from the free lists changes nothing else.\<close>

lemma pl_update_const: "pl_update f s = s\<lparr>pl := f (pl s)\<rparr>"
  by (cases s) simp

definition only_free :: "'p core \<Rightarrow> 'p core \<Rightarrow> bool" where
  "only_free s s' \<longleftrightarrow> (\<exists>f. s' = s\<lparr>pl := (pl s)\<lparr>free_slots := f\<rparr>\<rparr>)"

lemma only_free_upd: "only_free s (pl_update (\<lambda>p. p\<lparr>free_slots := f p\<rparr>) s)"
  unfolding only_free_def by (rule exI [of _ "f (pl s)"], rule pl_update_const)

lemma only_free_refl: "only_free s s"
  unfolding only_free_def by (rule exI [of _ "free_slots (pl s)"]) simp

lemma only_free_trans: "only_free s t \<Longrightarrow> only_free t u \<Longrightarrow> only_free s u"
  by (auto simp: only_free_def)

lemma only_free_fields:
  "only_free s s' \<Longrightarrow> residency_of s' = residency_of s \<and> block_record_map s' = block_record_map s \<and> cfg s' = cfg s \<and>
    res_store s' = res_store s \<and> ld s' = ld s \<and> next_res s' = next_res s \<and> now s' = now s"
  by (auto simp: only_free_def)

lemma take_slots_ok:
  assumes "pool_ok C hand sk s" and "\<And>pool. wants layout pool \<le> free_count s pool"
  shows "\<exists>locs s'. foldS take_slot layout acc s = (Inr (acc @ locs), s') \<and> map fst locs = layout \<and>
    pool_ok C (locs @ hand) sk s' \<and> only_free s s'"
  using assms
proof (induction layout arbitrary: acc hand s)
  case Nil
  then show ?case by (auto simp: retS_def only_free_refl)
next
  case (Cons l ls)
  have "0 < free_count s (label_pool l)" using Cons.prems(2) [of "label_pool l"] by (simp add: wants_def)
  then obtain x xs where f: "map_of (free_slots (pl s)) (label_pool l) = Some (x # xs)"
    by (auto simp: free_count_def split: option.splits) (metis list.exhaust)
  let ?t = "pl_update (\<lambda>p. p\<lparr>free_slots := AList.update (label_pool l) xs (free_slots p)\<rparr>) s"
  have t: "pool_ok C ((l, x) # hand) sk ?t" by (rule pool_ok_pop [OF Cons.prems(1) f])
  have w: "wants ls pool \<le> free_count ?t pool" for pool
    using Cons.prems(2) [of pool] f by (auto simp: free_count_update wants_def free_count_def)
  from Cons.IH [OF t w, of "acc @ [(l, x)]"] obtain locs s' where
    r: "foldS take_slot ls (acc @ [(l, x)]) ?t = (Inr ((acc @ [(l, x)]) @ locs), s')" "map fst locs = ls"
      "pool_ok C (locs @ (l, x) # hand) sk s'" "only_free ?t s'" by blast
  have "take_slot l acc s = (Inr (acc @ [(l, x)]), ?t)"
    using f by (simp add: take_slot_def readS_def thenS_def bindS_def modS_def retS_def)
  then have "foldS take_slot (l # ls) acc s = (Inr (acc @ (l, x) # locs), s')"
    using r(1) by (simp add: bindS_def)
  moreover have "only_free s s'"
    using r(4) by (rule only_free_trans [rotated]) (rule only_free_upd)
  moreover have "pool_ok C ((l, x) # locs @ hand) sk s'"
    using r(3) by (simp add: pool_ok_def pool_inv_def ac_simps)
  ultimately show ?case using r(2) by (intro exI [of _ "(l, x) # locs"]) auto
qed

lemma wants_required: "list_all (\<lambda>(name, n). P n name) (counter (map label_pool layout)) \<longleftrightarrow>
    (\<forall>pool. 0 < wants layout pool \<longrightarrow> P (wants layout pool) pool)"
proof -
  let ?c = "counter (map label_pool layout)"
  have "(name, n) \<in> set ?c \<longleftrightarrow> 0 < wants layout name \<and> n = wants layout name" for name n
    using dict_wf_map_of [OF dict_wf_counter, of name n "map label_pool layout"]
    by (auto simp: map_of_counter wants_def count_list_0_iff neq0_conv [symmetric] simp del: neq0_conv split: if_splits)
  then show ?thesis by (simp add: list_all_iff split_paired_Ball_Sigma Ball_def split_paired_All)
qed

subsection \<open>The scan for victims\<close>

text \<open>A decision that only touches the policy, for the configurations that \<open>C\<close> admits.\<close>

definition quiet :: "('p config \<Rightarrow> bool) \<Rightarrow> 'p decider \<Rightarrow> bool" where
  "quiet C dec \<longleftrightarrow>
     (\<forall>meta tier t s. C (cfg s) \<longrightarrow> (\<exists>d q. dec meta tier t s = (Inr (d, False), s\<lparr>pol := q\<rparr>)))"

lemma pool_ok_requeue:
  assumes ok: "pool_ok C hand sk s" and q: "evq_inv q sk'" "live q = live (evictable (pl s))"
  shows "pool_ok C hand sk' (pl_update (\<lambda>p. p\<lparr>evictable := q\<rparr>) s)"
proof -
  have sc: "evq_score q = evq_score (evictable (pl s))" by (rule evq_score_live [OF q(2)])
  have tot: "evq.total w q = evq.total w (evictable (pl s))" for w by (rule evq.total_same_dom) (simp add: sc)
  show ?thesis
    using pool_okD [OF ok] q(1) by (intro pool_okI) (simp_all add: index_ok_def indexed_def sources_ok_def sc tot)
qed

text \<open>What a scan may change: the policy's state and the heap of the queue.\<close>

definition scanned :: "'p core \<Rightarrow> 'p core \<Rightarrow> bool" where
  "scanned s s' \<longleftrightarrow> (\<exists>q x. s' = s\<lparr>pl := (pl s)\<lparr>evictable := q\<rparr>, pol := x\<rparr> \<and> live q = live (evictable (pl s)))"

lemma scanned_refl: "scanned s s"
  unfolding scanned_def by (rule exI [of _ "evictable (pl s)"], rule exI [of _ "pol s"]) simp

lemma scannedI: "s' = s\<lparr>pl := (pl s)\<lparr>evictable := q\<rparr>, pol := x\<rparr> \<Longrightarrow> live q = live (evictable (pl s)) \<Longrightarrow> scanned s s'"
  unfolding scanned_def by blast

lemma scanned_trans:
  assumes "scanned s t" and "scanned t u"
  shows "scanned s u"
proof -
  obtain q x q' x' where "t = s\<lparr>pl := (pl s)\<lparr>evictable := q\<rparr>, pol := x\<rparr>" "live q = live (evictable (pl s))"
    "u = t\<lparr>pl := (pl t)\<lparr>evictable := q'\<rparr>, pol := x'\<rparr>" "live q' = live (evictable (pl t))"
    using assms unfolding scanned_def by blast
  then show ?thesis by (intro scannedI [where q = q' and x = x']) simp_all
qed

lemma scanned_pol: "scanned s (s\<lparr>pol := x\<rparr>)"
  by (rule scannedI [where q = "evictable (pl s)" and x = x]) simp_all

lemma scanned_fields:
  "scanned s s' \<Longrightarrow> residency_of s' = residency_of s \<and> res_store s' = res_store s \<and> cfg s' = cfg s \<and>
     free_slots (pl s') = free_slots (pl s) \<and> src_index (pl s') = src_index (pl s) \<and>
     block_record_map s' = block_record_map s \<and> ld s' = ld s \<and> next_res s' = next_res s \<and> now s' = now s \<and>
     indexed (pl s') = indexed (pl s) \<and> evq_score (evictable (pl s')) = evq_score (evictable (pl s))"
  by (auto simp: scanned_def indexed_def fun_eq_iff evq_score_def)

definition victims_ok :: "'p core \<Rightarrow> key set \<Rightarrow> victim list \<Rightarrow> bool" where
  "victims_ok s ex vs \<longleftrightarrow>
     distinct (map fst vs) \<and>
     (\<forall>(k, a, sz) \<in> set vs. residency_of s k = Some a \<and> evictable_now (res_store s a) \<and> k \<notin> ex)"

definition frees :: "'p core \<Rightarrow> victim list \<Rightarrow> string \<Rightarrow> int" where
  "frees s vs pool = sum_list (map (\<lambda>(k, a, sz). int (pool_count pool (res_store s a))) vs)"

definition scan_result :: "'p core \<Rightarrow> (string, nat) dict \<Rightarrow> key set \<Rightarrow> scan_outcome res \<Rightarrow> bool" where
  "scan_result s required ex x \<longleftrightarrow>
     x = Inr Exhausted \<or> (\<exists>vs. x = Inr (Selected vs) \<and> victims_ok s ex vs \<and> short required (frees s vs) s = [])"

lemma next_candidate:
  assumes ok: "pool_ok C hand (skipped g) s" and wf: "cand_wf g" and nx: "cand_next (evictable (pl s)) g = (r, q, g')"
  shows "pool_ok C hand (skipped g') (pl_update (\<lambda>p. p\<lparr>evictable := q\<rparr>) s)" "cand_wf g'"
    and "excluded g' = excluded g"
    and "scanned s (pl_update (\<lambda>p. p\<lparr>evictable := q\<rparr>) s)"
    and "r = Some k \<Longrightarrow> evq_score (evictable (pl s)) k \<noteq> None \<and> k \<notin> seen g \<and> k \<notin> excluded g \<and> seen g' = insert k (seen g)"
proof -
  have st: "evq_inv q (skipped g')" "cand_wf g'" "live q = live (evictable (pl s))"
    using cand_next_inv [OF _ wf nx, of "[]"] pool_ok_queue [OF ok] by simp_all
  show "pool_ok C hand (skipped g') (pl_update (\<lambda>p. p\<lparr>evictable := q\<rparr>) s)" "cand_wf g'"
    using pool_ok_requeue [OF ok st(1,3)] st(2) by simp_all
  show "scanned s (pl_update (\<lambda>p. p\<lparr>evictable := q\<rparr>) s)"
    unfolding scanned_def using st(3) by (intro exI [of _ q] exI [of _ "pol s"]) (simp add: pl_update_const [of "\<lambda>p. p\<lparr>evictable := q\<rparr>"])
  from nx show "excluded g' = excluded g"
  proof (cases rule: cand_next_cases)
    case exhausted
    then show ?thesis by (simp add: cand_close_def)
  qed simp_all
  from nx show "r = Some k \<Longrightarrow> evq_score (evictable (pl s)) k \<noteq> None \<and> k \<notin> seen g \<and> k \<notin> excluded g \<and> seen g' = insert k (seen g)"
  proof (cases rule: cand_next_cases)
    case (item k' pre e h)
    then show "r = Some k \<Longrightarrow> ?thesis" by (auto simp: is_live_def evq_score_def)
  qed simp_all
qed

text \<open>The keys a scan can still yield.\<close>

definition ahead :: "'p core \<Rightarrow> (score, key) cand \<Rightarrow> key set" where
  "ahead s g = {k. evq_score (evictable (pl s)) k \<noteq> None \<and> k \<notin> seen g}"

lemma finite_ahead: "pool_ok C hand sk s \<Longrightarrow> finite (ahead s g)"
  by (rule finite_subset [OF _ finite_residency_of [of s]])
    (auto simp: ahead_def indexed_def dest!: pool_ok_indexed)

lemma short_cong: "free_slots (pl s') = free_slots (pl s) \<Longrightarrow> short required f s' = short required f s"
  by (simp add: short_def free_count_def)

lemma frees_snoc: "frees s (vs @ [(k, a, sz)]) = add_counts (pool_counts (res_store s a)) 1 (frees s vs)"
  by (rule ext) (simp add: frees_def add_counts_pool_counts)

lemma victims_cong:
  "scanned s s' \<Longrightarrow> victims_ok s' ex vs = victims_ok s ex vs"
  "scanned s s' \<Longrightarrow> frees s' vs = frees s vs"
  "scanned s s' \<Longrightarrow> short required f s' = short required f s"
  using scanned_fields [of s s'] by (auto simp: victims_ok_def frees_def fun_eq_iff short_def free_count_def)

lemma scan_result_cong: "scanned s s' \<Longrightarrow> scan_result s' required ex x = scan_result s required ex x"
  by (simp add: scan_result_def victims_cong)

definition scan_state :: "('p config \<Rightarrow> bool) \<Rightarrow> (string \<times> nat) list \<Rightarrow> victim list \<Rightarrow> (score, key) cand \<Rightarrow> 'p core \<Rightarrow> bool" where
  "scan_state C hand vs g s \<longleftrightarrow>
     pool_ok C hand (skipped g) s \<and> cand_wf g \<and> victims_ok s (excluded g) vs \<and> fst ` set vs \<subseteq> seen g"

definition scan_post ::
  "('p config \<Rightarrow> bool) \<Rightarrow> (string \<times> nat) list \<Rightarrow> (string, nat) dict \<Rightarrow> (score, key) cand \<Rightarrow> 'p core \<Rightarrow>
     (scan_outcome res \<times> (score, key) cand) \<times> 'p core \<Rightarrow> bool" where
  "scan_post C hand required g s = (\<lambda>((x, g'), s').
     pool_ok C hand (skipped g') s' \<and> cand_wf g' \<and> scanned s s' \<and> scan_result s required (excluded g) x)"

lemma scan_post_trans:
  "scanned s t \<Longrightarrow> excluded g' = excluded g \<Longrightarrow> scan_post C hand required g' t y \<Longrightarrow> scan_post C hand required g s y"
  using scanned_trans [of s t] by (auto simp: scan_post_def scan_result_cong)

lemma victims_ok_snoc:
  assumes "victims_ok s (excluded g) vs" and "fst ` set vs \<subseteq> seen g"
    and "k \<notin> seen g" "k \<notin> excluded g" "residency_of s k = Some a" "evictable_now (res_store s a)"
  shows "victims_ok s (excluded g) (vs @ [(k, a, sz)])"
  using assms by (auto simp: victims_ok_def)

lemma alloc_scan_ok:
  assumes "quiet C dec" and "scan_state C hand vs g s" and "card (ahead s g) < n"
  shows "scan_post C hand required g s (alloc_scan n dec required t (frees s vs) vs g s)"
  using assms(2,3)
proof (induction n arbitrary: vs g s)
  case 0
  then show ?case by simp
next
  case (Suc n)
  let ?f = "frees s vs"
  have ok: "pool_ok C hand (skipped g) s" "cand_wf g" "victims_ok s (excluded g) vs" "fst ` set vs \<subseteq> seen g"
    using Suc.prems(1) by (auto simp: scan_state_def)
  show ?case
  proof (cases "short required ?f s = []")
    case True
    then show ?thesis using ok by (auto simp: scan_post_def scan_result_def scanned_refl)
  next
    case deficient: False
    obtain found q g1 where nx: "cand_next (evictable (pl s)) g = (found, q, g1)" by (metis prod_cases3)
    let ?s1 = "pl_update (\<lambda>p. p\<lparr>evictable := q\<rparr>) s"
    note n1 = next_candidate [OF ok(1,2) nx]
    note same = scanned_fields [OF n1(4)]
    show ?thesis
    proof (cases found)
      case None
      then show ?thesis using deficient nx n1 by (simp add: Let_def scan_post_def scan_result_def)
    next
      case (Some k)
      have k: "evq_score (evictable (pl s)) k \<noteq> None" "k \<notin> seen g" "k \<notin> excluded g" "seen g1 = insert k (seen g)"
        using n1(5) [OF Some] by auto
      obtain a where a: "residency_of s k = Some a" "evictable_now (res_store s a)"
        using pool_ok_indexed [OF ok(1)] k(1) by (auto simp: indexed_def)
      let ?r = "res_store s a"
      have go: "scan_post C hand required g s (alloc_scan n dec required t (frees s' vs') vs' g1 s')"
        if s': "scanned ?s1 s'" "pool_ok C hand (skipped g1) s'" and vs': "vs' = vs \<or> vs' = vs @ [(k, a, sz)]" for vs' s' sz
      proof (rule scan_post_trans)
        show sc: "scanned s s'" by (rule scanned_trans [OF n1(4) s'(1)])
        have "victims_ok s (excluded g) vs' \<and> fst ` set vs' \<subseteq> seen g1"
          using vs' ok(3,4) k(4) victims_ok_snoc [OF ok(3,4) k(2,3) a] by (elim disjE) (simp_all add: subset_insertI2)
        then have st: "scan_state C hand vs' g1 s'" using s'(2) n1(2,3) victims_cong(1) [OF sc] by (simp add: scan_state_def)
        have "ahead s' g1 = ahead s g - {k}" "k \<in> ahead s g"
          using scanned_fields [OF sc] k by (auto simp: ahead_def)
        then have "card (ahead s' g1) < card (ahead s g)" by (metis card_Diff1_less finite_ahead ok(1))
        then show "scan_post C hand required g1 s' (alloc_scan n dec required t (frees s' vs') vs' g1 s')"
          using Suc.IH [OF st] Suc.prems(2) by simp
      qed (rule n1(3))
      show ?thesis
      proof (cases "set (short required ?f s) \<inter> fst ` set (pool_counts ?r) = {} \<or> source_readers ?r \<noteq> 0")
        case True
        have "scan_post C hand required g s (alloc_scan n dec required t (frees ?s1 vs) vs g1 ?s1)"
          by (rule go [of _ _ 0]) (simp_all add: scanned_refl n1(1))
        then show ?thesis
          using deficient nx Some a same True victims_cong(2) [OF n1(4)] by (simp add: Let_def evictable_now_def)
      next
        case False
        let ?m = "meta_of k (residency_size (cfg ?s1) ?r) ?s1"
        obtain d p where d: "dec ?m LOCAL_G2 t ?s1 = (Inr (d, False), ?s1\<lparr>pol := p\<rparr>)"
          using assms(1) pool_okD(5) [OF n1(1)] unfolding quiet_def by blast
        let ?s2 = "?s1\<lparr>pol := p\<rparr>"
        have sc: "scanned s ?s2" by (rule scanned_trans [OF n1(4) scanned_pol])
        have p2: "pool_ok C hand (skipped g1) ?s2" using n1(1) by simp
        have two: "scan_post C hand required g s (alloc_scan n dec required t (frees ?s2 vs) vs g1 ?s2)"
          "scan_post C hand required g s (alloc_scan n dec required t (frees ?s2 (vs @ [(k, a, sz)])) (vs @ [(k, a, sz)]) g1 ?s2)" for sz
          using go [OF scanned_pol p2] by blast+
        have "\<not> (set (short required ?f s) \<inter> fst ` set (pool_counts (res_store ?s1 a)) = {} \<or> source_readers (res_store ?s1 a) \<noteq> 0)"
          using False same by simp
        then have "alloc_scan (Suc n) dec required t ?f vs g s =
            (if fst d = KEEP then alloc_scan n dec required t ?f vs g1 ?s2
             else alloc_scan n dec required t (add_counts (pool_counts ?r) 1 ?f) (vs @ [(k, a, residency_size (cfg ?s1) ?r)]) g1 ?s2)"
          using deficient nx Some a same d victims_cong(3) [OF sc] by (simp add: Let_def evictable_now_def)
        then show ?thesis
          using two victims_cong(2) [OF sc] by (simp add: frees_snoc)
      qed
    qed
  qed
qed

lemma scan_victims_ok:
  assumes dec: "quiet C dec" and ok: "pool_ok C hand [] s"
  shows "\<exists>x s'. scan_victims dec required ex t s = (x, s') \<and> pool_ok C hand [] s' \<and> scanned s s' \<and>
    scan_result s required ex x"
proof -
  let ?g = "cand_start ex :: (score, key) cand"
  have "victims_ok s ex []" by (simp add: victims_ok_def)
  then have st: "scan_state C hand [] ?g s" using ok by (simp add: scan_state_def) (simp add: cand_start_def)
  have "x \<in> dom (map_of (block_record_map s))" if "x \<in> ahead s ?g" for x
    using pool_ok_indexed [OF ok, of x] that by (auto simp: ahead_def indexed_def residency_of_def split: option.splits)
  then have "ahead s ?g \<subseteq> fst ` set (block_record_map s)" by (auto simp: dom_map_of_conv_image_fst)
  then have "card (ahead s ?g) \<le> card (fst ` set (block_record_map s))" by (intro card_mono) simp_all
  also have "\<dots> \<le> length (block_record_map s)" using card_length [of "map fst (block_record_map s)"] by simp
  finally have "card (ahead s ?g) \<le> length (block_record_map s)" .
  then have post: "scan_post C hand required ?g s
      (alloc_scan (Suc (length (block_record_map s))) dec required t (frees s []) [] ?g s)"
    by (intro alloc_scan_ok [OF dec st]) simp
  obtain x g s' where r: "alloc_scan (Suc (length (block_record_map s))) dec required t (frees s []) [] ?g s = ((x, g), s')"
    by (metis prod.exhaust)
  have p: "pool_ok C hand (skipped g) s'" "cand_wf g" "scanned s s'" "scan_result s required ex x"
    using post r by (auto simp: scan_post_def cand_start_def)
  let ?q = "fst (cand_close (evictable (pl s')) g)" let ?s = "pl_update (\<lambda>p. p\<lparr>evictable := fst (cand_close (evictable p) g)\<rparr>) s'"
  have "evq_inv ?q []" by (rule cand_close_inv) (use pool_ok_queue [OF p(1)] p(2) in simp_all)
  then have "pool_ok C hand [] (pl_update (\<lambda>p. p\<lparr>evictable := ?q\<rparr>) s')" by (rule pool_ok_requeue [OF p(1)]) simp
  moreover have e: "pl_update (\<lambda>p. p\<lparr>evictable := ?q\<rparr>) s' = ?s" by (cases s') simp
  moreover have "scanned s' ?s"
  proof (rule scannedI)
    show "?s = s'\<lparr>pl := (pl s')\<lparr>evictable := ?q\<rparr>, pol := pol s'\<rparr>" by (cases s') simp
  qed simp
  moreover have "frees s [] = (\<lambda>_. 0)" by (simp add: frees_def fun_eq_iff)
  then have "scan_victims dec required ex t s = (x, ?s)"
    using r by (simp add: scan_victims_def del: alloc_scan.simps)
  ultimately show ?thesis
    using p(4) scanned_trans [OF p(3), of ?s] by auto
qed

subsection \<open>Evicting the victims\<close>

lemma free_count_free_locations:
  "free_count (free_locations locs s) pool = free_count s pool + count_list (map (label_pool \<circ> fst) locs) pool"
proof -
  have "(case map_of (fold free_step locs f) pool of None \<Rightarrow> 0 | Some xs \<Rightarrow> length xs) =
      (case map_of f pool of None \<Rightarrow> 0 | Some xs \<Rightarrow> length xs) + count_list (map (label_pool \<circ> fst) locs) pool" for f
    by (induction locs arbitrary: f) (auto simp: free_step_def split: option.splits)
  then show ?thesis by (simp add: free_count_def free_locations_alt)
qed

definition same_store :: "'p core \<Rightarrow> 'p core \<Rightarrow> bool" where
  "same_store s s' \<longleftrightarrow> cfg s' = cfg s \<and> res_store s' = res_store s \<and> next_res s' = next_res s \<and> ld s' = ld s \<and> now s' = now s"

lemma same_store_trans: "same_store s t \<Longrightarrow> same_store t u \<Longrightarrow> same_store s u"
  by (simp add: same_store_def)

lemma same_store_refl [simp]: "same_store s s"
  by (simp add: same_store_def)

lemma same_store_steps [simp]:
  "same_store s (remove_evictable k a s)" "same_store s (upd_record k f s)" "same_store s (observe k s)"
  "same_store s (prune_block_record k s)" "same_store s (core_on_remove m s)" "same_store s (free_locations l s)"
  "same_store s (unindex k s)" "same_store s (pl_update g s)"
  by (auto simp: same_store_def remove_evictable_def upd_record_def observe_def prune_block_record_def core_on_remove_def
      free_locations_def unindex_def split: option.splits)

lemma record_map_steps [simp]:
  "block_record_map (observe k s) = block_record_map s" "block_record_map (core_on_remove m s) = block_record_map s"
  "block_record_map (free_locations l s) = block_record_map s" "block_record_map (unindex k s) = block_record_map s"
  "x \<noteq> k \<Longrightarrow> map_of (block_record_map (prune_block_record k s)) x = map_of (block_record_map s) x"
  "x \<noteq> k \<Longrightarrow> map_of (block_record_map (upd_record k f s)) x = map_of (block_record_map s) x"
  by (auto simp: observe_def core_on_remove_def free_locations_def unindex_def prune_block_record_def upd_record_def
      split: option.splits)

lemma pl_steps [simp]:
  "pl (observe k s) = pl s" "pl (core_on_remove m s) = pl s" "pl (prune_block_record k s) = pl s" "pl (upd_record k f s) = pl s"
  by (auto simp: observe_def core_on_remove_def prune_block_record_def upd_record_def split: option.splits)

lemma remove_evictable_pools [simp]:
  "src_index (pl (remove_evictable k a s)) = src_index (pl s)" "free_slots (pl (remove_evictable k a s)) = free_slots (pl s)"
  by (simp_all add: remove_evictable_pl)

text \<open>What evicting the keys \<open>ev\<close> leaves alone.\<close>

definition evicted_only :: "key list \<Rightarrow> 'p core \<Rightarrow> 'p core \<Rightarrow> bool" where
  "evicted_only ev s s' \<longleftrightarrow> same_store s s' \<and>
     (\<forall>x. x \<notin> set ev \<longrightarrow> map_of (block_record_map s') x = map_of (block_record_map s) x) \<and>
     (\<forall>x \<in> set ev. residency_of s' x = None)"

lemma evict_victim_ok:
  assumes ok: "pool_ok C hand sk s" and att: "residency_of s k = Some a" and rd: "source_readers (res_store s a) = 0"
    and pub: "map_of (src_index (pl s)) k = None"
  shows "pool_ok C hand sk (evict_victim (k, a, sz) s)" and "evicted_only [k] s (evict_victim (k, a, sz) s)"
    and "free_count (evict_victim (k, a, sz) s) pool = free_count s pool + pool_count pool (res_store s a)"
    and "src_index (pl (evict_victim (k, a, sz) s)) = src_index (pl s)"
proof -
  let ?d = "upd_record k (\<lambda>rec. rec\<lparr>local_dram := None\<rparr>) (remove_evictable k a s)"
  let ?s1 = "observe k ?d" let ?s2 = "prune_block_record k (core_on_remove (meta_of k sz ?s1) ?s1)"
  have e: "evict_victim (k, a, sz) s = free_locations (slots (res_store ?s2 a)) ?s2"
    by (simp add: evict_victim_def Let_def)
  have ss: "same_store s ?s2"
    by (rule same_store_trans [OF same_store_trans [OF same_store_steps(1) same_store_steps(2)]
          same_store_trans [OF same_store_steps(3) same_store_trans [OF same_store_steps(5) same_store_steps(4)]]])
  then have st: "res_store ?s2 = res_store s" by (simp add: same_store_def)
  have "pool_ok C (slots (res_store s a) @ hand) sk ?d"
    using pool_ok_detach [OF pool_ok_remove_evictable [OF ok att], of k a] att rd pub
    by (simp add: indexed_remove_evictable)
  then have "pool_ok C (slots (res_store s a) @ hand) sk ?s2" by simp
  then show "pool_ok C hand sk (evict_victim (k, a, sz) s)" unfolding e st by (rule pool_ok_free_locations)
  have "residency_of ?d k = None" using att by (auto simp: upd_record_def residency_of_def split: option.splits)
  then have "residency_of ?s2 k = None" using view_observe [of k ?d] view_on_remove [of _ ?s1] by (simp add: view_def)
  then show "evicted_only [k] s (evict_victim (k, a, sz) s)"
    using same_store_trans [OF ss same_store_steps(6)] unfolding e evicted_only_def by simp
  show "free_count (evict_victim (k, a, sz) s) pool = free_count s pool + pool_count pool (res_store s a)"
    unfolding e st by (simp add: free_count_free_locations pool_count_def) (simp add: free_count_def)
  show "src_index (pl (evict_victim (k, a, sz) s)) = src_index (pl s)"
    unfolding e by (simp add: free_locations_def)
qed

lemma evicted_only_trans:
  assumes "evicted_only xs s t" and "evicted_only ys t u"
  shows "evicted_only (xs @ ys) s u"
  using assms by (auto simp: evicted_only_def same_store_def residency_of_def)

lemma residency_of_spared:
  "evicted_only ev s s' \<Longrightarrow> k \<notin> set ev \<Longrightarrow> residency_of s' k = residency_of s k"
  by (simp add: evicted_only_def residency_of_def)

lemma evict_victims_ok:
  assumes "pool_ok C hand sk s" and "distinct (map fst vs)"
    and "\<And>k a sz. (k, a, sz) \<in> set vs \<Longrightarrow>
      residency_of s k = Some a \<and> source_readers (res_store s a) = 0 \<and> map_of (src_index (pl s)) k = None"
  shows "pool_ok C hand sk (fold evict_victim vs s) \<and> evicted_only (map fst vs) s (fold evict_victim vs s) \<and>
    int (free_count (fold evict_victim vs s) pool) = int (free_count s pool) + frees s vs pool"
  using assms
proof (induction vs arbitrary: s)
  case Nil
  then show ?case by (simp add: evicted_only_def frees_def)
next
  case (Cons v vs)
  obtain k a sz where v: "v = (k, a, sz)" by (cases v)
  have k: "residency_of s k = Some a" "source_readers (res_store s a) = 0" "map_of (src_index (pl s)) k = None"
    using Cons.prems(3) [of k a sz] v by auto
  let ?t = "evict_victim (k, a, sz) s"
  note t = evict_victim_ok [OF Cons.prems(1) k, of sz]
  have st: "res_store ?t = res_store s" using t(2) by (simp add: evicted_only_def same_store_def)
  have "residency_of ?t k' = Some a' \<and> source_readers (res_store ?t a') = 0 \<and> map_of (src_index (pl ?t)) k' = None"
    if "(k', a', sz') \<in> set vs" for k' a' sz'
  proof -
    have "k' \<noteq> k" using that Cons.prems(2) v by force
    then show ?thesis using Cons.prems(3) [of k' a' sz'] that t(4) residency_of_spared [OF t(2), of k'] st by simp
  qed
  then have "pool_ok C hand sk (fold evict_victim vs ?t) \<and> evicted_only (map fst vs) ?t (fold evict_victim vs ?t) \<and>
      int (free_count (fold evict_victim vs ?t) pool) = int (free_count ?t pool) + frees ?t vs pool"
    using Cons.IH [OF t(1)] Cons.prems(2) by simp
  moreover have "frees ?t vs = frees s vs" by (simp add: frees_def st fun_eq_iff)
  ultimately show ?case
    using evicted_only_trans [OF t(2)] t(3) [of pool] by (simp add: v frees_def)
qed

lemma fold_unindex_ok:
  "pool_ok C hand sk s \<Longrightarrow> pool_ok C hand sk (fold (\<lambda>(k, a, sz). unindex k) vs s)"
  "same_store s (fold (\<lambda>(k, a, sz). unindex k) vs s)"
  "block_record_map (fold (\<lambda>(k, a, sz). unindex k) vs s) = block_record_map s"
  "free_slots (pl (fold (\<lambda>(k, a, sz). unindex k) vs s)) = free_slots (pl s)"
  "map_of (src_index (pl (fold (\<lambda>(k, a, sz). unindex k) vs s))) x =
    (if x \<in> fst ` set vs then None else map_of (src_index (pl s)) x)"
proof (induction vs arbitrary: s)
  case (Cons v vs)
  obtain k a sz where v: "v = (k, a, sz)" by (cases v)
  {
    case 1
    then show ?case using Cons.IH(1) by (simp add: v pool_ok_unindex)
  next
    case 2
    then show ?case using same_store_trans [OF same_store_steps(7) Cons.IH(2)] by (simp add: v)
  next
    case 3
    then show ?case using Cons.IH(3) by (simp add: v)
  next
    case 4
    then show ?case using Cons.IH(4) by (simp add: v) (simp add: unindex_def)
  next
    case 5
    then show ?case using Cons.IH(5) [of "unindex k s"] by (auto simp: v unindex_def)
  }
qed simp_all

subsection \<open>Allocation\<close>

definition bookkept :: "'p core \<Rightarrow> 'p core \<Rightarrow> bool" where
  "bookkept s s' \<longleftrightarrow> same_store s s' \<and> block_record_map s' = block_record_map s \<and>
     free_slots (pl s') = free_slots (pl s) \<and> src_index (pl s') = src_index (pl s)"

lemma bookkept_trans: "bookkept s t \<Longrightarrow> bookkept t u \<Longrightarrow> bookkept s u"
  by (simp add: bookkept_def same_store_def)

lemma bookkept_refl [simp]: "bookkept s s"
  by (simp add: bookkept_def)

lemma scanned_bookkept: "scanned s s' \<Longrightarrow> bookkept s s'"
  using scanned_fields [of s s'] by (simp add: bookkept_def same_store_def)

lemma bookkept_fields:
  "bookkept s s' \<Longrightarrow> residency_of s' = residency_of s \<and> res_store s' = res_store s \<and> free_count s' = free_count s"
  by (auto simp: bookkept_def same_store_def residency_of_def fun_eq_iff free_count_def)

lemma make_evictable_returns:
  assumes "residency_of s k \<noteq> None"
  shows "\<exists>s'. make_evictable k s = (Inr (), s') \<and> bookkept s s'"
proof (cases rule: make_evictable_cases [of k s])
  case (skip x)
  then show ?thesis
    using assms
    by (auto simp: make_evictable_def residency_of_def readS_def retS_def raiseS_def thenS_def bindS_def modS_def Let_def
        split: option.splits if_splits prod.splits)
qed (auto simp: bookkept_def same_store_def rank_evictable_pl, auto simp: rank_evictable_def)

lemma retry_unscored_ok:
  assumes ok: "pool_ok C hand sk s"
  shows "\<exists>s'. retry_unscored s = (Inr (), s') \<and> pool_ok C hand sk s' \<and> bookkept s s'"
proof -
  have "\<exists>s'. forS ks make_evictable s = (Inr (), s') \<and> pool_ok C hand sk s' \<and> bookkept s s'"
    if "pool_ok C hand sk s" "\<And>k. k \<in> set ks \<Longrightarrow> residency_of s k \<noteq> None" for ks s
    using that
  proof (induction ks arbitrary: s)
    case Nil
    then show ?case by (simp add: forS_def retS_def)
  next
    case (Cons k ks)
    obtain t where t: "make_evictable k s = (Inr (), t)" "bookkept s t"
      using make_evictable_returns [of s k] Cons.prems(2) by auto
    have "pool_ok C hand sk t" using keeps_result [OF keeps_make_evictable Cons.prems(1)] t(1) by (metis snd_conv)
    then obtain u where u: "forS ks make_evictable t = (Inr (), u)" "pool_ok C hand sk u" "bookkept t u"
      using Cons.IH [of t] Cons.prems(2) bookkept_fields [OF t(2)] by auto
    then show ?case using t bookkept_trans [OF t(2) u(3)] by (simp add: forS_def thenS_def bindS_def)
  qed
  moreover have "residency_of s k \<noteq> None" if "k \<in> set (unscored (pl s))" for k
    using pool_ok_indexed [OF ok, of k] that by (auto simp: indexed_def)
  ultimately show ?thesis using ok by (simp add: retry_unscored_def readS_def)
qed

definition allocated ::
  "('p config \<Rightarrow> bool) \<Rightarrow> (string \<times> nat) list \<Rightarrow> string list \<Rightarrow> key set \<Rightarrow> 'p core \<Rightarrow>
     (string \<times> nat) list option \<times> key list \<times> bool \<Rightarrow> 'p core \<Rightarrow> bool" where
  "allocated C hand layout protected s = (\<lambda>(locs, ev, waiting) s'.
     pool_ok C ((case locs of None \<Rightarrow> [] | Some l \<Rightarrow> l) @ hand) [] s' \<and> evicted_only ev s s' \<and>
     (case locs of None \<Rightarrow> ev = [] | Some l \<Rightarrow> map fst l = layout) \<and> distinct ev \<and>
     (\<forall>k \<in> set ev. k \<notin> protected \<and>
        (\<exists>a. residency_of s k = Some a \<and> evictable_now (res_store s a) \<and> source_readers (res_store s a) = 0)))"

lemma only_free_evicted: "only_free s s' \<Longrightarrow> evicted_only [] s s'"
  using only_free_fields [of s s'] by (simp add: evicted_only_def same_store_def)

lemma take_slots_allocated:
  assumes "pool_ok C hand [] t" and "\<And>pool. wants layout pool \<le> free_count t pool"
    and ev: "evicted_only ev s t" "distinct ev"
      "\<forall>k \<in> set ev. k \<notin> protected \<and>
        (\<exists>a. residency_of s k = Some a \<and> evictable_now (res_store s a) \<and> source_readers (res_store s a) = 0)"
  shows "\<exists>r s'. bindS (take_slots layout) (\<lambda>l. retS (Some l, ev, False)) t = (Inr r, s') \<and> allocated C hand layout protected s r s'"
proof -
  obtain locs u where u: "foldS take_slot layout [] t = (Inr locs, u)" "map fst locs = layout" "pool_ok C (locs @ hand) [] u" "only_free t u"
    using take_slots_ok [OF assms(1,2), where acc = "[]"] by auto
  have "evicted_only ev s u" using evicted_only_trans [OF ev(1) only_free_evicted [OF u(4)]] by simp
  then show ?thesis using u ev(2,3) by (simp add: take_slots_def bindS_def retS_def allocated_def)
qed

lemma short_wants:
  assumes "short (counter (map label_pool layout)) (frees s vs) s = []"
    and "0 \<le> frees s vs pool"
  shows "int (wants layout pool) \<le> int (free_count s pool) + frees s vs pool"
proof (cases "wants layout pool = 0")
  case False
  have "list_all (\<lambda>(name, n). int n \<le> int (free_count s name) + frees s vs name) (counter (map label_pool layout))"
    using assms(1) by (auto simp: short_def filter_empty_conv list_all_iff)
  then show ?thesis using False wants_required [of "\<lambda>n name. int n \<le> int (free_count s name) + frees s vs name"] by simp
qed (use assms(2) in simp)

lemma frees_nonneg: "0 \<le> frees s vs pool"
  unfolding frees_def by (rule sum_list_nonneg) auto

lemma evict_and_take:
  assumes ok: "pool_ok C hand [] t" and t: "bookkept s t" and vs: "victims_ok t protected vs"
    and enough: "short (counter (map label_pool layout)) (frees t vs) t = []"
    and unread: "\<not> list_ex (\<lambda>(k, a, sz). source_readers (res_store t a) \<noteq> 0) vs"
  shows "\<exists>r s'. bindS (take_slots layout) (\<lambda>l. retS (Some l, map fst vs, False))
      (fold evict_victim vs (fold (\<lambda>(k, a, sz). unindex k) vs t)) = (Inr r, s') \<and> allocated C hand layout protected s r s'"
proof (rule take_slots_allocated)
  let ?u = "fold (\<lambda>(k, a, sz). unindex k) vs t" let ?e = "fold evict_victim vs ?u"
  note u = fold_unindex_ok [where s = t and vs = vs]
  have st: "res_store ?u = res_store t" using u(2) by (simp add: same_store_def)
  have rof: "residency_of ?u = residency_of t" by (rule residency_of_cong) (rule u(3))
  have v: "residency_of t k = Some a \<and> evictable_now (res_store t a) \<and> k \<notin> protected \<and> source_readers (res_store t a) = 0"
    if "(k, a, sz) \<in> set vs" for k a sz
    using vs unread that by (force simp: victims_ok_def list_ex_iff)
  have e: "pool_ok C hand [] ?e \<and> evicted_only (map fst vs) ?u ?e \<and>
      int (free_count ?e pool) = int (free_count ?u pool) + frees ?u vs pool" for pool
  proof (rule evict_victims_ok [OF u(1) [OF ok]])
    show "distinct (map fst vs)" using vs by (simp add: victims_ok_def)
    show "residency_of ?u k = Some a \<and> source_readers (res_store ?u a) = 0 \<and> map_of (src_index (pl ?u)) k = None"
      if "(k, a, sz) \<in> set vs" for k a sz
      using v [OF that] u(5) [of k] that by (force simp: rof st)
  qed
  then show "pool_ok C hand [] ?e" by blast
  have n: "int (free_count ?e pool) = int (free_count t pool) + frees t vs pool" for pool
    using e [of pool] u(4) st by (simp add: free_count_def frees_def)
  show "wants layout pool \<le> free_count ?e pool" for pool
    using n [of pool] short_wants [OF enough, of pool] frees_nonneg [of t vs pool] by simp
  have "evicted_only [] s ?u"
    using t u(2,3) by (simp add: evicted_only_def bookkept_def same_store_def)
  then show "evicted_only (map fst vs) s ?e" using e evicted_only_trans [of "[]" s ?u] by fastforce
  show "distinct (map fst vs)" using vs by (simp add: victims_ok_def)
  show "\<forall>k \<in> set (map fst vs). k \<notin> protected \<and>
      (\<exists>a. residency_of s k = Some a \<and> evictable_now (res_store s a) \<and> source_readers (res_store s a) = 0)"
    using v bookkept_fields [OF t] by fastforce
qed

lemma allocate_ok:
  assumes dec: "quiet C dec" and ok: "pool_ok C hand [] s"
  shows "\<exists>r s'. allocate_slots dec layout protected t s = (Inr r, s') \<and> allocated C hand layout protected s r s'"
proof -
  let ?req = "counter (map label_pool layout)"
  consider (free) "list_all (\<lambda>(name, n). n \<le> free_count s name) ?req"
    | (wait) "\<not> list_all (\<lambda>(name, n). n \<le> free_count s name) ?req" "capacity_eviction_key (pl s) \<noteq> None"
    | (scan) "\<not> list_all (\<lambda>(name, n). n \<le> free_count s name) ?req" "capacity_eviction_key (pl s) = None" by blast
  then show ?thesis
  proof cases
    case free
    then have "\<forall>pool. 0 < wants layout pool \<longrightarrow> wants layout pool \<le> free_count s pool"
      using wants_required [of "\<lambda>n name. n \<le> free_count s name" layout] by simp
    then have "wants layout pool \<le> free_count s pool" for pool by (cases "wants layout pool = 0") simp_all
    then have "\<exists>r s'. bindS (take_slots layout) (\<lambda>l. retS (Some l, [], False)) s = (Inr r, s') \<and> allocated C hand layout protected s r s'"
      by (intro take_slots_allocated [OF ok]) (simp_all add: evicted_only_def)
    then show ?thesis using free by (simp add: allocate_slots_def readS_def Let_def)
  next
    case wait
    then show ?thesis using ok by (simp add: allocate_slots_def readS_def Let_def retS_def allocated_def evicted_only_def)
  next
    case scan
    obtain u where u: "retry_unscored s = (Inr (), u)" "pool_ok C hand [] u" "bookkept s u"
      using retry_unscored_ok [OF ok] by blast
    obtain x v where v: "scan_victims dec ?req protected t u = (x, v)" "pool_ok C hand [] v" "scanned u v"
        "scan_result u ?req protected x"
      using scan_victims_ok [OF dec u(2)] by blast
    have sv: "bookkept s v" using bookkept_trans [OF u(3) scanned_bookkept [OF v(3)]] .
    have run: "allocate_slots dec layout protected t s = (case x of
        Inl e \<Rightarrow> (Inl e, v)
      | Inr Exhausted \<Rightarrow> (Inr (None, [], False), v)
      | Inr Pending \<Rightarrow> (Inr (None, [], True), v)
      | Inr (Selected vs) \<Rightarrow>
          if list_ex (\<lambda>(k, a, sz). source_readers (res_store v a) \<noteq> 0) vs then (Inr (None, [], False), v)
          else bindS (take_slots layout) (\<lambda>l. retS (Some l, map fst vs, False))
                 (fold evict_victim vs (fold (\<lambda>(k, a, sz). unindex k) vs v)))"
      using scan u(1) v(1)
      by (simp add: allocate_slots_def readS_def Let_def thenS_def bindS_def retS_def modS_def split: sum.splits scan_outcome.splits)
    have none: "allocated C hand layout protected s (None, [], b) v" for b
      using v(2) sv by (simp add: allocated_def evicted_only_def bookkept_def)
    show ?thesis
    proof (cases "\<exists>vs. x = Inr (Selected vs) \<and> \<not> list_ex (\<lambda>(k, a, sz). source_readers (res_store v a) \<noteq> 0) vs")
      case True
      then obtain vs where vs: "x = Inr (Selected vs)" "\<not> list_ex (\<lambda>(k, a, sz). source_readers (res_store v a) \<noteq> 0) vs" by blast
      have "victims_ok v protected vs" "short ?req (frees v vs) v = []"
        using v(4) vs(1) victims_cong [OF v(3)] by (auto simp: scan_result_def)
      then show ?thesis using evict_and_take [OF v(2) sv _ _ vs(2)] run vs by simp
    next
      case False
      then show ?thesis using run none v(4) by (auto simp: scan_result_def)
    qed
  qed
qed

end
