(* ===== verification/KVCR_LocalDram.thy ===== *)
theory KVCR_LocalDram
  imports KVCR_Pools
begin

text \<open>
  \<open>_LocalDram\<close> (\<open>backends/local_dram.py\<close>): deposits, fetches and deliveries over the pools, the copies
  they hand to the progress thread, what happens when a copy or a remote fill ends, expiry, and the
  queue of operations that wait for capacity.

  An operation object lives in the tables \<open>res_ops\<close> and \<open>del_ops\<close> under its id, also after it has left
  the list of pending operations, because copies and waiters still refer to it.

  The requests call back into the core through a record of hooks: \<open>resume\<close> and \<open>decide\<close> are the
  arguments the pools take, \<open>fill\<close> is the core's \<open>_start_local_fill\<close>.
\<close>

record 'p hooks =
  resume :: "('p, unit) act"
  decide :: "'p decider"
  fill :: "CacheTier \<Rightarrow> (key, TransferRef list) dict \<Rightarrow> string option \<Rightarrow> time \<Rightarrow> ('p, unit) act"

subsection \<open>Operation objects\<close>

definition op_of :: "'p core \<Rightarrow> op_id \<Rightarrow> residency_op" where
  "op_of s i = res_ops (ld s) i"

definition upd_op :: "op_id \<Rightarrow> (residency_op \<Rightarrow> residency_op) \<Rightarrow> 'p core \<Rightarrow> 'p core" where
  "upd_op i f = ld_update (\<lambda>d. d\<lparr>res_ops := (res_ops d)(i := f (res_ops d i))\<rparr>)"

definition set_result :: "op_id \<Rightarrow> key \<Rightarrow> OpEntryResult \<Rightarrow> 'p core \<Rightarrow> 'p core" where
  "set_result i k v = upd_op i (\<lambda>p. p\<lparr>op_results := AList.update k v (op_results p)\<rparr>)"

definition deliver_of :: "'p core \<Rightarrow> op_id \<Rightarrow> deliver_op" where
  "deliver_of s i = del_ops (ld s) i"

definition upd_deliver :: "op_id \<Rightarrow> (deliver_op \<Rightarrow> deliver_op) \<Rightarrow> 'p core \<Rightarrow> 'p core" where
  "upd_deliver i f = ld_update (\<lambda>d. d\<lparr>del_ops := (del_ops d)(i := f (del_ops d i))\<rparr>)"

definition set_deliver_result :: "op_id \<Rightarrow> key \<Rightarrow> OpEntryResult \<Rightarrow> 'p core \<Rightarrow> 'p core" where
  "set_deliver_result i k v = upd_deliver i (\<lambda>p. p\<lparr>dl_results := AList.update k v (dl_results p)\<rparr>)"

text \<open>The keys of an operation that have no result yet.\<close>

definition unresolved :: "key list \<Rightarrow> (key, OpEntryResult) dict \<Rightarrow> key list" where
  "unresolved ks results = filter (\<lambda>k. map_of results k = None) ks"

definition enqueue_capacity_waiter :: "op_id \<Rightarrow> key \<Rightarrow> ('p, unit) act" where
  "enqueue_capacity_waiter i k = readS (\<lambda>s.
     if k \<in> set (op_waiting (op_of s i)) then raiseS (RuntimeError ''duplicate local capacity waiter'')
     else modS (\<lambda>s. upd_op i (\<lambda>p. p\<lparr>op_waiting := add_end k (op_waiting p)\<rparr>)
            (ld_update (\<lambda>d. d\<lparr>capacity_waiters := capacity_waiters d @ [(i, k)]\<rparr>) s)))"

text \<open>A new residency object, attached to the record of its key.\<close>

definition attach_residency :: "key \<Rightarrow> residency \<Rightarrow> 'p core \<Rightarrow> 'p core" where
  "attach_residency k r s =
     (let a = next_res s in
      upd_record k (\<lambda>rec. rec\<lparr>local_dram := Some a\<rparr>)
        (mark_source_pending k (upd_res a (\<lambda>_. r) (s\<lparr>next_res := Suc a\<rparr>))))"

definition layout_bytes :: "'p config \<Rightarrow> string list \<Rightarrow> int" where
  "layout_bytes c layout = sum_list (map (\<lambda>l. slot_size c (label_pool l)) layout)"

text \<open>\<open>writers[index] += d\<close> for every index.\<close>

definition bump_writers :: "int \<Rightarrow> nat list \<Rightarrow> residency \<Rightarrow> residency" where
  "bump_writers d indices r =
     r\<lparr>writers := map_option (fold (\<lambda>i w. w[i := w ! i + d]) indices) (writers r)\<rparr>"

definition submit_copy :: "(op_id \<Rightarrow> copy_op) \<Rightarrow> ('p, unit) act" where
  "submit_copy mk = readS (\<lambda>s.
     thenS (progress_submit (LocalCopy (mk (''local_copy'', Handle (next_fill_handle s)))))
       (modS (\<lambda>s. s\<lparr>next_fill_handle := next_fill_handle s - 1\<rparr>)))"

subsection \<open>Finishing operations\<close>

definition finish_residency_if_ready :: "'p hooks \<Rightarrow> op_id \<Rightarrow> ('p, unit) act" where
  "finish_residency_if_ready H i = readS (\<lambda>s.
     let p = op_of s i in
     if length (op_results p) \<noteq> length (op_keys p) \<or> i \<notin> set (pending_residency_ops (ld s)) then retS ()
     else
       let done = map fst (filter (\<lambda>(k, v). success v) (op_results p)) in
       thenS (modS (\<lambda>s.
           case map_of (remote_delivery_keys s) (request_id p) of
             None \<Rightarrow> s
           | Some ks \<Rightarrow>
               if fst i = ''fetch''
               then s\<lparr>remote_delivery_keys := AList.update (request_id p) (filter (\<lambda>k. k \<notin> set done) ks)
                       (remote_delivery_keys s)\<rparr>
               else s))
         (thenS (modS (\<lambda>s. upd_op i (\<lambda>p. p\<lparr>op_waiting := [], claimed_keys := []\<rparr>)
             (ld_update (\<lambda>d. d\<lparr>pending_residency_ops := removeAll i (pending_residency_ops d)\<rparr>) s)))
           (thenS (whenS (claimed_keys p \<noteq> []) (release_sources (resume H) (claimed_keys p)))
             (modS (\<lambda>s. core_complete (op_handle i) (op_results (op_of s i))
               (remove_block_dependencies i (op_keys p) s))))))"

definition finish_deliver_if_ready :: "'p hooks \<Rightarrow> op_id \<Rightarrow> ('p, unit) act" where
  "finish_deliver_if_ready H i = readS (\<lambda>s.
     let p = deliver_of s i in
     if length (dl_results p) \<noteq> length (dl_keys p) then retS ()
     else
       thenS (release_sources (resume H) (filter (\<lambda>k. k \<notin> set (dl_active p)) (dl_claimed p)))
         (thenS (modS (upd_deliver i (\<lambda>p. p\<lparr>dl_claimed := []\<rparr>)))
           (readS (\<lambda>s.
             if i \<notin> set (pending_deliver_ops (ld s)) then raiseS (KeyError ''pending deliver op'')
             else modS (\<lambda>s. core_complete (op_handle i) (dl_results (deliver_of s i))
               (remove_block_dependencies i (dl_keys p)
                 (ld_update (\<lambda>d. d\<lparr>pending_deliver_ops := removeAll i (pending_deliver_ops d)\<rparr>) s)))))))"

subsection \<open>Deposits\<close>

record copy_acc =
  acc_keys :: "key list"
  acc_indices :: "nat list list"
  acc_src :: "TransferRef list"
  acc_dst :: "TransferRef list"
  acc_evicted :: "key list"

definition copy_acc_init :: copy_acc where
  "copy_acc_init = \<lparr>acc_keys = [], acc_indices = [], acc_src = [], acc_dst = [], acc_evicted = []\<rparr>"

text \<open>The end of the loop body: the copy holds a claim and a deposit on the residency.\<close>

definition deposit_copy ::
  "op_id \<Rightarrow> key \<Rightarrow> nat \<Rightarrow> nat list \<Rightarrow> (string \<times> nat) list \<Rightarrow> TransferRef list \<Rightarrow> copy_acc \<Rightarrow> ('p, copy_acc) act" where
  "deposit_copy i k a indices selected srcs acc =
     thenS (modS (\<lambda>s. upd_op i (\<lambda>p. p\<lparr>active_keys := add_end k (active_keys p)\<rparr>)
         (upd_res a (\<lambda>r. r\<lparr>claim_count := claim_count r + 1, pending_deposits := pending_deposits r + 1\<rparr>) s)))
       (readS (\<lambda>s. retS (acc\<lparr>acc_keys := acc_keys acc @ [k], acc_indices := acc_indices acc @ [indices],
          acc_src := acc_src acc @ srcs, acc_dst := acc_dst acc @ pool_descriptors (cfg s) selected\<rparr>)))"

definition deposit_pieces ::
  "op_id \<Rightarrow> key \<Rightarrow> nat \<Rightarrow> TransferRef list \<Rightarrow> copy_acc \<Rightarrow> ('p, copy_acc) act" where
  "deposit_pieces i k a srcs acc =
     thenS (modS (upd_res a prepare_index)) (readS (\<lambda>s.
       let r = res_store s a in
       case layout_indices (res_layout r) (map label srcs) (indices_by_label r) of
         None \<Rightarrow> thenS (modS (set_result i k FAILED_RESULT)) (retS acc)
       | Some indices \<Rightarrow>
           let selected = filter (\<lambda>x. fst (slots r ! x) \<in> pending r) indices in
           if selected = [] then
             thenS
               (if claim_on_ready (op_of s i)
                then bindS (new_public_claim k a None) (\<lambda>v. modS (set_result i k v))
                else modS (set_result i k SUCCESS_RESULT))
               (retS acc)
           else
             case writers r of
               None \<Rightarrow> raiseS (TypeError ''writers'')
             | Some w \<Rightarrow>
                 if list_all (\<lambda>x. w ! x \<noteq> 0) selected then retS acc
                 else
                   thenS (modS (remove_evictable k a))
                     (thenS (modS (upd_res a (bump_writers 1 selected)))
                       (deposit_copy i k a selected (map ((!) (slots r)) selected)
                         (map fst (filter (\<lambda>(ref, x). fst (slots r ! x) \<in> pending r) (zip srcs indices))) acc))))"

definition deposit_admit ::
  "'p hooks \<Rightarrow> op_id \<Rightarrow> key \<Rightarrow> TransferRef list \<Rightarrow> copy_acc \<Rightarrow> ('p, copy_acc) act" where
  "deposit_admit H i k srcs acc = readS (\<lambda>s.
     let p = op_of s i; layout = map label srcs;
         declaration = (case op_key_layout p of Some (l # ls) \<Rightarrow> l # ls | _ \<Rightarrow> layout);
         local_layout = (case op_key_layout p of Some l \<Rightarrow> l | None \<Rightarrow> layout)
     in case decide_ingest (the_policy (cfg s)) (meta_of k (layout_bytes (cfg s) local_layout) s) FW_G2
               (claim_on_ready p) (op_hints p) (pol s) of (decision, pol') \<Rightarrow>
       thenS (modS (\<lambda>s. s\<lparr>pol := pol'\<rparr>))
         (if fst decision = DROP then thenS (modS (set_result i k DROPPED_RESULT)) (retS acc)
          else
            bindS (allocate_slots (decide H) local_layout (set (op_keys p)) (op_deadline p))
              (\<lambda>(locations, evicted, eviction_pending).
                let acc' = acc\<lparr>acc_evicted := acc_evicted acc @ evicted\<rparr> in
                case locations of
                  None \<Rightarrow>
                    thenS (if eviction_pending then enqueue_capacity_waiter i k
                           else modS (set_result i k FAILED_RESULT))
                      (retS acc')
                | Some locs \<Rightarrow>
                    let full = (layout = local_layout) in
                    readS (\<lambda>s.
                      let a = next_res s in
                      thenS (modS (attach_residency k (make_residency locs FILLING (Some declaration)
                               (Some (replicate (length locs) (if full then 1 else 0))))))
                        (if full then deposit_copy i k a [0..<length locs] locs srcs acc'
                         else deposit_pieces i k a srcs acc')))))"

definition deposit_key :: "'p hooks \<Rightarrow> op_id \<Rightarrow> key \<Rightarrow> copy_acc \<Rightarrow> ('p, copy_acc) act" where
  "deposit_key H i k acc = readS (\<lambda>s.
     let p = op_of s i in
     if map_of (op_results p) k \<noteq> None \<or> k \<in> set (op_waiting p) \<or> k \<in> set (active_keys p) then retS acc
     else if now s \<ge> op_deadline p then thenS (modS (set_result i k FAILED_RESULT)) (retS acc)
     else
       case (case op_sources p of None \<Rightarrow> None | Some m \<Rightarrow> map_of m k) of
         None \<Rightarrow> raiseS (KeyError ''deposit source'')
       | Some srcs \<Rightarrow>
           thenS (modS (get_block_record k)) (readS (\<lambda>s.
             case residency_of s k of
               None \<Rightarrow> deposit_admit H i k srcs acc
             | Some a \<Rightarrow>
                 let r = res_store s a in
                 if rstate r = DISCARDING \<or> retire_on_release r \<or>
                    (op_key_layout p \<noteq> None \<and> Some (key_layout r) \<noteq> op_key_layout p)
                 then thenS (modS (set_result i k FAILED_RESULT)) (retS acc)
                 else deposit_pieces i k a srcs acc)))"

definition start_deposits :: "'p hooks \<Rightarrow> op_id \<Rightarrow> key list \<Rightarrow> ('p, unit) act" where
  "start_deposits H i ks = readS (\<lambda>s.
     if op_sources (op_of s i) = None then raiseS (RuntimeError ''deposit has no source descriptors'')
     else
       bindS (foldS (deposit_key H i) ks copy_acc_init) (\<lambda>acc.
         thenS (modS (\<lambda>s. publish_inventory (acc_evicted acc) LOCAL_G2 True (update_capacity_pressure s)))
           (thenS (finish_residency_if_ready H i)
             (readS (\<lambda>s.
               if acc_keys acc = [] then retS ()
               else
                 let d = op_deadline (op_of s i) in
                 submit_copy (\<lambda>c. \<lparr>copy_id = c, deliver_op_id = None, ordered_keys = acc_keys acc,
                   local_indices = acc_indices acc, src_descriptors = acc_src acc,
                   dst_descriptors = acc_dst acc, copy_deadline = d,
                   abandon_deadline = d + abandon_grace (cfg s), transfer_id = None, copy_success = False,
                   failure_latched = False, uncertain = False, deposit_op = Some i\<rparr>))))))"

definition dram_deposit ::
  "'p hooks \<Rightarrow> int \<Rightarrow> (key, TransferRef list) dict \<Rightarrow> bool \<Rightarrow> string option \<Rightarrow> string list option \<Rightarrow>
     ('p, unit) act" where
  "dram_deposit H h blocks no_evict hints layout =
     (if blocks = [] then modS (core_complete h [])
      else
        let i = (''deposit'', Handle h); ks = map fst blocks in
        thenS (modS (\<lambda>s. add_block_dependencies i ks True
          (ld_update (\<lambda>d. d\<lparr>res_ops := (res_ops d)(i :=
              \<lparr>op_keys = ks, op_deadline = now s + operation_timeout (cfg s), claim_on_ready = no_evict,
               request_id = None, op_results = [], remote_fill_keys = [], op_waiting = [],
               op_sources = Some blocks, op_hints = hints, active_keys = [], requested_layout = [],
               op_key_layout = layout, fill_sources = [], claimed_keys = []\<rparr>),
             pending_residency_ops := add_end i (pending_residency_ops d)\<rparr>) s)))
          (start_deposits H i ks))"

subsection \<open>Fetches\<close>

definition reserve_fill :: "'p hooks \<Rightarrow> key \<Rightarrow> op_id \<Rightarrow> CacheTier \<Rightarrow> ('p, bool \<times> bool) act" where
  "reserve_fill H k i source =
     thenS (modS (get_block_record k)) (readS (\<lambda>s.
       let p = op_of s i; layout = requested_layout p in
       case decide_ingest (the_policy (cfg s)) (meta_of k (layout_bytes (cfg s) layout) s) source True
              (op_hints p) (pol s) of (decision, pol') \<Rightarrow>
         thenS (modS (\<lambda>s. s\<lparr>pol := pol'\<rparr>))
           (if fst decision = DROP then retS (False, False)
            else
              bindS (allocate_slots (decide H) layout (set (op_keys p)) (op_deadline p)) (\<lambda>(locations, evicted, waiting).
                thenS (modS (\<lambda>s.
                    publish_inventory evicted LOCAL_G2 True (update_capacity_pressure
                      (case locations of None \<Rightarrow> s
                       | Some locs \<Rightarrow> attach_residency k (make_residency locs FILLING (op_key_layout p) None) s))))
                  (retS (locations \<noteq> None, waiting))))))"

definition prepare_fetch_pieces ::
  "op_id \<Rightarrow> key \<Rightarrow> CacheTier option \<Rightarrow> nat \<Rightarrow> ('p, TransferRef list option) act" where
  "prepare_fetch_pieces i k source a =
     thenS (modS (upd_res a prepare_index)) (readS (\<lambda>s.
       let p = op_of s i; r = res_store s a; layout = requested_layout p in
       case layout_indices (res_layout r) layout (indices_by_label r) of
         None \<Rightarrow> thenS (modS (set_result i k FAILED_RESULT)) (retS None)
       | Some indices \<Rightarrow>
           if pending r \<inter> set layout = {} then
             thenS (record_access [k])
               (bindS (new_public_claim k a (Some (map ((!) (slots r)) indices)))
                 (\<lambda>v. thenS (modS (set_result i k v)) (retS None)))
           else
             thenS (whenS (k \<notin> set (claimed_keys p))
                 (thenS (acquire_claim k a)
                   (modS (upd_op i (\<lambda>p. p\<lparr>claimed_keys := add_end k (claimed_keys p)\<rparr>)))))
               (readS (\<lambda>s.
                 let r = res_store s a in
                 if source = None \<or> remote_indices r \<noteq> None then retS None
                 else
                   case writers r of
                     None \<Rightarrow> raiseS (TypeError ''writers'')
                   | Some w \<Rightarrow>
                       let missing = filter (\<lambda>x. fst (slots r ! x) \<in> pending r \<and> w ! x = 0) indices in
                       if missing = [] then retS None
                       else
                         thenS (modS (\<lambda>s. upd_op i (\<lambda>p. p\<lparr>remote_fill_keys := add_end k (remote_fill_keys p)\<rparr>)
                             (upd_res a (\<lambda>r. (bump_writers 1 missing r)\<lparr>remote_indices := Some missing,
                                claim_count := claim_count r + 1\<rparr>) (remove_evictable k a s))))
                           (readS (\<lambda>s. retS (Some (pool_descriptors (cfg s) (map ((!) (slots r)) missing)))))))))"

definition prepare_fetch :: "'p hooks \<Rightarrow> op_id \<Rightarrow> key \<Rightarrow> ('p, TransferRef list option) act" where
  "prepare_fetch H i k =
     thenS (modS (get_block_record k)) (readS (\<lambda>s.
       let p = op_of s i; source = map_of (fill_sources p) k;
           fail = thenS (modS (set_result i k FAILED_RESULT)) (retS None);
           wait = thenS (enqueue_capacity_waiter i k) (retS None)
       in if now s \<ge> op_deadline p then fail
          else
            case residency_of s k of
              Some a \<Rightarrow>
                if rstate (res_store s a) = DISCARDING then (if source \<noteq> None then wait else fail)
                else if op_key_layout p \<noteq> None \<and> op_key_layout p \<noteq> Some (key_layout (res_store s a)) then fail
                else prepare_fetch_pieces i k source a
            | None \<Rightarrow>
                (case source of
                   None \<Rightarrow> fail
                 | Some src \<Rightarrow>
                     bindS (reserve_fill H k i src) (\<lambda>(reserved, waiting).
                       if \<not> reserved then (if waiting then wait else fail)
                       else readS (\<lambda>s.
                         case residency_of s k of
                           None \<Rightarrow> raiseS (TypeError ''residency'')
                         | Some a \<Rightarrow> prepare_fetch_pieces i k source a)))))"

definition resolve_fetch_waiter :: "'p hooks \<Rightarrow> key \<Rightarrow> op_id \<Rightarrow> ('p, bool) act" where
  "resolve_fetch_waiter H k i =
     bindS (prepare_fetch H i k) (\<lambda>found.
       thenS
         (case found of
            None \<Rightarrow> retS ()
          | Some [] \<Rightarrow> retS ()
          | Some trs \<Rightarrow> readS (\<lambda>s.
              let p = op_of s i in
              case map_of (fill_sources p) k of
                None \<Rightarrow> raiseS (KeyError ''fill source'')
              | Some src \<Rightarrow> fill H src [(k, trs)] (request_id p) (op_deadline p)))
         (getS (\<lambda>s. map_of (op_results (op_of s i)) k \<noteq> None)))"

definition dram_fetch ::
  "'p hooks \<Rightarrow> int \<Rightarrow> key list \<Rightarrow> (key, CacheTier) dict \<Rightarrow> string option \<Rightarrow> time \<Rightarrow> string option \<Rightarrow>
     string list \<Rightarrow> string list option \<Rightarrow> ('p, (key, TransferRef list) dict) act" where
  "dram_fetch H h keys sources rid deadline hints layout klayout =
     (let ks = fromkeys keys in
      if ks = [] then thenS (modS (core_complete h [])) (retS [])
      else
        let i = (''fetch'', Handle h) in
        thenS (modS (\<lambda>s. add_block_dependencies i ks True
          (ld_update (\<lambda>d. d\<lparr>res_ops := (res_ops d)(i :=
              \<lparr>op_keys = ks, op_deadline = deadline, claim_on_ready = True,
               request_id = rid, op_results = [], remote_fill_keys = [], op_waiting = [],
               op_sources = None, op_hints = hints, active_keys = [], requested_layout = layout,
               op_key_layout = klayout, fill_sources = sources, claimed_keys = []\<rparr>),
             pending_residency_ops := add_end i (pending_residency_ops d)\<rparr>) s)))
          (bindS (foldS (\<lambda>k destinations. bindS (prepare_fetch H i k) (\<lambda>found.
               retS (case found of None \<Rightarrow> destinations | Some [] \<Rightarrow> destinations
                     | Some trs \<Rightarrow> AList.update k trs destinations))) ks [])
             (\<lambda>destinations. thenS (finish_residency_if_ready H i) (retS destinations))))"

subsection \<open>Deliveries\<close>

definition deliver_key :: "op_id \<Rightarrow> key \<Rightarrow> copy_acc \<Rightarrow> ('p, copy_acc) act" where
  "deliver_key i k acc = readS (\<lambda>s.
     let p = deliver_of s i; fail = thenS (modS (set_deliver_result i k FAILED_RESULT)) (retS acc) in
     if map_of (dl_results p) k \<noteq> None \<or> k \<in> set (dl_active p) then retS acc
     else
       case residency_of s k of
         None \<Rightarrow> fail
       | Some a \<Rightarrow>
           if rstate (res_store s a) = DISCARDING \<or> now s \<ge> dl_deadline p then fail
           else
             case map_of (dl_destinations p) k of
               None \<Rightarrow> raiseS (KeyError ''destination'')
             | Some dsts \<Rightarrow>
                 thenS (modS (upd_res a prepare_index)) (readS (\<lambda>s.
                   let r = res_store s a; labels = map label dsts; found = ready_indices r labels in
                   if found = None \<and> \<not> can_wait_for_pieces r labels then fail
                   else
                     thenS (whenS (k \<notin> set (dl_claimed p))
                         (thenS (acquire_claim k a)
                           (modS (upd_deliver i (\<lambda>p. p\<lparr>dl_claimed := add_end k (dl_claimed p)\<rparr>)))))
                       (case found of
                          None \<Rightarrow> retS acc
                        | Some indices \<Rightarrow> readS (\<lambda>s.
                            case source_refs (cfg s) (res_store s a) indices of (srcs, r') \<Rightarrow>
                              thenS (modS (\<lambda>s. upd_deliver i (\<lambda>p. p\<lparr>dl_active := add_end k (dl_active p)\<rparr>)
                                  (upd_res a (\<lambda>_. r') s)))
                                (retS (acc\<lparr>acc_keys := acc_keys acc @ [k], acc_src := acc_src acc @ srcs,
                                  acc_dst := acc_dst acc @ dsts\<rparr>)))))))"

definition start_deliveries :: "'p hooks \<Rightarrow> op_id \<Rightarrow> key list \<Rightarrow> ('p, unit) act" where
  "start_deliveries H i ks =
     bindS (foldS (deliver_key i) ks copy_acc_init) (\<lambda>acc.
       thenS (modS update_capacity_pressure)
       (thenS (readS (\<lambda>s.
           let d = dl_deadline (deliver_of s i) in
           if acc_keys acc = [] then retS ()
           else
             submit_copy (\<lambda>c. \<lparr>copy_id = c, deliver_op_id = Some i, ordered_keys = acc_keys acc,
               local_indices = [], src_descriptors = acc_src acc, dst_descriptors = acc_dst acc,
               copy_deadline = d, abandon_deadline = d + abandon_grace (cfg s), transfer_id = None,
               copy_success = False, failure_latched = False, uncertain = False, deposit_op = None\<rparr>)))
         (finish_deliver_if_ready H i)))"

definition dram_deliver ::
  "'p hooks \<Rightarrow> int \<Rightarrow> (key, TransferRef list) dict \<Rightarrow> time \<Rightarrow> ('p, unit) act" where
  "dram_deliver H h blocks deadline =
     (let i = (''local_deliver'', Handle h); ks = map fst blocks in
      thenS (modS (\<lambda>s. add_block_dependencies i ks True
        (ld_update (\<lambda>d. d\<lparr>del_ops := (del_ops d)(i :=
            \<lparr>dl_keys = ks, dl_deadline = deadline, dl_destinations = blocks, dl_results = [],
             dl_active = [], dl_claimed = []\<rparr>),
           pending_deliver_ops := add_end i (pending_deliver_ops d)\<rparr>) s)))
        (start_deliveries H i ks))"

definition finish_delivery_copy :: "'p hooks \<Rightarrow> copy_op \<Rightarrow> ('p, unit) act" where
  "finish_delivery_copy H c =
     (case deliver_op_id c of
        None \<Rightarrow> raiseS (RuntimeError ''local delivery has no owning operation'')
      | Some i \<Rightarrow> readS (\<lambda>s0.
          let owned = (i \<in> set (pending_deliver_ops (ld s0))) in
          thenS (forS (ordered_keys c) (\<lambda>k. readS (\<lambda>s.
              case residency_of s k of
                None \<Rightarrow> raiseS (RuntimeError ''local DRAM delivery state lost'')
              | Some a \<Rightarrow>
                  if (owned \<and> k \<notin> set (dl_claimed (deliver_of s i))) \<or> rstate (res_store s a) \<noteq> READY
                  then raiseS (RuntimeError ''local DRAM delivery state lost'')
                  else
                    thenS (whenS (copy_success c) (record_access [k]))
                      (thenS (release_claim (resume H) k a)
                        (whenS owned (modS (\<lambda>s. set_deliver_result i k
                            (if copy_success c then SUCCESS_RESULT else FAILED_RESULT)
                            (upd_deliver i (\<lambda>p. p\<lparr>dl_claimed := removeAll k (dl_claimed p),
                               dl_active := removeAll k (dl_active p)\<rparr>) s))))))))
            (thenS (modS update_capacity_pressure)
              (whenS owned (finish_deliver_if_ready H i)))))"

subsection \<open>The end of a fill\<close>

record fill_acc =
  committed :: "key list"
  failed :: "key list"
  affected_residency :: "op_id list"
  queued_deposits :: "(op_id, key list) dict"
  affected_deliver :: "op_id list"
  deliver_keys :: "(op_id, key list) dict"
  fill_offset :: nat

definition fill_acc_init :: fill_acc where
  "fill_acc_init = \<lparr>committed = [], failed = [], affected_residency = [], queued_deposits = [],
     affected_deliver = [], deliver_keys = [], fill_offset = 0\<rparr>"

text \<open>\<open>d.setdefault(i, []).append(k)\<close>.\<close>

definition append_at :: "'a \<Rightarrow> 'b \<Rightarrow> ('a, 'b list) dict \<Rightarrow> ('a, 'b list) dict" where
  "append_at i x d = AList.update i ((case map_of d i of None \<Rightarrow> [] | Some xs \<Rightarrow> xs) @ [x]) d"

definition active_op_ids :: "'p core \<Rightarrow> key \<Rightarrow> op_id list" where
  "active_op_ids s k = (case map_of (block_record_map s) k of None \<Rightarrow> [] | Some rec \<Rightarrow> in_flight_ops rec)"

definition lower_writer :: "nat \<Rightarrow> nat \<Rightarrow> ('p, unit) act" where
  "lower_writer a x = readS (\<lambda>s.
     case writers (res_store s a) of
       None \<Rightarrow> raiseS (TypeError ''writers'')
     | Some w \<Rightarrow>
         thenS (modS (upd_res a (bump_writers (-1) [x])))
           (if w ! x - 1 < 0 then raiseS (RuntimeError ''local DRAM writer ownership lost'') else retS ()))"

text \<open>The pieces a successful fill wrote become readable. Returns whether the residency is complete.\<close>

definition commit_pieces ::
  "key \<Rightarrow> nat \<Rightarrow> nat list \<Rightarrow> CacheTier \<Rightarrow> bool \<Rightarrow> TransferRef list option \<Rightarrow> ('p, bool) act" where
  "commit_pieces k a indices source was_ready given = readS (\<lambda>s.
     let r = res_store s a; before = pending r;
         left = (if length indices = length (slots r) then {}
                 else before - set (map (\<lambda>x. fst (slots r ! x)) indices))
     in thenS (modS (upd_res a (\<lambda>r. r\<lparr>pending_labels := Some left\<rparr>)))
          (if left = before then retS False
           else
             thenS (modS (\<lambda>s.
               let s1 = upd_record k (\<lambda>rec. rec\<lparr>rec_last_access := Some (now s)\<rparr>)
                     (publish_source k a given (upd_res a (\<lambda>r. prepare_index (r\<lparr>rstate := READY\<rparr>)) s));
                   s2 = (if was_ready then s1
                     else core_on_ingest (meta_of k (residency_size (cfg s1) (res_store s1 a)) s1) source s1)
               in if left = {} then observe k s2 else s2))
             (retS (left = {}))))"

definition fill_results ::
  "key \<Rightarrow> nat \<Rightarrow> bool \<Rightarrow> op_id option \<Rightarrow> op_id list \<Rightarrow> ('p, op_id list) act" where
  "fill_results k a key_success writer affected = readS (\<lambda>s.
     case writer of
       Some w \<Rightarrow>
         if map_of (op_results (op_of s w)) k \<noteq> None then retS affected
         else
           thenS (if key_success \<and> claim_on_ready (op_of s w)
                  then bindS (new_public_claim k a None) (\<lambda>v. modS (set_result w k v))
                  else modS (set_result w k (if key_success then SUCCESS_RESULT else FAILED_RESULT)))
             (retS (add_end w affected))
     | None \<Rightarrow>
         foldS (\<lambda>i affected. readS (\<lambda>s.
           if i \<in> set (pending_residency_ops (ld s)) \<and> k \<in> set (remote_fill_keys (op_of s i)) then
             thenS (modS (upd_op i (\<lambda>p. p\<lparr>remote_fill_keys := removeAll k (remote_fill_keys p)\<rparr>)))
               (if key_success then retS affected
                else thenS (modS (set_result i k FAILED_RESULT)) (retS (add_end i affected)))
           else retS affected)) (active_op_ids s k) affected)"

text \<open>Wake the other operations on the key. The residency may have left with its last claim.\<close>

definition wake_op :: "'p hooks \<Rightarrow> op_id option \<Rightarrow> key \<Rightarrow> op_id \<Rightarrow> fill_acc \<Rightarrow> ('p, fill_acc) act" where
  "wake_op H writer k i acc =
     (if writer = Some i then retS acc
      else readS (\<lambda>s.
        let p = op_of s i;
            to_deliver = (\<lambda>acc. readS (\<lambda>s.
              let d = deliver_of s i in
              if i \<in> set (pending_deliver_ops (ld s)) \<and> k \<in> set (dl_keys d) \<and> map_of (dl_results d) k = None then
                (if residency_of s k \<noteq> None
                 then retS (acc\<lparr>deliver_keys := append_at i k (deliver_keys acc),
                        affected_deliver := add_end i (affected_deliver acc)\<rparr>)
                 else thenS (modS (set_deliver_result i k FAILED_RESULT))
                        (retS (acc\<lparr>affected_deliver := add_end i (affected_deliver acc)\<rparr>)))
              else retS acc))
        in if i \<in> set (pending_residency_ops (ld s)) \<and> k \<in> set (op_keys p) \<and> map_of (op_results p) k = None \<and>
              k \<notin> set (op_waiting p) \<and> k \<notin> set (active_keys p) then
             (if op_sources p \<noteq> None then retS (acc\<lparr>queued_deposits := append_at i k (queued_deposits acc)\<rparr>)
              else bindS (resolve_fetch_waiter H k i) (\<lambda>resolved.
                if \<not> resolved then retS acc
                else to_deliver (acc\<lparr>affected_residency := add_end i (affected_residency acc)\<rparr>)))
           else to_deliver acc))"

definition fill_key ::
  "'p hooks \<Rightarrow> bool \<Rightarrow> CacheTier \<Rightarrow> op_id option \<Rightarrow> TransferRef list \<Rightarrow> key \<times> nat list \<Rightarrow> fill_acc \<Rightarrow>
     ('p, fill_acc) act" where
  "fill_key H succ source writer dsts = (\<lambda>(k, indices) acc0. readS (\<lambda>s.
     let start = fill_offset acc0; acc = acc0\<lparr>fill_offset := start + length indices\<rparr> in
     case residency_of s k of
       None \<Rightarrow> raiseS (RuntimeError ''local DRAM fill state lost'')
     | Some a \<Rightarrow>
         let r = res_store s a;
             key_success = (succ \<and> rstate r \<noteq> DISCARDING \<and> (writer \<noteq> None \<or> \<not> remote_cancelled r));
             given = (if dsts \<noteq> [] \<and> length indices = length (slots r) \<and> indices = [0..<length indices]
                      then Some (slice start (length indices) dsts) else None)
         in
         thenS (forS indices (lower_writer a))
         (thenS
           (case writer of
              Some w \<Rightarrow> readS (\<lambda>s.
                if k \<notin> set (active_keys (op_of s w)) then raiseS (KeyError ''active key'')
                else modS (\<lambda>s. upd_res a (\<lambda>r. r\<lparr>pending_deposits := pending_deposits r - 1\<rparr>)
                       (upd_op w (\<lambda>p. p\<lparr>active_keys := removeAll k (active_keys p)\<rparr>) s)))
            | None \<Rightarrow> modS (upd_res a (\<lambda>r. r\<lparr>remote_indices := None, remote_cancelled := False\<rparr>)))
         (bindS (readS (\<lambda>s. if key_success \<and> pending (res_store s a) \<noteq> {}
             then commit_pieces k a indices source (rstate r = READY) given else retS False)) (\<lambda>complete.
           thenS (modS (upd_res a settle))
           (bindS (fill_results k a key_success writer (affected_residency acc)) (\<lambda>affected.
             thenS (release_claim (resume H) k a)
             (readS (\<lambda>s.
               let acc1 = acc\<lparr>committed := (if complete then committed acc @ [k] else committed acc),
                     failed := (if residency_of s k = None then failed acc @ [k] else failed acc),
                     affected_residency := affected\<rparr>
               in foldS (wake_op H writer k) (active_op_ids s k) acc1)))))))))"

definition apply_fill_result ::
  "'p hooks \<Rightarrow> key list \<Rightarrow> nat list list \<Rightarrow> bool \<Rightarrow> CacheTier \<Rightarrow> op_id option \<Rightarrow> TransferRef list \<Rightarrow>
     ('p, unit) act" where
  "apply_fill_result H ks indices succ source writer dsts =
     bindS (foldS (fill_key H succ source writer dsts) (zip ks indices) fill_acc_init) (\<lambda>acc.
       thenS (modS (\<lambda>s. publish_inventory (committed acc) LOCAL_G2 False (update_capacity_pressure s)))
       (thenS (forS (affected_residency acc) (finish_residency_if_ready H))
       (thenS (forS (queued_deposits acc) (\<lambda>(i, ks). readS (\<lambda>s.
           whenS (i \<in> set (pending_residency_ops (ld s))) (start_deposits H i ks))))
       (thenS (forS (affected_deliver acc) (\<lambda>i. start_deliveries H i
           (case map_of (deliver_keys acc) i of None \<Rightarrow> [] | Some ks \<Rightarrow> ks)))
       (thenS (modS (fold prune_block_record (failed acc)))
         (resume H))))))"

definition complete_fill :: "'p hooks \<Rightarrow> key list \<Rightarrow> bool \<Rightarrow> ('p, unit) act" where
  "complete_fill H ks succ =
     bindS (foldS (\<lambda>k indices. readS (\<lambda>s.
         case residency_of s k of
           None \<Rightarrow> raiseS (RuntimeError ''local DRAM fill state lost'')
         | Some a \<Rightarrow>
             (case remote_indices (res_store s a) of
                None \<Rightarrow> raiseS (RuntimeError ''local DRAM fill state lost'')
              | Some xs \<Rightarrow> retS (indices @ [xs])))) ks [])
       (\<lambda>indices. apply_fill_result H ks indices succ REMOTE_G2 None [])"

definition finish_copy :: "'p hooks \<Rightarrow> copy_op \<Rightarrow> ('p, unit) act" where
  "finish_copy H c = readS (\<lambda>s.
     if transfer_id c \<noteq> None then
       (case deliver_op_id c of
          None \<Rightarrow>
            (case deposit_op c of
               None \<Rightarrow> raiseS (TypeError ''deposit_op'')
             | Some w \<Rightarrow>
                 thenS (modS (fold (\<lambda>k. set_result w k FAILED_RESULT) (ordered_keys c)))
                   (finish_residency_if_ready H w))
        | Some i \<Rightarrow>
            if i \<notin> set (pending_deliver_ops (ld s)) then raiseS (KeyError ''pending deliver op'')
            else
              thenS (modS (fold (\<lambda>k. set_deliver_result i k FAILED_RESULT) (ordered_keys c)))
                (finish_deliver_if_ready H i))
     else if deliver_op_id c \<noteq> None then finish_delivery_copy H c
     else apply_fill_result H (ordered_keys c) (local_indices c) (copy_success c) FW_G2 (deposit_op c)
            (if has_framework_control (cfg s) then dst_descriptors c else []))"

subsection \<open>Discarding fills and expiry\<close>

definition discard_op :: "key \<Rightarrow> nat \<Rightarrow> op_id \<Rightarrow> op_id list \<times> op_id list \<Rightarrow> ('p, op_id list \<times> op_id list) act" where
  "discard_op k a i = (\<lambda>(rops, dops). readS (\<lambda>s.
     let p = op_of s i; d = deliver_of s i; gone = (rstate (res_store s a) = DISCARDING);
         hit_r = (i \<in> set (pending_residency_ops (ld s)) \<and> k \<in> set (op_keys p) \<and> map_of (op_results p) k = None \<and>
           k \<notin> set (op_waiting p) \<and> (k \<in> set (remote_fill_keys p) \<or> gone));
         hit_d = (i \<in> set (pending_deliver_ops (ld s)) \<and> k \<in> set (dl_keys d) \<and> map_of (dl_results d) k = None \<and> gone)
     in thenS (whenS hit_r (modS (set_result i k FAILED_RESULT)))
          (thenS (whenS hit_d (modS (set_deliver_result i k FAILED_RESULT)))
            (retS (if hit_r then add_end i rops else rops, if hit_d then add_end i dops else dops)))))"

definition discard_key :: "key \<Rightarrow> op_id list \<times> op_id list \<Rightarrow> ('p, op_id list \<times> op_id list) act" where
  "discard_key k acc = readS (\<lambda>s.
     case residency_of s k of
       None \<Rightarrow> raiseS (RuntimeError ''local DRAM fill state lost'')
     | Some a \<Rightarrow>
         let r = res_store s a in
         if remote_indices r = None \<and> rstate r = READY
         then raiseS (RuntimeError ''local DRAM fill state lost'')
         else
           thenS (modS (\<lambda>s.
               if remote_indices r = None \<or> (rstate r = FILLING \<and> pending_deposits r = 0)
               then upd_res a (\<lambda>r. r\<lparr>rstate := DISCARDING\<rparr>) (mark_source_pending k s) else s))
             (thenS (modS (\<lambda>s. if remote_indices r \<noteq> None then upd_res a (\<lambda>r. r\<lparr>remote_cancelled := True\<rparr>) s else s))
               (foldS (discard_op k a) (active_op_ids s k) acc)))"

definition discard_fill :: "'p hooks \<Rightarrow> key list \<Rightarrow> ('p, unit) act" where
  "discard_fill H ks =
     bindS (foldS discard_key (fromkeys ks) ([], [])) (\<lambda>(rops, dops).
       thenS (forS rops (finish_residency_if_ready H)) (forS dops (finish_deliver_if_ready H)))"

definition expire_residency_op :: "'p hooks \<Rightarrow> time \<Rightarrow> op_id \<Rightarrow> ('p, unit) act" where
  "expire_residency_op H t i = readS (\<lambda>s.
     let p = op_of s i; missing = unresolved (op_keys p) (op_results p) in
     if i \<notin> set (pending_residency_ops (ld s)) \<or> t < op_deadline p then retS ()
     else if fst i = ''deposit'' then
       thenS (modS (fold (\<lambda>k s.
           set_result i k FAILED_RESULT (upd_op i (\<lambda>p. p\<lparr>op_waiting := removeAll k (op_waiting p)\<rparr>) s))
           (filter (\<lambda>k. k \<notin> set (active_keys p)) missing)))
         (finish_residency_if_ready H i)
     else if fst i \<noteq> ''fetch'' then retS ()
     else
       let fills = filter (\<lambda>k. k \<in> set (remote_fill_keys p)) missing in
       thenS (modS (fold (\<lambda>k. set_result i k FAILED_RESULT) (filter (\<lambda>k. k \<notin> set fills) missing)))
         (if fills \<noteq> [] then discard_fill H fills else finish_residency_if_ready H i))"

definition expire_deliver_op :: "'p hooks \<Rightarrow> time \<Rightarrow> op_id \<Rightarrow> ('p, unit) act" where
  "expire_deliver_op H t i = readS (\<lambda>s.
     let d = deliver_of s i in
     if t < dl_deadline d then retS ()
     else
       thenS (modS (fold (\<lambda>k. set_deliver_result i k FAILED_RESULT)
           (filter (\<lambda>k. k \<notin> set (dl_active d)) (unresolved (dl_keys d) (dl_results d)))))
         (finish_deliver_if_ready H i))"

definition expire_pending_ops :: "'p hooks \<Rightarrow> time \<Rightarrow> ('p, unit) act" where
  "expire_pending_ops H t =
     thenS (readS (\<lambda>s. forS (pending_residency_ops (ld s)) (expire_residency_op H t)))
       (readS (\<lambda>s. forS (pending_deliver_ops (ld s)) (expire_deliver_op H t)))"

subsection \<open>Operations waiting for capacity\<close>

definition pop_waiter :: "'p core \<Rightarrow> 'p core" where
  "pop_waiter = ld_update (\<lambda>d. d\<lparr>capacity_waiters := tl (capacity_waiters d)\<rparr>)"

definition unwait :: "op_id \<Rightarrow> key \<Rightarrow> 'p core \<Rightarrow> 'p core" where
  "unwait i k s = upd_op i (\<lambda>p. p\<lparr>op_waiting := removeAll k (op_waiting p)\<rparr>) (pop_waiter s)"

text \<open>One round of the loop; \<open>True\<close> is the \<open>break\<close>.\<close>

definition resume_waiter :: "'p hooks \<Rightarrow> ('p, bool) act" where
  "resume_waiter H = readS (\<lambda>s.
     case capacity_waiters (ld s) of
       [] \<Rightarrow> raiseS (IndexError ''deque index out of range'')
     | (i, k) # rest \<Rightarrow>
         let p = op_of s i in
         if k \<notin> set (op_waiting p) \<or> i \<notin> set (pending_residency_ops (ld s))
         then thenS (modS pop_waiter) (retS False)
         else if map_of (op_results p) k \<noteq> None then thenS (modS (unwait i k)) (retS False)
         else if now s \<ge> op_deadline p then
           thenS (modS (\<lambda>s. set_result i k FAILED_RESULT (unwait i k s)))
             (thenS (finish_residency_if_ready H i) (retS False))
         else
           thenS (modS (get_block_record k)) (readS (\<lambda>s.
             if (case residency_of s k of None \<Rightarrow> False | Some a \<Rightarrow> rstate (res_store s a) = DISCARDING)
             then thenS (modS (ld_update (\<lambda>d. d\<lparr>capacity_waiters := rest @ [(i, k)]\<rparr>))) (retS False)
             else
               thenS (modS (unwait i k))
                 (if op_sources p \<noteq> None then thenS (start_deposits H i [k]) (retS False)
                  else
                    thenS (resolve_fetch_waiter H k i) (readS (\<lambda>s.
                      if k \<in> set (op_waiting (op_of s i)) then
                        thenS (modS (ld_update (\<lambda>d. d\<lparr>capacity_waiters := last (capacity_waiters d) # butlast (capacity_waiters d)\<rparr>)))
                          (retS True)
                      else thenS (finish_residency_if_ready H i) (retS False)))))))"

text \<open>
  \<open>_resume_capacity_waiters\<close> does nothing when it is already running, so inside its own body the hook is a
  no-op: \<open>H\<close> here is a record whose \<open>resume\<close> returns at once.
\<close>

definition resume_capacity_waiters :: "'p hooks \<Rightarrow> ('p, unit) act" where
  "resume_capacity_waiters H = readS (\<lambda>s.
     if resuming (ld s) then retS ()
     else
       finallyS
         (thenS (modS (ld_update (\<lambda>d. d\<lparr>resuming := True\<rparr>)))
           (thenS (drain_source_completions (resume H))
             (readS (\<lambda>s.
               thenS (foldS (\<lambda>_ stop. if stop then retS True else resume_waiter H)
                   (replicate (length (capacity_waiters (ld s))) ()) False)
                 (retS ())))))
         (\<lambda>s. update_capacity_pressure (ld_update (\<lambda>d. d\<lparr>resuming := False\<rparr>) s)))"

text \<open>\<open>poll_main\<close> over the copies among the items; the other items are left to the other backends.\<close>

definition dram_poll_main :: "'p hooks \<Rightarrow> (copy_op + 'i) list \<Rightarrow> ('p, 'i list) act" where
  "dram_poll_main H items =
     thenS (drain_source_completions (resume H))
     (thenS (modS update_capacity_pressure)
     (bindS (foldS (\<lambda>item unhandled.
          case item of Inl c \<Rightarrow> thenS (finish_copy H c) (retS unhandled) | Inr x \<Rightarrow> retS (unhandled @ [x]))
          items [])
       (\<lambda>unhandled. thenS (readS (\<lambda>s. expire_pending_ops H (now s))) (retS unhandled))))"

subsection \<open>A copy on the progress thread\<close>

text \<open>
  \<open>_LocalCopyOp.progress\<close>. The readings of the clock and the answers of the transfer engine are
  arguments: \<open>sub\<close> is the result of \<open>submit_transfer\<close>, \<open>poll\<close> that of \<open>poll_transfer\<close> (\<open>None\<close> while the
  transfer runs). What it appends to the completed backlog is the list it returns: memory reports
  and the copy itself.
\<close>

datatype copy_event = MemoryReport bool "(key \<times> MemoryRef list) list option" "MemoryRef list" bool | CopyDone copy_op

definition mref :: "TransferRef \<Rightarrow> MemoryRef" where
  "mref r = \<lparr>mref_end_point_name = end_point_name r, mref_label = label r, mref_element_index = element_index r\<rparr>"

fun split_blocks :: "key list \<Rightarrow> nat list list \<Rightarrow> 'a list \<Rightarrow> (key \<times> 'a list) list" where
  "split_blocks (k # ks) (xs # xss) rs = (k, take (length xs) rs) # split_blocks ks xss (drop (length xs) rs)"
| "split_blocks _ _ _ = []"

definition report_memory :: "copy_op \<Rightarrow> bool \<Rightarrow> copy_event" where
  "report_memory c quiesced =
     MemoryReport quiesced
       (if deliver_op_id c = None
        then Some (split_blocks (ordered_keys c) (local_indices c) (map mref (src_descriptors c))) else None)
       (map mref (dst_descriptors c)) (deliver_op_id c = None)"

definition copy_poll ::
  "time \<Rightarrow> time \<Rightarrow> bool option \<Rightarrow> bool \<Rightarrow> copy_op \<Rightarrow> (bool \<times> bool) \<times> copy_op \<times> copy_event list" where
  "copy_poll t_deadline t_abandon poll observed_work c0 =
     (let expired = (\<not> failure_latched c0 \<and> t_deadline \<ge> copy_deadline c0);
          c = (if expired then c0\<lparr>failure_latched := True\<rparr> else c0);
          w = (observed_work \<or> expired)
      in case poll of
           None \<Rightarrow>
             if failure_latched c \<and> \<not> uncertain c \<and> t_abandon \<ge> abandon_deadline c
             then let c' = c\<lparr>uncertain := True\<rparr> in ((False, w), c', [report_memory c' False, CopyDone c'])
             else ((False, w), c, [])
         | Some ok \<Rightarrow>
             let c' = c\<lparr>transfer_id := None, copy_success := (ok \<and> \<not> failure_latched c)\<rparr> in
             ((True, True), c', if uncertain c' then [report_memory c' True] else []))"

definition copy_progress ::
  "time \<Rightarrow> time \<Rightarrow> time \<Rightarrow> (nat \<times> bool) res \<Rightarrow> bool option \<Rightarrow> copy_op \<Rightarrow>
     (bool \<times> bool) \<times> copy_op \<times> copy_event list" where
  "copy_progress t_start t_deadline t_abandon sub poll c =
     (case transfer_id c of
        Some _ \<Rightarrow> copy_poll t_deadline t_abandon poll False c
      | None \<Rightarrow>
          if t_start \<ge> copy_deadline c then ((True, True), c, [])
          else
            case sub of
              Inl _ \<Rightarrow> ((True, True), c, [])
            | Inr (t, ok) \<Rightarrow>
                copy_poll t_deadline t_abandon poll True (c\<lparr>transfer_id := Some t, failure_latched := \<not> ok\<rparr>))"

definition copy_close :: "copy_op \<Rightarrow> bool \<times> copy_op" where
  "copy_close c = (transfer_id c = None, c\<lparr>failure_latched := True, copy_success := False\<rparr>)"

end
