(* ===== verification/KVCR_DramInv.thy ===== *)
theory KVCR_DramInv
  imports KVCR_Alloc KVCR_LocalDram
begin

text \<open>
  Every operation of \<open>_LocalDram\<close> keeps the invariant of the pools, however it ends, when the hooks it
  calls back through do. The contract of the hooks is a locale; the core interprets it.
\<close>

subsection \<open>Frames of the operation tables\<close>

lemma view_ops [simp]:
  "view (upd_op i f s) = view s" "view (set_result i k v s) = view s" "view (upd_deliver i g s) = view s"
  "view (set_deliver_result i k v s) = view s" "view (pop_waiter s) = view s" "view (unwait i k s) = view s"
  by (simp_all add: upd_op_def set_result_def upd_deliver_def set_deliver_result_def pop_waiter_def unwait_def frame)

lemma pool_ok_ops [simp]:
  "pool_ok C hand sk (upd_op i f s) = pool_ok C hand sk s" "pool_ok C hand sk (set_result i k v s) = pool_ok C hand sk s"
  "pool_ok C hand sk (upd_deliver i g s) = pool_ok C hand sk s"
  "pool_ok C hand sk (set_deliver_result i k v s) = pool_ok C hand sk s"
  "pool_ok C hand sk (pop_waiter s) = pool_ok C hand sk s" "pool_ok C hand sk (unwait i k s) = pool_ok C hand sk s"
  by (simp_all add: pool_ok_def)

lemma pool_ok_fold_view: "(\<And>x s. view (f x s) = view s) \<Longrightarrow> pool_ok C hand sk (fold f xs s) = pool_ok C hand sk s"
  by (simp add: pool_ok_def view_fold)

text \<open>The assertion most steps carry: the invariant holds and \<open>a\<close> is the residency of the key.\<close>

definition at_ok :: "('p config \<Rightarrow> bool) \<Rightarrow> key \<Rightarrow> nat \<Rightarrow> 'p core \<Rightarrow> bool" where
  "at_ok C k a s \<longleftrightarrow> pools_ok C s \<and> residency_of s k = Some a"

lemma at_ok_view: "view s' = view s \<Longrightarrow> at_ok C k a s' = at_ok C k a s"
  by (simp add: at_ok_def pool_ok_def view_def)

lemmas at_ok_frame [simp] = frame [THEN at_ok_view] view_ops [THEN at_ok_view]

lemma at_ok_inert: "inert f \<Longrightarrow> at_ok C k a s \<Longrightarrow> at_ok C k a (upd_res b f s)"
  by (simp add: at_ok_def pool_ok_inert)

lemma at_ok_imp: "at_ok C k a s \<Longrightarrow> pools_ok C s"
  by (simp add: at_ok_def)

lemma inert_steps [simp]:
  "inert prepare_index" "inert settle" "inert (bump_writers d xs)" "inert (\<lambda>r. r\<lparr>remote_indices := x\<rparr>)"
  "inert (\<lambda>r. r\<lparr>remote_indices := x, remote_cancelled := b\<rparr>)" "inert (\<lambda>r. r\<lparr>remote_cancelled := b\<rparr>)"
  "inert (\<lambda>r. r\<lparr>pending_deposits := h r\<rparr>)" "inert (\<lambda>r. r\<lparr>refs := g r\<rparr>)"
  by (auto simp: inert_def prepare_index_def settle_def bump_writers_def pending_def Let_def split: option.splits)

abbreviation leads :: "('s \<Rightarrow> bool) \<Rightarrow> ('s \<Rightarrow> bool) \<Rightarrow> ('s, 'a) sx \<Rightarrow> bool" where
  "leads P I m \<equiv> triple P m (\<lambda>_. I) (\<lambda>_. I)"

lemma leads_iff: "leads P I m \<longleftrightarrow> (\<forall>s. P s \<longrightarrow> I (snd (m s)))"
  unfolding triple_def by (auto split: prod.splits sum.splits) (metis prod.collapse)

lemma leads_keeps: "keeps I m \<Longrightarrow> (\<And>s. P s \<Longrightarrow> I s) \<Longrightarrow> leads P I m"
  unfolding keeps_def by (rule triple_pre)

lemma keeps_mod_read: "(\<And>s. I s \<Longrightarrow> I (snd (g (f s) (f s)))) \<Longrightarrow> keeps I (thenS (modS f) (readS g))"
  by (simp add: keeps_iff thenS_def bindS_def modS_def readS_def)

lemma keeps_set_result [keeps_rules]: "keeps (pool_ok C hand sk) (modS (set_result i k v))"
  "keeps (pool_ok C hand sk) (modS (set_deliver_result i k v))"
  by (simp_all add: keeps_mod)

lemma keeps_enqueue [keeps_rules]: "keeps (pool_ok C hand sk) (enqueue_capacity_waiter i k)"
  unfolding enqueue_capacity_waiter_def by (intro keeps_read_any keeps_if keeps_raise keeps_mod) simp

lemma keeps_access [keeps_rules]: "keeps (pool_ok C hand sk) (record_access ks)"
  by (rule keeps_record_access [where I = "pool_inv C hand sk", folded pool_ok_def])

lemma keeps_submit_copy [keeps_rules]: "keeps (pool_ok C hand sk) (submit_copy mk)"
  unfolding submit_copy_def
  by (intro keeps_read_any keeps_then keeps_mod)
    (simp_all add: keeps_progress_submit [where I = "pool_inv C hand sk", folded pool_ok_def])

lemma keeps_get_record [keeps_rules]: "keeps (pool_ok C hand sk) (modS (get_block_record k))"
  by (simp add: keeps_mod)

subsection \<open>Claims and attachments\<close>

lemma at_ok_claim: "at_ok C k a s \<Longrightarrow> at_ok C k a (snd (acquire_claim k a s))"
  by (simp add: at_ok_def pool_ok_acquire_claim)

lemma at_ok_more_claims:
  assumes at: "at_ok C k a s" and nix: "\<not> indexed (pl s) k"
    and f: "\<And>r. slots (f r) = slots r" "\<And>r. source_readers (f r) = source_readers r" "\<And>r. claim_count (f r) = claim_count r + 1"
      "\<And>r. readable (f r) = readable r"
  shows "at_ok C k a (upd_res a f s)"
proof -
  have ok: "pools_ok C s" and att: "residency_of s k = Some a" using at by (simp_all add: at_ok_def)
  have "pools_ok C (upd_res a f s)"
  proof (rule pool_ok_upd_res [OF ok])
    fix x assume x: "residency_of s x = Some a"
    have "x = k" by (rule pool_ok_inj [OF ok x att])
    then show "indexed (pl s) x \<Longrightarrow> evictable_now (f (res_store s a))" using nix by simp
    show "0 \<le> claim_count (f (res_store s a))" using pool_ok_claims [OF ok att] f(3) by simp
    show "map_of (src_index (pl s)) x = Some (Some a) \<Longrightarrow> readable (f (res_store s a))"
      using pool_ok_published [OF ok, of x a] f(4) by simp
  qed (simp_all add: f)
  then show ?thesis using att by (simp add: at_ok_def)
qed

lemma at_ok_unindexed:
  assumes "at_ok C k a s"
  shows "at_ok C k a (remove_evictable k a s)" "\<not> indexed (pl (remove_evictable k a s)) k"
  using assms by (simp_all add: at_ok_def pool_ok_remove_evictable indexed_remove_evictable)

lemma make_residency_fields [simp]:
  "slots (make_residency sl st l w) = sl" "claim_count (make_residency sl st l w) = 0"
  "source_readers (make_residency sl st l w) = 0" "rstate (make_residency sl st l w) = st"
  by (simp_all add: make_residency_def Let_def)

lemma attach_residency_ok:
  assumes ok: "pool_ok C (slots r) [] s" and none: "residency_of s k = None"
    and known: "map_of (block_record_map s) k \<noteq> None" and r: "claim_count r = 0" "source_readers r = 0"
  shows "pools_ok C (attach_residency k r s)" "residency_of (attach_residency k r s) k = Some (next_res s)"
    "res_store (attach_residency k r s) (next_res s) = r" "cfg (attach_residency k r s) = cfg s"
proof -
  let ?t = "mark_source_pending k s"
  have c: "mark_source_pending k (upd_res a g (s\<lparr>next_res := n\<rparr>)) = upd_res a g (?t\<lparr>next_res := n\<rparr>)" for a g n
    by (simp add: mark_source_pending_def upd_res_def)
  have e: "attach_residency k r s = upd_record k (\<lambda>rec. rec\<lparr>local_dram := Some (next_res ?t)\<rparr>)
      (upd_res (next_res ?t) (\<lambda>_. r) (?t\<lparr>next_res := Suc (next_res ?t)\<rparr>))"
    by (simp add: attach_residency_def Let_def c)
  show "pools_ok C (attach_residency k r s)"
    unfolding e by (rule pool_ok_attach) (use pool_ok_mark_pending [OF ok, of k] none known r in simp_all)
  show "residency_of (attach_residency k r s) k = Some (next_res s)"
    using known by (auto simp: attach_residency_def Let_def upd_record_def residency_of_def split: option.splits)
  show "res_store (attach_residency k r s) (next_res s) = r" "cfg (attach_residency k r s) = cfg s"
    by (simp_all add: attach_residency_def Let_def upd_record_def split: option.splits)
qed

subsection \<open>Steps on one residency\<close>

lemma leads_then: "(\<And>s. P s \<Longrightarrow> R (f s)) \<Longrightarrow> leads R I n \<Longrightarrow> leads P I (thenS (modS f) n)"
  by (simp add: leads_iff thenS_def bindS_def modS_def)

lemma leads_read: "(\<And>s. P s \<Longrightarrow> I (snd (f s s))) \<Longrightarrow> leads P I (readS f)"
  by (simp add: leads_iff readS_def)

lemma leads_read_any: "(\<And>s. P s \<Longrightarrow> leads P I (f s)) \<Longrightarrow> leads P I (readS f)"
  by (simp add: leads_iff readS_def)

lemma leads_mod: "(\<And>s. P s \<Longrightarrow> I (f s)) \<Longrightarrow> leads P I (modS f)"
  by (simp add: leads_iff modS_def)

lemma leads_ret: "(\<And>s. P s \<Longrightarrow> I s) \<Longrightarrow> leads P I (retS x)"
  by (simp add: leads_iff retS_def)

lemma leads_bind: "leads P R m \<Longrightarrow> (\<And>x. leads R I (f x)) \<Longrightarrow> (\<And>s. R s \<Longrightarrow> I s) \<Longrightarrow> leads P I (bindS m f)"
  by (rule triple_bind [where R = "\<lambda>_. R"]) (auto elim: triple_weaken)

lemma leads_at_then: "leads P R m \<Longrightarrow> leads R I n \<Longrightarrow> (\<And>s. R s \<Longrightarrow> I s) \<Longrightarrow> leads P I (thenS m n)"
  unfolding thenS_def by (rule leads_bind)

lemma leads_public_claim: "leads (at_ok C k a) (at_ok C k a) (new_public_claim k a locs)"
  unfolding leads_iff
proof (intro allI impI)
  fix s :: "'a core" assume at: "at_ok C k a s"
  have "residency_of (snd (new_public_claim k a locs s)) = residency_of s"
    using acquire_claim_residency_of [of k a s]
    by (cases "acquire_claim k a s"; cases "fst (acquire_claim k a s)")
      (auto simp: new_public_claim_def thenS_def bindS_def readS_def modS_def retS_def Let_def)
  then show "at_ok C k a (snd (new_public_claim k a locs s))"
    using at by (simp add: at_ok_def pool_ok_new_public_claim)
qed

lemma leads_acquire: "leads (at_ok C k a) (at_ok C k a) (acquire_claim k a)"
  by (simp add: leads_iff at_ok_claim)

lemma leads_when: "leads P P m \<Longrightarrow> leads P P (whenS b m)"
  by (simp add: whenS_def leads_ret)

lemma leads_access: "leads (at_ok C k a) (at_ok C k a) (record_access ks)"
  unfolding leads_iff
proof (intro allI impI)
  fix s :: "'a core" assume at: "at_ok C k a s"
  have "view (snd (record_access ks s)) = view s"
    using keeps_result [OF keeps_record_access [where I = "\<lambda>v. v = view s" and ks = ks], of s] by simp
  then show "at_ok C k a (snd (record_access ks s))" using at_ok_view at by blast
qed

lemma leads_claim_result:
  "leads (at_ok C k a) (at_ok C k a) (bindS (new_public_claim k a locs) (\<lambda>v. modS (set_result i k' v)))"
  by (rule leads_bind [OF leads_public_claim]) (simp_all add: leads_mod)

lemma deposit_copy_ok: "leads (\<lambda>s. at_ok C k a s \<and> \<not> indexed (pl s) k) (pools_ok C) (deposit_copy i k a ix sel srcs acc)"
  unfolding deposit_copy_def
proof (rule leads_then, goal_cases)
  case (1 s)
  show "at_ok C k a (upd_op i (\<lambda>p. p\<lparr>active_keys := add_end k (active_keys p)\<rparr>)
      (upd_res a (\<lambda>r. r\<lparr>claim_count := claim_count r + 1, pending_deposits := pending_deposits r + 1\<rparr>) s))"
    using 1 by (auto intro!: at_ok_more_claims simp: readable_def pending_def)
qed (auto intro!: leads_read_any leads_ret dest: at_ok_imp)

lemma deposit_pieces_ok: "leads (at_ok C k a) (pools_ok C) (deposit_pieces i k a srcs acc)"
proof -
  let ?A = "at_ok C k a"
  have skip: "leads ?A (pools_ok C) (thenS m (retS acc))" if "leads ?A ?A m" for m
    using that by (rule leads_at_then) (auto intro: leads_ret dest: at_ok_imp)
  have result: "leads ?A ?A (modS (set_result i k v))" for v by (rule leads_mod) simp
  have copy: "leads ?A (pools_ok C) (thenS (modS (remove_evictable k a)) (thenS (modS (upd_res a (bump_writers 1 sel)))
      (deposit_copy i k a sel locs refs acc)))" for sel locs refs
    by (rule leads_then [where R = "\<lambda>s. ?A s \<and> \<not> indexed (pl s) k"], simp add: at_ok_unindexed,
        rule leads_then [OF _ deposit_copy_ok]) (simp add: at_ok_inert)
  show ?thesis
    unfolding deposit_pieces_def
    by (rule leads_then [where R = ?A], simp add: at_ok_inert, rule leads_read_any)
      (auto simp: Let_def intro!: skip result leads_claim_result copy triple_raise leads_ret dest: at_ok_imp split: option.splits)
qed

lemma prepare_fetch_pieces_ok: "leads (at_ok C k a) (pools_ok C) (prepare_fetch_pieces i k source a)"
proof -
  let ?A = "at_ok C k a"
  have none: "leads ?A (pools_ok C) (retS x)" for x :: "TransferRef list option" by (auto intro: leads_ret dest: at_ok_imp)
  have result: "leads ?A ?A (modS (set_result i k v))" for v by (rule leads_mod) simp
  have access: "leads ?A ?A (record_access [k])" by (rule leads_access)
  have claim: "leads ?A ?A (whenS b (thenS (acquire_claim k a) (modS (upd_op i f))))" for b f
    by (rule leads_when, rule leads_at_then [OF leads_acquire], rule leads_mod) simp_all
  have reserve: "leads ?A (pools_ok C) (thenS (modS (\<lambda>s. upd_op i f (upd_res a (\<lambda>r. (bump_writers 1 missing r)\<lparr>remote_indices := Some missing,
      claim_count := claim_count r + 1\<rparr>) (remove_evictable k a s)))) (readS (\<lambda>s. retS (g s))))"
    for f missing and g :: "_ \<Rightarrow> TransferRef list option"
  proof (rule leads_then [where R = ?A], goal_cases)
    case (1 s)
    show ?case
      using at_ok_unindexed [OF 1]
      by (auto intro!: at_ok_more_claims simp: bump_writers_def readable_def pending_def)
  qed (auto intro!: leads_read_any leads_ret dest: at_ok_imp)
  have hit: "leads ?A (pools_ok C) (thenS (record_access [k]) (bindS (new_public_claim k a locs)
      (\<lambda>v. thenS (modS (set_result i k v)) (retS (None :: TransferRef list option)))))" for locs
    by (rule leads_at_then [OF access], rule leads_bind [OF leads_public_claim], rule leads_at_then [OF result none])
      (auto dest: at_ok_imp)
  have miss: "leads ?A (pools_ok C) (thenS (modS (set_result i k FAILED_RESULT)) (retS (None :: TransferRef list option)))"
    by (rule leads_at_then [OF result none]) (auto dest: at_ok_imp)
  show ?thesis
    unfolding prepare_fetch_pieces_def
    by (rule leads_then [where R = ?A], simp add: at_ok_inert, rule leads_read_any)
      (auto simp: Let_def intro!: triple_if hit miss leads_at_then [OF claim] leads_read_any none triple_raise reserve dest: at_ok_imp
        split: option.splits)
qed

lemma source_refs_inert: "source_refs c r xs = (l, r') \<Longrightarrow> \<exists>v. r' = r\<lparr>refs := v\<rparr>"
  by (cases "refs r") (auto simp: source_refs_def Let_def intro: exI [of _ "refs r"])

lemma upd_res_const: "upd_res a (\<lambda>_. (res_store s a)\<lparr>refs := v\<rparr>) s = upd_res a (\<lambda>r. r\<lparr>refs := v\<rparr>) s"
  by (cases s) (auto simp: upd_res_def fun_eq_iff)

lemma at_ok_source_refs:
  assumes "at_ok C k b s" and "source_refs c (res_store s a) xs = (l, r')"
  shows "at_ok C k b (upd_res a (\<lambda>_. r') s)"
  using source_refs_inert [OF assms(2)] at_ok_inert [OF _ assms(1)] by (auto simp: upd_res_const)

lemma deliver_key_ok: "keeps (pools_ok C) (deliver_key i k acc)"
proof -
  have claim: "leads (at_ok C k a) (at_ok C k a) (whenS b (thenS (acquire_claim k a) (modS (upd_deliver i f))))" for a b f
    by (rule leads_when, rule leads_at_then [OF leads_acquire], rule leads_mod) simp_all
  have fail: "leads (at_ok C k a) (pools_ok C) (thenS (modS (set_deliver_result i k v)) (retS x))" for a v and x :: copy_acc
    by (rule leads_then [where R = "at_ok C k a"]) (auto intro: leads_ret dest: at_ok_imp)
  have refs: "leads (at_ok C k a) (pools_ok C) (readS (\<lambda>s. case source_refs (cfg s) (res_store s a) xs of (srcs, r') \<Rightarrow>
      thenS (modS (\<lambda>s. upd_deliver i f (upd_res a (\<lambda>_. r') s))) (retS (g srcs))))" for a xs f and g :: "_ \<Rightarrow> copy_acc"
    by (rule leads_read)
      (auto simp: thenS_def bindS_def modS_def retS_def dest: at_ok_source_refs at_ok_imp split: prod.splits)
  have piece: "leads (at_ok C k a) (pools_ok C) (thenS (modS (upd_res a prepare_index)) (readS (\<lambda>s. h s)))"
    if "\<And>s. leads (at_ok C k a) (pools_ok C) (h s)" for a and h :: "_ \<Rightarrow> (_, copy_acc) act"
    by (rule leads_then [where R = "at_ok C k a"]) (auto intro!: leads_read_any that simp: at_ok_inert)
  show ?thesis
    unfolding deliver_key_def
  proof (rule keeps_read, goal_cases)
    case (1 s)
    show ?case
    proof (cases "residency_of s k")
      case None
      then show ?thesis using 1 by (simp add: Let_def thenS_def bindS_def modS_def retS_def)
    next
      case (Some a)
      then have at: "at_ok C k a s" using 1 by (simp add: at_ok_def)
      have go: "pools_ok C (snd (m s))" if "leads (at_ok C k a) (pools_ok C) m" for m :: "(_, copy_acc) act"
        using that at by (simp add: leads_iff)
      show ?thesis
        by (rule go)
          (auto simp: Let_def Some intro!: triple_if fail piece refs leads_at_then [OF claim] leads_ret triple_raise dest: at_ok_imp
            split: option.splits)
    qed
  qed
qed

lemma publish_source_fields [simp]:
  "residency_of (publish_source k a given s) = residency_of s" "cfg (publish_source k a given s) = cfg s"
  by (simp_all add: publish_source_def Let_def split: prod.splits)

lemma publish_source_ok:
  assumes at: "at_ok C k a s"
  shows "at_ok C k a (publish_source k a given s)"
proof -
  obtain l r' where lr: "(case given of Some l \<Rightarrow> (l, res_store s a)
      | None \<Rightarrow> if refs (res_store s a) = Sparse [] \<or> refs (res_store s a) = Complete []
                then (pool_descriptors (cfg s) (slots (res_store s a)), res_store s a)
                else source_refs (cfg s) (res_store s a) [0..<length (slots (res_store s a))]) = (l, r')" by fastforce
  have "\<exists>v. res_store s a = (res_store s a)\<lparr>refs := v\<rparr>" by (rule exI [of _ "refs (res_store s a)"]) simp
  then have "\<exists>v. r' = (res_store s a)\<lparr>refs := v\<rparr>"
    using lr by (auto dest!: source_refs_inert split: option.splits if_splits)
  then obtain v where v: "r' = (res_store s a)\<lparr>refs := v\<rparr>" ..
  let ?t = "upd_res a (\<lambda>_. r') s" let ?u = "upd_res a (\<lambda>r. r\<lparr>refs := Complete l\<rparr>) ?t"
  have t: "at_ok C k a ?t" unfolding v upd_res_const by (rule at_ok_inert [OF _ at]) simp
  have u: "at_ok C k a ?u" by (rule at_ok_inert [OF _ t]) simp
  have "pools_ok C (pl_update (\<lambda>p. p\<lparr>src_index := AList.update k (Some a) (src_index p)\<rparr>) ?u)"
    if "has_framework_control (cfg s)" "pending (res_store s a) = {}" "rstate r' = READY" "\<not> retire_on_release r'"
  proof (rule pool_ok_src_index [where h = "AList.update k (Some a)"])
    show "residency_of ?u x = Some b \<and> readable (res_store ?u b) \<and> has_framework_control (cfg ?u)"
      if "map_of (AList.update k (Some a) (src_index (pl ?u))) x = Some (Some b)" for x b
      using that u pool_ok_published [of C "[]" "[]" ?u x b] \<open>rstate r' = READY\<close> \<open>\<not> retire_on_release r'\<close>
        \<open>has_framework_control (cfg s)\<close> \<open>pending (res_store s a) = {}\<close>
      by (auto simp: at_ok_def v readable_def pending_def split: if_splits)
  qed (use u in \<open>simp add: at_ok_def\<close>)
  then have "pools_ok C (publish_source k a given s)"
    using at t lr by (auto simp: publish_source_def Let_def at_ok_def split: prod.splits)
  then show ?thesis using at by (simp add: at_ok_def)
qed

subsection \<open>Committing and discarding\<close>

text \<open>A residency that the eviction index and the source index do not list may be rewritten.\<close>

definition unlisted :: "('p config \<Rightarrow> bool) \<Rightarrow> key \<Rightarrow> nat \<Rightarrow> 'p core \<Rightarrow> bool" where
  "unlisted C k a s \<longleftrightarrow> at_ok C k a s \<and> \<not> indexed (pl s) k \<and> map_of (src_index (pl s)) k \<noteq> Some (Some a)"

lemma unlisted_upd_res:
  assumes un: "unlisted C k a s"
    and f: "\<And>r. slots (f r) = slots r" "\<And>r. source_readers (f r) = source_readers r" "\<And>r. claim_count (f r) = claim_count r"
  shows "unlisted C k a (upd_res a f s)"
proof -
  have ok: "pools_ok C s" and att: "residency_of s k = Some a" using un by (simp_all add: unlisted_def at_ok_def)
  have "pools_ok C (upd_res a f s)"
  proof (rule pool_ok_upd_res [OF ok])
    fix x assume x: "residency_of s x = Some a"
    have k: "x = k" by (rule pool_ok_inj [OF ok x att])
    show "indexed (pl s) x \<Longrightarrow> evictable_now (f (res_store s a))" using un k by (simp add: unlisted_def)
    show "0 \<le> claim_count (f (res_store s a))" using pool_ok_claims [OF ok att] f(3) by simp
    show "map_of (src_index (pl s)) x = Some (Some a) \<Longrightarrow> readable (f (res_store s a))" using un k by (simp add: unlisted_def)
  qed (simp_all add: f)
  then show ?thesis using un by (simp add: unlisted_def at_ok_def)
qed

lemma unlisted_pending: "at_ok C k a s \<Longrightarrow> pending (res_store s a) \<noteq> {} \<Longrightarrow> unlisted C k a s"
  using pool_ok_not_indexed [of C "[]" "[]" s k a] pool_ok_published [of C "[]" "[]" s k a]
  by (auto simp: unlisted_def at_ok_def evictable_now_def readable_def)

lemma unlisted_not_ready: "at_ok C k a s \<Longrightarrow> rstate (res_store s a) \<noteq> READY \<Longrightarrow> unlisted C k a s"
  using pool_ok_not_indexed [of C "[]" "[]" s k a] pool_ok_published [of C "[]" "[]" s k a]
  by (auto simp: unlisted_def at_ok_def evictable_now_def readable_def)

lemma at_ok_touch: "at_ok C k a (upd_record k' (\<lambda>rec. rec\<lparr>rec_last_access := t\<rparr>) s) = at_ok C k a s"
  by (rule at_ok_view) (rule view_upd_record, simp)

lemma commit_pieces_ok:
  "leads (\<lambda>s. at_ok C k a s \<and> pending (res_store s a) \<noteq> {}) (at_ok C k a) (commit_pieces k a xs src ready given)"
  unfolding commit_pieces_def
proof (rule leads_read, goal_cases)
  case (1 s)
  have un: "unlisted C k a s" using 1 unlisted_pending by blast
  have "unlisted C k a (upd_res a (\<lambda>r. r\<lparr>pending_labels := Some left\<rparr>) s)" for left
    by (rule unlisted_upd_res [OF un]) simp_all
  note left = this
  have p: "at_ok C k a (upd_res a (\<lambda>r. r\<lparr>pending_labels := Some left\<rparr>) s)" for left
    using left [of left] by (simp add: unlisted_def)
  have "unlisted C k a (upd_res a (\<lambda>r. prepare_index (r\<lparr>rstate := READY\<rparr>)) (upd_res a (\<lambda>r. r\<lparr>pending_labels := Some left\<rparr>) s))"
    for left
    by (rule unlisted_upd_res [OF left]) (simp_all add: prepare_index_def)
  then have q: "at_ok C k a (publish_source k a given
      (upd_res a (\<lambda>r. prepare_index (r\<lparr>rstate := READY\<rparr>)) (upd_res a (\<lambda>r. r\<lparr>pending_labels := Some left\<rparr>) s)))" for left
    by (intro publish_source_ok) (simp add: unlisted_def)
  show ?case
    using p q by (auto simp: Let_def thenS_def bindS_def modS_def retS_def at_ok_touch)
qed

lemma lower_writer_ok: "leads (at_ok C k a) (at_ok C k a) (lower_writer b x)"
  unfolding lower_writer_def
  by (rule leads_read_any)
    (auto intro!: triple_raise leads_then [where R = "at_ok C k a"] triple_if leads_ret at_ok_inert split: option.splits)

lemma fill_results_ok: "leads (at_ok C k a) (at_ok C k a) (fill_results k a ks w aff)"
proof -
  have r: "leads (at_ok C k a) (at_ok C k a) (modS (set_result i k' v))" for i k' v by (rule leads_mod) simp
  have u: "leads (at_ok C k a) (at_ok C k a) (modS (upd_op i f))" for i f by (rule leads_mod) simp
  have n: "leads (at_ok C k a) (at_ok C k a) (retS x)" for x :: "op_id list" by (rule leads_ret)
  have f: "leads (at_ok C k a) (at_ok C k a) (foldS g xs y)" if "\<And>x z. leads (at_ok C k a) (at_ok C k a) (g x z)"
    for g :: "_ \<Rightarrow> op_id list \<Rightarrow> _" and xs y
    by (rule triple_foldS [where I = "\<lambda>_. at_ok C k a"]) (rule that)
  show ?thesis
    unfolding fill_results_def
    by (rule leads_read_any)
      (auto intro!: f n leads_at_then [OF u] leads_at_then [OF r] leads_at_then [OF leads_claim_result] leads_read_any triple_if
        split: option.splits)
qed

lemma discard_op_ok: "keeps (pools_ok C) (discard_op k a i acc)"
  by (cases acc)
    (auto simp: discard_op_def Let_def intro!: keeps_read_any keeps_then keeps_when keeps_mod keeps_ret)

lemma discard_key_ok: "keeps (pools_ok C) (discard_key k acc)"
  unfolding discard_key_def
proof (rule keeps_read, goal_cases)
  case (1 s)
  show ?case
  proof (cases "residency_of s k")
    case None
    then show ?thesis using 1 by (simp add: raiseS_def)
  next
    case (Some a)
    have at: "at_ok C k a s" using 1 Some by (simp add: at_ok_def)
    have fold: "keeps (pools_ok C) (foldS (discard_op k a) is acc)" for "is"
      by (intro keeps_foldS discard_op_ok)
    have cancel: "pools_ok C (upd_res a (\<lambda>r. r\<lparr>remote_cancelled := True\<rparr>) t)" if "pools_ok C t" for t
      by (rule pool_ok_inert [OF _ that]) simp
    have drop: "pools_ok C (upd_res a (\<lambda>r. r\<lparr>rstate := DISCARDING\<rparr>) (mark_source_pending k s))"
      if "rstate (res_store s a) \<noteq> READY"
    proof -
      have "unlisted C k a (mark_source_pending k s)"
        using unlisted_not_ready [of C k a "mark_source_pending k s"] at that pool_ok_mark_pending [OF 1]
        by (simp add: at_ok_def)
      then show ?thesis using unlisted_upd_res [of C k a "mark_source_pending k s" "\<lambda>r. r\<lparr>rstate := DISCARDING\<rparr>"]
        by (simp add: unlisted_def at_ok_def)
    qed
    show ?thesis
      using 1 Some drop cancel keeps_result [OF fold]
      by (auto simp: raiseS_def Let_def thenS_def bindS_def modS_def)
  qed
qed

subsection \<open>The contract of the hooks\<close>

text \<open>
  What the requests rely on when they call back into the core: resuming waiters and starting a fill keep
  the invariant, and a decision on a victim touches only the policy.
\<close>

locale request_hooks =
  fixes H :: "'p hooks" and C :: "'p config \<Rightarrow> bool"
  assumes resume_law: "keeps (pools_ok C) (resume H)"
    and decide_law: "quiet C (decide H)"
    and fill_law: "\<And>tier blocks rid t. keeps (pools_ok C) (fill H tier blocks rid t)"

sublocale request_hooks \<subseteq> hook: resume_hook "resume H" C
  by unfold_locales (rule resume_law)

context request_hooks
begin

lemma keeps_finish_residency: "keeps (pools_ok C) (finish_residency_if_ready H i)"
  unfolding finish_residency_if_ready_def
  by (rule keeps_read_any)
    (auto simp: Let_def intro!: keeps_then keeps_mod keeps_when keeps_ret hook.keeps_release_sources split: option.splits)

lemma keeps_finish_deliver: "keeps (pools_ok C) (finish_deliver_if_ready H i)"
  unfolding finish_deliver_if_ready_def
  by (rule keeps_read_any)
    (auto simp: Let_def intro!: keeps_then keeps_mod keeps_when keeps_ret keeps_raise keeps_read_any hook.keeps_release_sources
      split: option.splits)

text \<open>A new residency is attached to the key while the slots are in hand.\<close>

lemma allocate_then_attach:
  assumes ok: "pools_ok C s" and none: "residency_of s k = None" and known: "map_of (block_record_map s) k \<noteq> None"
    and r: "allocate_slots (decide H) layout protected t s = (x, s')"
  shows "\<exists>locs ev w. x = Inr (locs, ev, w) \<and> (locs = None \<longrightarrow> pools_ok C s') \<and>
    (\<forall>l st dl wr. locs = Some l \<longrightarrow> at_ok C k (next_res s') (attach_residency k (make_residency l st dl wr) s') \<and>
       res_store (attach_residency k (make_residency l st dl wr) s') (next_res s') = make_residency l st dl wr)"
proof -
  obtain locs ev w where x: "x = Inr (locs, ev, w)" and al: "allocated C [] layout protected s (locs, ev, w) s'"
    using allocate_ok [OF decide_law ok, of layout protected t] r by auto
  have "k \<notin> set ev" using al none by (auto simp: allocated_def)
  then have k: "residency_of s' k = None" "map_of (block_record_map s') k \<noteq> None"
    using al none known residency_of_spared [of ev s s' k] by (auto simp: allocated_def evicted_only_def)
  have p: "pool_ok C l [] s'" if "locs = Some l" for l using al that by (simp add: allocated_def)
  have "at_ok C k (next_res s') (attach_residency k (make_residency l st dl wr) s') \<and>
      res_store (attach_residency k (make_residency l st dl wr) s') (next_res s') = make_residency l st dl wr"
    if "locs = Some l" for l st dl wr
    using attach_residency_ok(1-3) [of C "make_residency l st dl wr" s' k] p [OF that] k by (simp add: at_ok_def)
  moreover have "pools_ok C s'" if "locs = None" using al that by (simp add: allocated_def)
  ultimately show ?thesis using x by blast
qed

lemma deposit_admit_ok:
  assumes ok: "pools_ok C s" and none: "residency_of s k = None" and known: "map_of (block_record_map s) k \<noteq> None"
  shows "pools_ok C (snd (deposit_admit H i k srcs acc s))"
proof -
  let ?p = "op_of s i" let ?l = "map label srcs"
  let ?dl = "case op_key_layout ?p of Some (l # ls) \<Rightarrow> l # ls | _ \<Rightarrow> ?l"
  let ?ll = "case op_key_layout ?p of Some l \<Rightarrow> l | None \<Rightarrow> ?l"
  obtain d q where d: "decide_ingest (the_policy (cfg s)) (meta_of k (layout_bytes (cfg s) ?ll) s) FW_G2
      (claim_on_ready ?p) (op_hints ?p) (pol s) = (d, q)" by fastforce
  let ?u = "s\<lparr>pol := q\<rparr>"
  have u: "pools_ok C ?u" "residency_of ?u k = None" "map_of (block_record_map ?u) k \<noteq> None"
    using ok none known by (simp_all add: residency_of_def)
  obtain x s' where r: "allocate_slots (decide H) ?ll (set (op_keys ?p)) (op_deadline ?p) ?u = (x, s')" by fastforce
  obtain locs ev w where x: "x = Inr (locs, ev, w)" and no: "locs = None \<longrightarrow> pools_ok C s'"
    and at: "\<forall>l st dl wr. locs = Some l \<longrightarrow> at_ok C k (next_res s') (attach_residency k (make_residency l st dl wr) s') \<and>
      res_store (attach_residency k (make_residency l st dl wr) s') (next_res s') = make_residency l st dl wr"
    using allocate_then_attach [OF u r] by blast
  let ?acc = "acc\<lparr>acc_evicted := acc_evicted acc @ ev\<rparr>"
  note run = deposit_admit_def readS_def Let_def thenS_def bindS_def modS_def retS_def d r x
  show ?thesis
  proof (cases "fst d = DROP")
    case True
    then show ?thesis using u(1) by (simp add: run)
  next
    case False
    show ?thesis
    proof (cases locs)
      case None
      then show ?thesis using False no keeps_result [OF keeps_enqueue, of C "[]" "[]" s' i k]
        by (auto simp: run split: prod.splits sum.splits)
    next
      case (Some l)
      let ?v = "\<lambda>dl wr. attach_residency k (make_residency l FILLING dl wr) s'"
      have "pools_ok C (snd (deposit_copy i k (next_res s') [0..<length l] l srcs ?acc (?v dl wr)))"
        "pools_ok C (snd (deposit_pieces i k (next_res s') srcs ?acc (?v dl wr)))" for dl wr
      proof -
        have v: "at_ok C k (next_res s') (?v dl wr)" using at Some by blast
        have "\<not> indexed (pl (?v dl wr)) k" using unlisted_not_ready [OF v] at Some by (simp add: unlisted_def)
        then show "pools_ok C (snd (deposit_copy i k (next_res s') [0..<length l] l srcs ?acc (?v dl wr)))"
          "pools_ok C (snd (deposit_pieces i k (next_res s') srcs ?acc (?v dl wr)))"
          using v deposit_copy_ok [of C k "next_res s'" i "[0..<length l]" l srcs ?acc]
            deposit_pieces_ok [of C k "next_res s'" i srcs ?acc] by (simp_all add: leads_iff)
      qed
      then show ?thesis using False Some by (simp add: run)
    qed
  qed
qed

end

lemma get_block_record_known [simp]: "map_of (block_record_map (get_block_record k s)) k \<noteq> None"
  by (auto simp: get_block_record_def split: option.splits)

context request_hooks
begin

lemma keeps_deposit_key: "keeps (pools_ok C) (deposit_key H i k acc)"
  unfolding deposit_key_def
proof (rule keeps_read, goal_cases)
  case (1 s)
  let ?t = "get_block_record k s"
  have t: "pools_ok C ?t" using 1 by simp
  have admit: "pools_ok C (snd (deposit_admit H i k srcs acc ?t))" if "residency_of s k = None" for srcs
    by (rule deposit_admit_ok [OF t _ get_block_record_known]) (simp add: that)
  have pieces: "pools_ok C (snd (deposit_pieces i k a srcs acc ?t))" if "residency_of s k = Some a" for srcs a
    using deposit_pieces_ok [of C k a i srcs acc] t that by (simp add: leads_iff at_ok_def)
  show ?case
    using 1 t admit pieces
    by (auto simp: Let_def thenS_def bindS_def modS_def retS_def raiseS_def readS_def split: option.splits)
qed

lemma keeps_start_deposits: "keeps (pools_ok C) (start_deposits H i ks)"
  unfolding start_deposits_def
  by (rule keeps_read_any)
    (auto simp: Let_def intro!: keeps_raise keeps_bind keeps_foldS keeps_deposit_key keeps_then keeps_mod keeps_finish_residency
      keeps_read_any keeps_submit_copy keeps_ret)

lemma keeps_dram_deposit: "keeps (pools_ok C) (dram_deposit H h blocks no_evict hints layout)"
  by (auto simp: dram_deposit_def Let_def intro!: keeps_then keeps_mod keeps_start_deposits)

lemma reserve_fill_ok:
  assumes ok: "pools_ok C s" and none: "residency_of s k = None"
  shows "pools_ok C (snd (reserve_fill H k i src s))"
proof -
  let ?t = "get_block_record k s" let ?p = "op_of ?t i"
  obtain d q where d: "decide_ingest (the_policy (cfg ?t)) (meta_of k (layout_bytes (cfg ?t) (requested_layout ?p)) ?t) src True
      (op_hints ?p) (pol ?t) = (d, q)" by fastforce
  let ?u = "?t\<lparr>pol := q\<rparr>"
  have u: "pools_ok C ?u" "residency_of ?u k = None" "map_of (block_record_map ?u) k \<noteq> None"
    using ok none residency_of_get_block_record [of k s] get_block_record_known [of k s] by (simp_all add: residency_of_def)
  obtain x s' where r: "allocate_slots (decide H) (requested_layout ?p) (set (op_keys ?p)) (op_deadline ?p) ?u = (x, s')" by fastforce
  obtain locs ev w where x: "x = Inr (locs, ev, w)" and no: "locs = None \<longrightarrow> pools_ok C s'"
    and at: "\<forall>l st dl wr. locs = Some l \<longrightarrow> at_ok C k (next_res s') (attach_residency k (make_residency l st dl wr) s') \<and>
      res_store (attach_residency k (make_residency l st dl wr) s') (next_res s') = make_residency l st dl wr"
    using allocate_then_attach [OF u r] by blast
  show ?thesis
    using u(1) no at
    by (cases locs) (auto simp: reserve_fill_def readS_def Let_def thenS_def bindS_def modS_def retS_def d r x at_ok_def)
qed

lemma keeps_prepare_fetch: "keeps (pools_ok C) (prepare_fetch H i k)"
  unfolding prepare_fetch_def
proof (rule keeps_mod_read, goal_cases)
  case (1 s)
  let ?t = "get_block_record k s"
  have t: "pools_ok C ?t" using 1 by simp
  have pieces: "pools_ok C (snd (prepare_fetch_pieces i k src a u))" if "residency_of u k = Some a" "pools_ok C u" for src a u
    using prepare_fetch_pieces_ok [of C k a i src] that by (simp add: leads_iff at_ok_def)
  have fail: "keeps (pools_ok C) (thenS (modS (set_result i k FAILED_RESULT)) (retS x))" for x :: "TransferRef list option"
    by (intro keeps_then keeps_set_result keeps_ret)
  have wait: "keeps (pools_ok C) (thenS (enqueue_capacity_waiter i k) (retS x))" for x :: "TransferRef list option"
    by (intro keeps_then keeps_enqueue keeps_ret)
  have reserve: "pools_ok C (snd (bindS (reserve_fill H k i src) (\<lambda>(reserved, waiting).
      if \<not> reserved then (if waiting then thenS (enqueue_capacity_waiter i k) (retS None)
          else thenS (modS (set_result i k FAILED_RESULT)) (retS None))
      else readS (\<lambda>s. case residency_of s k of None \<Rightarrow> raiseS (TypeError ''residency'')
        | Some a \<Rightarrow> prepare_fetch_pieces i k source a)) ?t))"
    if "residency_of s k = None" for src source
  proof -
    have "pools_ok C (snd (reserve_fill H k i src ?t))" by (rule reserve_fill_ok [OF t]) (simp add: that)
    then show ?thesis
      using keeps_result [OF fail] keeps_result [OF wait] pieces
      by (auto simp: bindS_def [of "reserve_fill H k i src"] readS_def raiseS_def split: prod.splits sum.splits option.splits)
  qed
  show ?case
    using t keeps_result [OF fail t] keeps_result [OF wait t] pieces [OF _ t] reserve
    by (auto simp: Let_def split: option.splits)
qed

end

context request_hooks
begin

lemma keeps_resolve_fetch_waiter: "keeps (pools_ok C) (resolve_fetch_waiter H k i)"
  unfolding resolve_fetch_waiter_def
  by (auto simp: Let_def intro!: keeps_bind keeps_prepare_fetch keeps_then keeps_get keeps_ret keeps_read_any keeps_raise fill_law
      split: option.splits list.splits)

lemma keeps_dram_fetch: "keeps (pools_ok C) (dram_fetch H h ks sources rid t hints layout kl)"
  by (auto simp: dram_fetch_def Let_def intro!: keeps_then keeps_mod keeps_ret keeps_bind keeps_foldS keeps_prepare_fetch
      keeps_finish_residency)

lemma keeps_start_deliveries: "keeps (pools_ok C) (start_deliveries H i ks)"
  unfolding start_deliveries_def
  by (auto simp: Let_def intro!: keeps_bind keeps_foldS deliver_key_ok keeps_then keeps_mod keeps_read_any keeps_ret
      keeps_submit_copy keeps_finish_deliver)

lemma keeps_dram_deliver: "keeps (pools_ok C) (dram_deliver H h blocks t)"
  by (auto simp: dram_deliver_def Let_def intro!: keeps_then keeps_mod keeps_start_deliveries)

lemma keeps_finish_delivery_copy: "keeps (pools_ok C) (finish_delivery_copy H c)"
  unfolding finish_delivery_copy_def
  by (auto simp: Let_def intro!: keeps_raise keeps_read_any keeps_then keeps_forS keeps_when keeps_access keeps_mod
      hook.keeps_release_claim keeps_finish_deliver split: option.splits)

lemma keeps_wake_op: "keeps (pools_ok C) (wake_op H w k i acc)"
proof -
  have d: "keeps (pools_ok C) (readS (\<lambda>s. let d = deliver_of s i in
      if i \<in> set (pending_deliver_ops (ld s)) \<and> k \<in> set (dl_keys d) \<and> map_of (dl_results d) k = None then
        (if residency_of s k \<noteq> None
         then retS (acc\<lparr>deliver_keys := append_at i k (deliver_keys acc), affected_deliver := add_end i (affected_deliver acc)\<rparr>)
         else thenS (modS (set_deliver_result i k FAILED_RESULT)) (retS (acc\<lparr>affected_deliver := add_end i (affected_deliver acc)\<rparr>)))
      else retS acc))" for acc
    by (auto simp: Let_def intro!: keeps_read_any keeps_ret keeps_then keeps_set_result)
  show ?thesis
    unfolding wake_op_def
    by (auto simp: Let_def intro!: keeps_ret keeps_read_any keeps_bind keeps_resolve_fetch_waiter d [unfolded Let_def])
qed

lemma keeps_fill_key: "keeps (pools_ok C) (fill_key H succ src w dsts e acc)"
proof -
  obtain k xs where e: "e = (k, xs)" by (cases e)
  have lower: "leads (at_ok C k a) (at_ok C k a) (forS xs (lower_writer a))" for a
    by (rule triple_forS) (rule lower_writer_ok)
  have writer: "leads (at_ok C k a) (at_ok C k a)
      (case w of
         Some i \<Rightarrow> readS (\<lambda>s.
           if k \<notin> set (active_keys (op_of s i)) then raiseS (KeyError ''active key'')
           else modS (\<lambda>s. upd_res a (\<lambda>r. r\<lparr>pending_deposits := pending_deposits r - 1\<rparr>)
                  (upd_op i (\<lambda>p. p\<lparr>active_keys := removeAll k (active_keys p)\<rparr>) s)))
       | None \<Rightarrow> modS (upd_res a (\<lambda>r. r\<lparr>remote_indices := None, remote_cancelled := False\<rparr>)))" for a
    by (auto intro!: leads_read_any triple_if triple_raise leads_mod at_ok_inert split: option.splits)
  have commit: "leads (at_ok C k a) (at_ok C k a) (readS (\<lambda>s. if b \<and> pending (res_store s a) \<noteq> {}
      then commit_pieces k a xs src rdy given else retS False))" for a b rdy given
  proof (rule leads_read, goal_cases)
    case (1 s)
    then show ?case using commit_pieces_ok [of C k a xs src rdy given] by (auto simp: leads_iff retS_def)
  qed
  have rest: "leads (at_ok C k a) (pools_ok C) (thenS (release_claim (resume H) k a) (readS (\<lambda>s.
      foldS (wake_op H w k) (active_op_ids s k) (f s))))" for a f
    by (rule leads_keeps) (auto intro!: keeps_then hook.keeps_release_claim keeps_read_any keeps_foldS keeps_wake_op dest: at_ok_imp)
  have step: "leads (at_ok C k a) (pools_ok C) (thenS (forS xs (lower_writer a)) (thenS
      (case w of
         Some i \<Rightarrow> readS (\<lambda>s.
           if k \<notin> set (active_keys (op_of s i)) then raiseS (KeyError ''active key'')
           else modS (\<lambda>s. upd_res a (\<lambda>r. r\<lparr>pending_deposits := pending_deposits r - 1\<rparr>)
                  (upd_op i (\<lambda>p. p\<lparr>active_keys := removeAll k (active_keys p)\<rparr>) s)))
       | None \<Rightarrow> modS (upd_res a (\<lambda>r. r\<lparr>remote_indices := None, remote_cancelled := False\<rparr>)))
      (bindS (readS (\<lambda>s. if b \<and> pending (res_store s a) \<noteq> {} then commit_pieces k a xs src rdy given else retS False)) (\<lambda>cm.
        thenS (modS (upd_res a settle)) (bindS (fill_results k a b w aff) (\<lambda>affected.
          thenS (release_claim (resume H) k a) (readS (\<lambda>s. foldS (wake_op H w k) (active_op_ids s k) (f cm affected s)))))))))"
    for a b rdy given aff f
    by (rule leads_at_then [OF lower], rule leads_at_then [OF writer], rule leads_bind [OF commit],
        rule leads_then [where R = "at_ok C k a"], simp add: at_ok_inert, rule leads_bind [OF fill_results_ok rest])
      (auto dest: at_ok_imp)
  show ?thesis
    unfolding fill_key_def e split
  proof (rule keeps_read, goal_cases)
    case (1 s)
    show ?case
    proof (cases "residency_of s k")
      case None
      then show ?thesis using 1 by (simp add: raiseS_def Let_def)
    next
      case (Some a)
      then have at: "at_ok C k a s" using 1 by (simp add: at_ok_def)
      show ?thesis unfolding Some Let_def option.case by (rule step [unfolded leads_iff, rule_format, OF at])
    qed
  qed
qed

end

context request_hooks
begin

lemma keeps_apply_fill: "keeps (pools_ok C) (apply_fill_result H ks ixs succ src w dsts)"
  unfolding apply_fill_result_def
  by (auto intro!: keeps_bind keeps_foldS keeps_fill_key keeps_then keeps_mod keeps_forS keeps_finish_residency keeps_read_any
      keeps_when keeps_start_deposits keeps_start_deliveries resume_law simp: pool_ok_fold_view frame)

lemma keeps_complete_fill: "keeps (pools_ok C) (complete_fill H ks succ)"
  unfolding complete_fill_def
  by (intro keeps_bind keeps_foldS keeps_read_any keeps_apply_fill) (auto intro: keeps_raise keeps_ret split: option.splits)

lemma keeps_finish_copy: "keeps (pools_ok C) (finish_copy H c)"
  unfolding finish_copy_def
  by (auto intro!: keeps_read_any keeps_raise keeps_then keeps_mod keeps_finish_residency keeps_finish_deliver
      keeps_finish_delivery_copy keeps_apply_fill simp: pool_ok_fold_view split: option.splits)

lemma keeps_discard_fill: "keeps (pools_ok C) (discard_fill H ks)"
  unfolding discard_fill_def
  by (auto intro!: keeps_bind keeps_foldS discard_key_ok keeps_then keeps_forS keeps_finish_residency keeps_finish_deliver)

lemma keeps_expire: "keeps (pools_ok C) (expire_pending_ops H t)"
proof -
  have r: "keeps (pools_ok C) (expire_residency_op H t i)" for i
    unfolding expire_residency_op_def
    by (auto simp: Let_def pool_ok_fold_view intro!: keeps_read_any keeps_ret keeps_then keeps_mod keeps_finish_residency
        keeps_discard_fill)
  have d: "keeps (pools_ok C) (expire_deliver_op H t i)" for i
    unfolding expire_deliver_op_def
    by (auto simp: Let_def pool_ok_fold_view intro!: keeps_read_any keeps_ret keeps_then keeps_mod keeps_finish_deliver)
  show ?thesis
    unfolding expire_pending_ops_def by (intro keeps_then keeps_read_any keeps_forS r d)
qed

lemma keeps_resume_waiter: "keeps (pools_ok C) (resume_waiter H)"
  unfolding resume_waiter_def
  by (auto simp: Let_def intro!: keeps_read_any keeps_raise keeps_then keeps_mod keeps_ret keeps_finish_residency
      keeps_get_record keeps_start_deposits keeps_resolve_fetch_waiter split: list.splits option.splits)

lemma keeps_resume_capacity_waiters: "keeps (pools_ok C) (resume_capacity_waiters H)"
  unfolding resume_capacity_waiters_def
  by (auto intro!: keeps_read_any keeps_ret keeps_finally keeps_then keeps_mod hook.keeps_drain_source_completions keeps_foldS
      keeps_resume_waiter)

lemma keeps_dram_poll_main: "keeps (pools_ok C) (dram_poll_main H items)"
  unfolding dram_poll_main_def
  by (auto intro!: keeps_then hook.keeps_drain_source_completions keeps_mod keeps_bind keeps_foldS keeps_finish_copy keeps_ret
      keeps_read_any keeps_expire split: sum.splits)

end

end
