(* ===== verification/KVCR_G3.thy ===== *)
theory KVCR_G3
  imports KVCR_LocalDram
begin

text \<open>
  \<open>_G3\<close> (\<open>backends/local_disk.py\<close>): the file-backed tier. It owns the units of disk allocation, moves
  evicted blocks to disk, reads them back into local DRAM or into framework memory, and evicts its own.

  \<open>c\<close> is the configuration of the tier; \<open>rs\<close> resumes the operations that wait for local capacity. A
  residency on disk is held by one block record only, so it lives in the record and \<open>g3_id\<close> stands for
  the identity of the object.
\<close>

definition finallyA :: "('s, 'a) sx \<Rightarrow> ('s, unit) sx \<Rightarrow> ('s, 'a) sx" where
  "finallyA m n = (\<lambda>s. case m s of (x, s') \<Rightarrow>
     (case n s' of (Inl e, s'') \<Rightarrow> (Inl e, s'') | (Inr _, s'') \<Rightarrow> (x, s'')))"

subsection \<open>Sources the core holds for an operation\<close>

definition claim_local_dram_sources :: "op_id \<Rightarrow> key list \<Rightarrow> bool \<Rightarrow> ('p, (key, nat) dict) act" where
  "claim_local_dram_sources i ks allow_filling = readS (\<lambda>s.
     let sources = (case map_of (sources_by_op s) i of None \<Rightarrow> [] | Some d \<Rightarrow> d) in
     if \<not> has_local_dram (cfg s) then retS sources
     else bindS (acquire_sources (filter (\<lambda>k. map_of sources k = None) ks) allow_filling) (\<lambda>claimed.
       if claimed = [] then retS sources
       else
         let sources' = fold (\<lambda>(k, a). AList.update k a) claimed sources in
         thenS (modS (\<lambda>s. s\<lparr>sources_by_op := AList.update i sources' (sources_by_op s)\<rparr>)) (retS sources')))"

definition release_local_dram_sources :: "('p, unit) act \<Rightarrow> op_id \<Rightarrow> key list option \<Rightarrow> ('p, unit) act" where
  "release_local_dram_sources rs i keys = readS (\<lambda>s.
     let sources = (case map_of (sources_by_op s) i of None \<Rightarrow> [] | Some d \<Rightarrow> d) in
     if sources = [] then retS ()
     else if \<not> has_local_dram (cfg s) then raiseS (RuntimeError ''controller source exists without local DRAM'')
     else
       let released = (case keys of None \<Rightarrow> map fst sources
             | Some ks \<Rightarrow> filter (\<lambda>k. map_of sources k \<noteq> None) (fromkeys ks)) in
       thenS (release_sources rs released)
         (modS (\<lambda>s.
           let left = fold AList.delete released (case map_of (sources_by_op s) i of None \<Rightarrow> [] | Some d \<Rightarrow> d)
           in s\<lparr>sources_by_op := (if left = [] then AList.delete i (sources_by_op s)
                  else AList.update i left (sources_by_op s))\<rparr>)))"

subsection \<open>Geometry\<close>

definition g3_of :: "'p core \<Rightarrow> key \<Rightarrow> g3_residency option" where
  "g3_of s k = (case map_of (block_record_map s) k of None \<Rightarrow> None | Some rec \<Rightarrow> g3 rec)"

definition g3_size :: "g3_config \<Rightarrow> g3_residency \<Rightarrow> int" where
  "g3_size c r = int (length (g3_slots r)) * g3_slot_size c"

definition g3_total_slots :: "g3_config \<Rightarrow> nat" where
  "g3_total_slots c = nat (int (length (direct_fds c)) * bytes_per_file c div g3_slot_size c)"

definition block_size :: "pool_layouts \<Rightarrow> string \<Rightarrow> int" where
  "block_size sizes l = (case map_of sizes (label_pool l) of None \<Rightarrow> 0 | Some b \<Rightarrow> b)"

text \<open>The disk units of each logical piece, in layout order.\<close>

fun piece_slots :: "pool_layouts \<Rightarrow> int \<Rightarrow> string list \<Rightarrow> nat list \<Rightarrow> nat list list" where
  "piece_slots sizes sz [] sl = []"
| "piece_slots sizes sz (l # ls) sl =
     (let n = nat (block_size sizes l div sz) in take n sl # piece_slots sizes sz ls (drop n sl))"

text \<open>\<open>range(0, size, step)\<close>.\<close>

definition offsets :: "int \<Rightarrow> int \<Rightarrow> int list" where
  "offsets len step = map (\<lambda>j. int j * step) [0..<nat ((len + step - 1) div step)]"

definition memory_chunks :: "g3_config \<Rightarrow> 'p config \<Rightarrow> TransferRef \<Rightarrow> MemDescriptor list res" where
  "memory_chunks c conf ref =
     bindR (address_descriptor (memory_regs conf) (agent_name conf) ref) (\<lambda>d.
       Inr (map (\<lambda>off. \<lparr>md_mem_type = md_mem_type d, md_addr = md_addr d + off, md_size = g3_slot_size c,
                 md_device_Id = md_device_Id d\<rparr>) (offsets (md_size d) (g3_slot_size c))))"

definition g3_descriptor :: "g3_config \<Rightarrow> nat \<Rightarrow> MemDescriptor" where
  "g3_descriptor c slot =
     (let n = length (direct_fds c) in
      \<lparr>md_mem_type = ''FILE'', md_addr = int (slot div n) * g3_slot_size c, md_size = g3_slot_size c,
       md_device_Id = direct_fds c ! (slot mod n)\<rparr>)"

fun concat_res :: "'a list res list \<Rightarrow> 'a list res" where
  "concat_res [] = Inr []"
| "concat_res (r # rs) = bindR r (\<lambda>xs. bindR (concat_res rs) (\<lambda>ys. Inr (xs @ ys)))"

subsection \<open>Evictable blocks\<close>

definition g3_make_evictable :: "g3_config \<Rightarrow> key \<Rightarrow> 'p core \<Rightarrow> 'p core" where
  "g3_make_evictable c k s =
     (case g3_of s k of
        None \<Rightarrow> s
      | Some r \<Rightarrow>
          if g3_claim_count r \<noteq> 0 then s
          else
            case eviction_score (the_policy (cfg s)) (meta_of k (g3_size c r) s) G3
                   (evq_score (g3_evictable (gd s)) k) (pol s) of (sc, p') \<Rightarrow>
              gd_update (\<lambda>g.
                case sc of
                  None \<Rightarrow> g\<lparr>g3_unscored := add_end k (g3_unscored g)\<rparr>
                | Some v \<Rightarrow>
                    (case evq_insert (g3_evictable g) k v of (new, q) \<Rightarrow>
                       g\<lparr>g3_unscored := removeAll k (g3_unscored g), g3_evictable := q,
                         g3_evictable_slots := g3_evictable_slots g + (if new then int (length (g3_slots r)) else 0)\<rparr>))
                (s\<lparr>pol := p'\<rparr>))"

definition g3_remove_evictable :: "key \<Rightarrow> 'p core \<Rightarrow> 'p core" where
  "g3_remove_evictable k s =
     (let n = (case g3_of s k of None \<Rightarrow> 0 | Some r \<Rightarrow> int (length (g3_slots r))) in
      gd_update (\<lambda>g.
        case evq_remove (g3_evictable g) k of (found, q) \<Rightarrow>
          g\<lparr>g3_unscored := removeAll k (g3_unscored g), g3_evictable := q,
            g3_evictable_slots := g3_evictable_slots g - (if found then n else 0)\<rparr>) s)"

definition g3_retry_unscored :: "g3_config \<Rightarrow> 'p core \<Rightarrow> 'p core" where
  "g3_retry_unscored c s = fold (g3_make_evictable c) (g3_unscored (gd s)) s"

definition g3_evict :: "g3_config \<Rightarrow> key \<Rightarrow> g3_residency \<Rightarrow> 'p core \<Rightarrow> 'p core" where
  "g3_evict c k r s =
     (let s1 = observe k (upd_record k (\<lambda>rec. rec\<lparr>g3 := None\<rparr>) (g3_remove_evictable k s));
          s2 = publish_inventory [k] G3 True (core_on_remove (meta_of k (g3_size c r) s1) s1)
      in gd_update (\<lambda>g. g\<lparr>g3_free_slots := g3_free_slots g @ g3_slots r\<rparr>) (prune_block_record k s2))"

definition g3_pop_slot :: "('p, nat option) act" where
  "g3_pop_slot = readS (\<lambda>s.
     case g3_free_slots (gd s) of
       [] \<Rightarrow> raiseS (IndexError ''pop from an empty deque'')
     | x # xs \<Rightarrow> thenS (modS (gd_update (\<lambda>g. g\<lparr>g3_free_slots := xs\<rparr>))) (retS (Some x)))"

text \<open>
  The loop over the candidates. Each one is taken out of the heap, so the length of the heap bounds the
  number of rounds.
\<close>

fun g3_scan :: "nat \<Rightarrow> g3_config \<Rightarrow> (score, key) cand \<Rightarrow> 'p core \<Rightarrow> (nat option res \<times> (score, key) cand) \<times> 'p core" where
  "g3_scan 0 c g s = ((Inl OutOfFuel, g), s)"
| "g3_scan (Suc n) c g s =
     (case cand_next (g3_evictable (gd s)) g of (found, q, g1) \<Rightarrow>
        let s1 = gd_update (\<lambda>x. x\<lparr>g3_evictable := q\<rparr>) s in
        case found of
          None \<Rightarrow> ((Inr None, g1), s1)
        | Some k \<Rightarrow>
            (case g3_of s1 k of
               None \<Rightarrow> ((Inl (RuntimeError ''invalid G3 eviction candidate''), g1), s1)
             | Some r \<Rightarrow>
                 if g3_claim_count r \<noteq> 0 then ((Inl (RuntimeError ''invalid G3 eviction candidate''), g1), s1)
                 else if list_ex (\<lambda>i. fst i = ''fetch'') (active_op_ids s1 k) then g3_scan n c g1 s1
                 else
                   case decide_eviction (the_policy (cfg s1)) (allowed_moves (cfg s1)) (meta_of k (g3_size c r) s1) G3
                          (pol s1) of (decision, p') \<Rightarrow>
                     let s2 = s1\<lparr>pol := p'\<rparr> in
                     if fst decision = KEEP then g3_scan n c g1 s2
                     else case g3_pop_slot (g3_evict c k r s2) of (x, s3) \<Rightarrow> ((x, g1), s3)))"

definition g3_allocate_slot :: "g3_config \<Rightarrow> key set \<Rightarrow> ('p, nat option) act" where
  "g3_allocate_slot c protected = readS (\<lambda>s.
     if g3_free_slots (gd s) \<noteq> [] then g3_pop_slot
     else thenS (modS (g3_retry_unscored c)) (\<lambda>s.
       case g3_scan (Suc (length (heap (g3_evictable (gd s))))) c (cand_start protected) s of
         ((x, g), s') \<Rightarrow> (x, gd_update (\<lambda>x. x\<lparr>g3_evictable := fst (cand_close (g3_evictable x) g)\<rparr>) s')))"

subsection \<open>Reservations\<close>

definition rollback :: "(key \<times> g3_residency) list \<Rightarrow> 'p core \<Rightarrow> 'p core" where
  "rollback items = fold (\<lambda>(k, r).
     gd_update (\<lambda>g. if k \<in> set (pending_keys g)
       then g\<lparr>pending_keys := removeAll k (pending_keys g), g3_free_slots := g3_free_slots g @ g3_slots r\<rparr> else g)) items"

text \<open>\<open>for _ in range(required)\<close>, up to the first slot that cannot be had.\<close>

fun take_g3_slots :: "nat \<Rightarrow> g3_config \<Rightarrow> key set \<Rightarrow> nat list \<Rightarrow> ('p, nat list) act" where
  "take_g3_slots 0 c protected sl = retS sl"
| "take_g3_slots (Suc n) c protected sl =
     bindS (g3_allocate_slot c protected) (\<lambda>x.
       case x of None \<Rightarrow> retS sl | Some slot \<Rightarrow> take_g3_slots n c protected (sl @ [slot]))"

definition reserve_key ::
  "g3_config \<Rightarrow> key set \<Rightarrow> key \<times> TransferRef list \<Rightarrow> (key \<times> g3_residency) list \<Rightarrow>
     ('p, (key \<times> g3_residency) list) act" where
  "reserve_key c protected = (\<lambda>(k, trs) acc. readS (\<lambda>s.
     if map_of (block_record_map s) k = None \<or> g3_of s k \<noteq> None \<or> k \<in> set (pending_keys (gd s)) then retS acc
     else
       bindS (liftR (descriptor_bytes (layouts (cfg s)) trs)) (\<lambda>b.
         let required = nat (b div g3_slot_size c) in
         thenS (modS (\<lambda>s. if required > length (g3_free_slots (gd s)) then g3_retry_unscored c s else s))
           (readS (\<lambda>s.
             if int required > int (length (g3_free_slots (gd s))) + g3_evictable_slots (gd s) then retS acc
             else
               bindS (take_g3_slots required c protected []) (\<lambda>sl.
                 if length sl \<noteq> required
                 then thenS (modS (gd_update (\<lambda>g. g\<lparr>g3_free_slots := g3_free_slots g @ sl\<rparr>))) (retS acc)
                 else readS (\<lambda>s.
                   let i = next_g3 (gd s) in
                   thenS (modS (gd_update (\<lambda>g. g\<lparr>pending_keys := add_end k (pending_keys g), next_g3 := Suc i\<rparr>)))
                     (retS (acc @ [(k, \<lparr>g3_id = i, g3_layout = map label trs, g3_slots = sl, g3_claim_count = 0\<rparr>)])))))))))"

definition reserve ::
  "g3_config \<Rightarrow> (key, TransferRef list) dict \<Rightarrow> key set \<Rightarrow> ('p, (key \<times> g3_residency) list) act" where
  "reserve c blocks protected = foldS (reserve_key c protected) blocks []"

definition commit :: "g3_config \<Rightarrow> key \<times> g3_residency \<Rightarrow> ('p, unit) act" where
  "commit c = (\<lambda>(k, r). readS (\<lambda>s.
     if k \<notin> set (pending_keys (gd s)) then raiseS (KeyError ''pending key'')
     else
       thenS (modS (\<lambda>s. get_block_record k (gd_update (\<lambda>g. g\<lparr>pending_keys := removeAll k (pending_keys g)\<rparr>) s)))
         (readS (\<lambda>s.
           if g3_of s k \<noteq> None then raiseS (RuntimeError ''G3 destination became resident before commit'')
           else modS (\<lambda>s. publish_inventory [k] G3 False
                  (g3_make_evictable c k (observe k (upd_record k (\<lambda>rec. rec\<lparr>g3 := Some r\<rparr>) s))))))))"

subsection \<open>Claims on disk residencies\<close>

definition g3_claim_key ::
  "key \<Rightarrow> ((key \<times> nat) list \<times> key list) \<times> 'p core \<Rightarrow> ((key \<times> nat) list \<times> key list) \<times> 'p core" where
  "g3_claim_key k = (\<lambda>((cl, rejected), s).
     case g3_of s k of
       None \<Rightarrow> ((cl, rejected @ [k]), s)
     | Some r \<Rightarrow>
         ((cl @ [(k, g3_id r)], rejected),
          upd_record k (\<lambda>rec. rec\<lparr>g3 := Some (r\<lparr>g3_claim_count := g3_claim_count r + 1\<rparr>)\<rparr>) (g3_remove_evictable k s)))"

definition g3_claim :: "key list \<Rightarrow> ('p, (key \<times> nat) list \<times> key list) act" where
  "g3_claim ks = (\<lambda>s. case fold g3_claim_key ks (([], []), s) of (x, s') \<Rightarrow> (Inr x, s'))"

definition release_claims :: "g3_config \<Rightarrow> (key \<times> nat) list \<Rightarrow> ('p, unit) act" where
  "release_claims c cl = forS cl (\<lambda>(k, i). readS (\<lambda>s.
     case g3_of s k of
       None \<Rightarrow> raiseS (RuntimeError ''G3 claim lost residency'')
     | Some r \<Rightarrow>
         if g3_id r \<noteq> i then raiseS (RuntimeError ''G3 claim lost residency'')
         else if g3_claim_count r \<le> 0 then raiseS (RuntimeError ''invalid G3 claim count'')
         else modS (\<lambda>s.
           let s' = upd_record k (\<lambda>rec. rec\<lparr>g3 := Some (r\<lparr>g3_claim_count := g3_claim_count r - 1\<rparr>)\<rparr>) s in
           if g3_claim_count r - 1 = 0 then g3_make_evictable c k s' else s')))"

subsection \<open>Starting transfers\<close>

definition g3_submit :: "g3_config \<Rightarrow> g3_op \<Rightarrow> ('p, unit) act" where
  "g3_submit c op = readS (\<lambda>s.
     if map_of (g3_active (gd s)) (g3_op_id op) \<noteq> None then raiseS (RuntimeError ''duplicate G3 operation'')
     else
       thenS (modS (\<lambda>s. add_block_dependencies (g3_op_id op) (g3_keys op) True
           (gd_update (\<lambda>g. g\<lparr>g3_active := AList.update (g3_op_id op) op (g3_active g)\<rparr>) s)))
         (catchS (progress_submit (G3Transfer op)) (\<lambda>e.
           thenS (modS (\<lambda>s. remove_block_dependencies (g3_op_id op) (g3_keys op)
               (gd_update (\<lambda>g. g\<lparr>g3_active := AList.delete (g3_op_id op) (g3_active g)\<rparr>) s)))
             (thenS (if g3_kind op = Store then modS (rollback (g3_reservations op))
                     else release_claims c (g3_claims op))
               (raiseS e)))))"

definition preflight_ok :: "g3_config \<Rightarrow> (key \<times> g3_residency) list \<Rightarrow> 'p core \<Rightarrow> bool" where
  "preflight_ok c items s =
     (case recovery_preflight c of
        None \<Rightarrow> True
      | Some check \<Rightarrow> list_all (\<lambda>(k, r).
          case map_of (block_record_map s) k of
            None \<Rightarrow> False
          | Some rec \<Rightarrow> check k (deref_record (res_store s) rec) r) items)"

definition start_store ::
  "g3_config \<Rightarrow> op_id \<Rightarrow> (key, TransferRef list) dict \<Rightarrow> time \<Rightarrow> ('p, bool) act" where
  "start_store c i blocks deadline =
     bindS (reserve c blocks (set (map fst blocks))) (\<lambda>items. readS (\<lambda>s.
       if length items \<noteq> length blocks \<or> \<not> preflight_ok c items s
       then thenS (modS (rollback items)) (retS False)
       else
         bindS (liftR (concat_res (concat (map (\<lambda>(k, r).
             map (memory_chunks c (cfg s)) (case map_of blocks k of None \<Rightarrow> [] | Some trs \<Rightarrow> trs)) items))))
           (\<lambda>memory.
             thenS (g3_submit c
                 \<lparr>g3_op_id = i, g3_kind = Store, g3_keys = map fst items, memory_descriptors = memory,
                  file_descriptors = map (g3_descriptor c) (concat (map (g3_slots \<circ> snd) items)),
                  g3_deadline = deadline, g3_reservations = items, g3_claims = [], g3_memory_refs = [],
                  lifecycle_handle = None, g3_abandon_deadline = None, g3_uncertain = False,
                  g3_transfer_id = None, g3_failure_latched = False, g3_success = False\<rparr>)
               (retS True))))"

text \<open>The claims whose layout holds the requested pieces, with the descriptors of both sides.\<close>

record read_acc =
  accepted :: "(key \<times> nat) list"
  rejected_keys :: "key list"
  read_memory :: "MemDescriptor list"
  read_file :: "MemDescriptor list"

definition read_claim ::
  "g3_config \<Rightarrow> (key, TransferRef list) dict \<Rightarrow> key \<times> nat \<Rightarrow> read_acc \<Rightarrow> ('p, read_acc) act" where
  "read_claim c blocks = (\<lambda>(k, i) acc. readS (\<lambda>s.
     case (map_of blocks k, g3_of s k) of
       (Some trs, Some r) \<Rightarrow>
         (case layout_indices (g3_layout r) (map label trs) None of
            None \<Rightarrow> thenS (release_claims c [(k, i)]) (retS (acc\<lparr>rejected_keys := rejected_keys acc @ [k]\<rparr>))
          | Some indices \<Rightarrow>
              let pieces = piece_slots (layouts (cfg s)) (g3_slot_size c) (g3_layout r) (g3_slots r) in
              bindS (liftR (concat_res (map (memory_chunks c (cfg s)) trs))) (\<lambda>memory.
                retS (acc\<lparr>accepted := accepted acc @ [(k, i)], read_memory := read_memory acc @ memory,
                  read_file := read_file acc @ map (g3_descriptor c) (concat (map ((!) pieces) indices))\<rparr>)))
     | _ \<Rightarrow> raiseS (KeyError ''block'')))"

definition start_read ::
  "g3_config \<Rightarrow> G3Kind \<Rightarrow> int \<Rightarrow> (key, TransferRef list) dict \<Rightarrow> time \<Rightarrow> ('p, bool) act" where
  "start_read c kind h blocks deadline =
     bindS (g3_claim (map fst blocks)) (\<lambda>(cl, rejected).
     bindS (foldS (read_claim c blocks) cl
         \<lparr>accepted = [], rejected_keys = rejected, read_memory = [], read_file = []\<rparr>) (\<lambda>acc.
       if rejected_keys acc \<noteq> [] \<and> kind = Fill
       then thenS (release_claims c (accepted acc)) (retS False)
       else
         thenS (whenS (rejected_keys acc \<noteq> []) (modS (\<lambda>s.
             core_complete h (map (\<lambda>k. (k, FAILED_RESULT)) (rejected_keys acc))
               (if map_of (joined_completions s) h = None
                then s\<lparr>joined_completions := AList.update h (fst ` set blocks, []) (joined_completions s)\<rparr> else s))))
           (if accepted acc = [] then retS True
            else if card (set (map md_mem_type (read_memory acc))) \<noteq> 1
            then thenS (release_claims c (accepted acc)) (retS False)
            else
              readS (\<lambda>s.
                let deliver = (kind = Deliver); life = next_fill_handle s in
                thenS (whenS deliver (modS (\<lambda>s. s\<lparr>next_fill_handle := life - 1\<rparr>)))
                (thenS (g3_submit c
                   \<lparr>g3_op_id = (if deliver then ''g3_deliver'' else ''g3_fill'', Handle h), g3_kind = kind,
                    g3_keys = map fst (accepted acc), memory_descriptors = read_memory acc,
                    file_descriptors = read_file acc, g3_deadline = deadline, g3_reservations = [],
                    g3_claims = accepted acc,
                    g3_memory_refs = (if deliver
                      then concat (map (\<lambda>(k, _). case map_of blocks k of None \<Rightarrow> [] | Some trs \<Rightarrow> trs) (accepted acc)) else []),
                    lifecycle_handle = (if deliver then Some life else None),
                    g3_abandon_deadline = (if deliver then Some (deadline + abandon_grace (cfg s)) else None),
                    g3_uncertain = False, g3_transfer_id = None, g3_failure_latched = False, g3_success = False\<rparr>)
                  (retS True))))))"

subsection \<open>Evictions from local DRAM\<close>

definition retire_local_sources :: "('p, unit) act \<Rightarrow> op_id \<Rightarrow> ('p, unit) act" where
  "retire_local_sources rs i = readS (\<lambda>s.
     let sources = (case map_of (sources_by_op s) i of None \<Rightarrow> [] | Some d \<Rightarrow> d) in
     if sources = [] then retS ()
     else if \<not> has_local_dram (cfg s) then raiseS (RuntimeError ''G3 move completed without local DRAM'')
     else thenS (retire_sources (map fst sources)) (release_local_dram_sources rs i None))"

definition recover_store_failure :: "('p, unit) act \<Rightarrow> key \<Rightarrow> string \<Rightarrow> ('p, unit) act" where
  "recover_store_failure rs k why = readS (\<lambda>s.
     case map_of (block_record_map s) k of
       None \<Rightarrow> raiseS (KeyError ''block record'')
     | Some rec \<Rightarrow>
         (case local_dram rec of
            None \<Rightarrow> raiseS (TypeError ''local_dram'')
          | Some a \<Rightarrow>
              thenS (modS (\<lambda>s. s\<lparr>pol := snd (decide_recovery (the_policy (cfg s))
                  (meta_of k (residency_size (cfg s) (res_store s a)) s)
                  \<lparr>attempted = (MOVE_TO, Some G3), failure_source = LOCAL_G2, reason = why, failure_count = 1\<rparr>
                  (pol s))\<rparr>))
                (retire_local_sources rs (''g3_store'', OfKey k))))"

definition resolve_eviction ::
  "g3_config \<Rightarrow> ('p, unit) act \<Rightarrow> BlockMeta \<Rightarrow> CacheTier \<Rightarrow> PlacementDecision \<Rightarrow> time \<Rightarrow>
     ('p, PlacementDecision \<times> bool) act" where
  "resolve_eviction c rs meta source decision deadline = readS (\<lambda>s.
     let k = block_key meta; i = (''g3_store'', OfKey k) in
     if source \<noteq> LOCAL_G2 \<or> decision \<noteq> (MOVE_TO, Some G3) then retS (decision, False)
     else if residency_of s k = None then retS ((KEEP, None), False)
     else if g3_of s k \<noteq> None then retS ((DROP, None), False)
     else if k \<in> set (pending_keys (gd s)) then retS ((KEEP, None), False)
     else
       bindS (claim_local_dram_sources i [k] False) (\<lambda>sources.
         case map_of sources k of
           None \<Rightarrow> retS ((KEEP, None), False)
         | Some a \<Rightarrow>
             bindS
               (catchS
                 (readS (\<lambda>s.
                   case source_refs (cfg s) (res_store s a) [0..<length (slots (res_store s a))] of (trs, r') \<Rightarrow>
                     thenS (modS (upd_res a (\<lambda>_. r')))
                       (bindS (start_store c i [(k, trs)] deadline) (\<lambda>started.
                         if started then retS True
                         else thenS (recover_store_failure rs k ''G3 destination unavailable'') (retS False)))))
                 (\<lambda>e. thenS (recover_store_failure rs k ''store failed to start'') (retS False)))
               (\<lambda>started. retS ((KEEP, None), started))))"

text \<open>\<open>_KVCRCore._decide_eviction\<close>.\<close>

definition core_decide :: "('p, unit) act \<Rightarrow> 'p decider" where
  "core_decide rs meta source deadline = readS (\<lambda>s.
     case decide_eviction (the_policy (cfg s)) (allowed_moves (cfg s)) meta source (pol s) of (decision, p') \<Rightarrow>
       thenS (modS (\<lambda>s. s\<lparr>pol := p'\<rparr>))
         (case g3_cfg (cfg s) of
            None \<Rightarrow> retS (decision, False)
          | Some c \<Rightarrow> resolve_eviction c rs meta source decision deadline))"

subsection \<open>The end of a transfer\<close>

definition g3_finish :: "g3_config \<Rightarrow> 'p hooks \<Rightarrow> g3_op \<Rightarrow> ('p, unit) act" where
  "g3_finish c H op =
     (case g3_kind op of
        Store \<Rightarrow>
          if g3_success op
          then thenS (forS (g3_reservations op) (commit c)) (retire_local_sources (resume H) (g3_op_id op))
          else
            thenS (modS (rollback (g3_reservations op)))
              (case g3_keys op of
                 [k] \<Rightarrow> recover_store_failure (resume H) k ''transfer failed''
               | _ \<Rightarrow> raiseS (ValueError ''unpack''))
      | Fill \<Rightarrow> readS (\<lambda>s.
          if \<not> has_local_dram (cfg s) then raiseS (RuntimeError ''G3 fill completed without local DRAM'')
          else
            let succ = (g3_success op \<and> list_all (\<lambda>k.
                  case residency_of s k of
                    None \<Rightarrow> False
                  | Some a \<Rightarrow> rstate (res_store s a) \<noteq> DISCARDING \<and> remote_indices (res_store s a) \<noteq> None) (g3_keys op))
            in finallyA (complete_fill H (g3_keys op) succ) (release_claims c (g3_claims op)))
      | Deliver \<Rightarrow>
          thenS (finallyA (whenS (g3_success op) (record_access (g3_keys op))) (release_claims c (g3_claims op)))
            (whenS (\<not> g3_uncertain op) (modS (core_complete (op_handle (g3_op_id op))
               (map (\<lambda>k. (k, if g3_success op then SUCCESS_RESULT else FAILED_RESULT)) (g3_keys op))))))"

text \<open>
  A transfer comes back once as itself and, when its end is uncertain, once before that as a copy that
  still has its native transfer. The test that the finished item is the registered object is that its
  id is registered.
\<close>

definition g3_poll_item :: "g3_config \<Rightarrow> 'p hooks \<Rightarrow> g3_op \<Rightarrow> ('p, unit) act" where
  "g3_poll_item c H op = readS (\<lambda>s.
     if g3_uncertain op \<and> g3_transfer_id op \<noteq> None then
       (if map_of (g3_active (gd s)) (g3_op_id op) = None then raiseS (RuntimeError ''unknown uncertain G3 operation'')
        else modS (core_complete (op_handle (g3_op_id op)) (map (\<lambda>k. (k, FAILED_RESULT)) (g3_keys op))))
     else if map_of (g3_active (gd s)) (g3_op_id op) = None
     then raiseS (RuntimeError ''unknown completed G3 operation'')
     else
       thenS (modS (gd_update (\<lambda>g. g\<lparr>g3_active := AList.delete (g3_op_id op) (g3_active g)\<rparr>)))
         (finallyS (g3_finish c H op) (remove_block_dependencies (g3_op_id op) (g3_keys op))))"

definition g3_poll_main :: "g3_config \<Rightarrow> 'p hooks \<Rightarrow> (g3_op + 'i) list \<Rightarrow> ('p, 'i list) act" where
  "g3_poll_main c H items =
     foldS (\<lambda>item unhandled.
       case item of Inl op \<Rightarrow> thenS (g3_poll_item c H op) (retS unhandled) | Inr x \<Rightarrow> retS (unhandled @ [x])) items []"

definition g3_close_main :: "g3_config \<Rightarrow> ('p, unit) act \<Rightarrow> ('p, unit) act" where
  "g3_close_main c rs =
     thenS (readS (\<lambda>s. forS (map snd (g3_active (gd s))) (\<lambda>op.
       thenS
         (if g3_kind op = Store then
            thenS (modS (\<lambda>s. (if has_local_dram (cfg s) then fold abandon_capacity_eviction (g3_keys op) else id)
                (rollback (g3_reservations op) s)))
              (release_local_dram_sources rs (g3_op_id op) None)
          else release_claims c (g3_claims op))
         (modS (remove_block_dependencies (g3_op_id op) (g3_keys op))))))
     (modS (gd_update (\<lambda>g. g\<lparr>g3_active := []\<rparr>)))"

subsection \<open>Configuration, recovery and reports\<close>

definition normalize_g3_backend_options :: "string \<Rightarrow> (string, string) dict \<Rightarrow> (string, string) dict" where
  "normalize_g3_backend_options backend options =
     (if backend = ''POSIX'' \<and> list_all (\<lambda>n. map_of options n = None) [''use_uring'', ''use_aio'', ''use_posix_aio'']
      then AList.update ''use_aio'' ''true'' options else options)"

text \<open>
  The checks of \<open>_G3.__init__\<close> on resolved paths, and the geometry they fix: the bytes kept per file and
  the number of units. Opening and locking the files is left to the operating system.
\<close>

definition g3_init :: "int \<Rightarrow> string list \<Rightarrow> int \<Rightarrow> int \<Rightarrow> string \<Rightarrow> (int \<times> g3_state) res" where
  "g3_init page_size paths capacity_bytes_per_file slot_sz backend =
     (if paths = [] then Inl (ValueError ''G3 requires at least one file path'')
      else if \<not> distinct paths then Inl (ValueError ''G3 file paths must be unique'')
      else if slot_sz \<le> 0 \<or> slot_sz mod page_size \<noteq> 0
      then Inl (ValueError ''G3 slot size must be positive and page aligned'')
      else
        let per_file = capacity_bytes_per_file div slot_sz in
        if per_file < 1 then Inl (ValueError ''G3 file capacity must contain at least one complete slot'')
        else if backend = [] then Inl (ValueError ''G3 NIXL backend must be non-empty'')
        else Inr (per_file * slot_sz,
          \<lparr>g3_free_slots = [0..<nat (per_file * int (length paths))], g3_evictable = evq_init, g3_evictable_slots = 0,
           g3_unscored = [], pending_keys = [], g3_active = [], next_g3 = 0\<rparr>))"

definition g3_is_ready :: "'p core \<Rightarrow> key \<Rightarrow> string list option \<Rightarrow> bool" where
  "g3_is_ready s k layout =
     (case g3_of s k of
        None \<Rightarrow> False
      | Some r \<Rightarrow> (case layout of None \<Rightarrow> True | Some l \<Rightarrow> g3_layout r = l))"

fun claim_g3_slots :: "nat \<Rightarrow> nat set \<Rightarrow> nat list \<Rightarrow> nat set option" where
  "claim_g3_slots n occupied [] = Some occupied"
| "claim_g3_slots n occupied (x # xs) =
     (if \<not> x < n \<or> x \<in> occupied then None else claim_g3_slots n (insert x occupied) xs)"

definition adopt_g3_record ::
  "g3_config \<Rightarrow> key \<times> nat block_record \<Rightarrow> nat set \<Rightarrow> ('p, nat set) act" where
  "adopt_g3_record c = (\<lambda>(k, rec) occupied.
     case g3 rec of
       None \<Rightarrow> retS occupied
     | Some r \<Rightarrow> readS (\<lambda>s.
         bindS (liftR (validate_expected_layout (layouts (cfg s)) (Some (g3_layout r)))) (\<lambda>_.
           if g3_size c r \<noteq> sum_list (map (block_size (layouts (cfg s))) (g3_layout r))
           then raiseS (ValueError ''invalid G3 recovery slots'')
           else
             case claim_g3_slots (g3_total_slots c) occupied (g3_slots r) of
               None \<Rightarrow> raiseS (ValueError ''invalid G3 recovery slots'')
             | Some occupied' \<Rightarrow>
                 (case local_dram rec of
                    None \<Rightarrow> retS occupied'
                  | Some a \<Rightarrow>
                      if g3_layout r \<noteq> key_layout (res_store s a)
                      then raiseS (ValueError ''G3 recovery layout does not match local DRAM'')
                      else retS occupied'))))"

definition adopt_g3_slots :: "g3_config \<Rightarrow> (key, nat block_record) dict \<Rightarrow> ('p, unit) act" where
  "adopt_g3_slots c records =
     bindS (foldS (adopt_g3_record c) records {}) (\<lambda>occupied.
       modS (gd_update (\<lambda>g. g\<lparr>g3_free_slots := filter (\<lambda>x. x \<notin> occupied) [0..<g3_total_slots c]\<rparr>)))"

definition g3_rank_recovered :: "g3_config \<Rightarrow> (key, nat block_record) dict \<Rightarrow> 'p core \<Rightarrow> 'p core" where
  "g3_rank_recovered c records =
     fold (\<lambda>(k, rec) s. if g3 rec \<noteq> None then g3_make_evictable c k s else s) records"

record g3_telemetry =
  tm_g3_total_slots :: int
  tm_g3_free_slots :: int
  tm_g3_allocated_slots :: int
  tm_g3_evictable_slots :: int
  tm_g3_pending_stores :: int

definition g3_telemetry_state :: "g3_config \<Rightarrow> 'p core \<Rightarrow> g3_telemetry" where
  "g3_telemetry_state c s =
     (let total = int (g3_total_slots c); free = int (length (g3_free_slots (gd s))) in
      \<lparr>tm_g3_total_slots = total, tm_g3_free_slots = free, tm_g3_allocated_slots = total - free,
       tm_g3_evictable_slots = g3_evictable_slots (gd s),
       tm_g3_pending_stores = int (length (pending_keys (gd s)))\<rparr>)"

subsection \<open>A transfer on the progress thread\<close>

datatype g3_event = G3Memory int bool "MemoryRef list" | G3Done g3_op

definition g3_report_memory :: "g3_op \<Rightarrow> bool \<Rightarrow> g3_event res" where
  "g3_report_memory op quiesced =
     (case lifecycle_handle op of
        None \<Rightarrow> Inl (RuntimeError ''G3 delivery lost its memory lifecycle handle'')
      | Some h \<Rightarrow> Inr (G3Memory h quiesced (map mref (g3_memory_refs op))))"

definition g3_poll ::
  "time \<Rightarrow> time \<Rightarrow> bool option \<Rightarrow> bool \<Rightarrow> g3_op \<Rightarrow> ((bool \<times> bool) \<times> g3_op \<times> g3_event list) res" where
  "g3_poll t_deadline t_abandon poll observed_work op0 =
     (let expired = (\<not> g3_failure_latched op0 \<and> t_deadline \<ge> g3_deadline op0);
          op = (if expired then op0\<lparr>g3_failure_latched := True\<rparr> else op0);
          w = (observed_work \<or> expired)
      in case poll of
           None \<Rightarrow>
             if g3_failure_latched op \<and> \<not> g3_uncertain op \<and>
                (case g3_abandon_deadline op of None \<Rightarrow> False | Some t \<Rightarrow> t_abandon \<ge> t)
             then let op' = op\<lparr>g3_uncertain := True\<rparr> in
                  bindR (g3_report_memory op' False) (\<lambda>ev. Inr ((False, True), op', [ev, G3Done op']))
             else Inr ((False, w), op, [])
         | Some ok \<Rightarrow>
             let op' = op\<lparr>g3_transfer_id := None, g3_success := (ok \<and> \<not> g3_failure_latched op)\<rparr> in
             if g3_uncertain op' then bindR (g3_report_memory op' True) (\<lambda>ev. Inr ((True, True), op', [ev]))
             else Inr ((True, True), op', []))"

definition g3_progress ::
  "time \<Rightarrow> time \<Rightarrow> time \<Rightarrow> (nat \<times> bool) res \<Rightarrow> bool option \<Rightarrow> g3_op \<Rightarrow>
     ((bool \<times> bool) \<times> g3_op \<times> g3_event list) res" where
  "g3_progress t_start t_deadline t_abandon sub poll op =
     (case g3_transfer_id op of
        Some _ \<Rightarrow> g3_poll t_deadline t_abandon poll False op
      | None \<Rightarrow>
          if t_start \<ge> g3_deadline op then Inr ((True, True), op, [])
          else
            case sub of
              Inl _ \<Rightarrow> Inr ((True, True), op, [])
            | Inr (t, ok) \<Rightarrow>
                g3_poll t_deadline t_abandon poll True (op\<lparr>g3_transfer_id := Some t, g3_failure_latched := \<not> ok\<rparr>))"

definition g3_close :: "g3_op \<Rightarrow> bool \<times> g3_op" where
  "g3_close op = (g3_transfer_id op = None, op\<lparr>g3_failure_latched := True, g3_success := False\<rparr>)"

end
