(* ===== verification/KVCR_Remote.thy ===== *)
theory KVCR_Remote
  imports KVCR_LocalDram
begin

text \<open>
  The caller's side of pulls from remote sources (\<open>backends/remote_fw_dram.py\<close>): the hints that name a
  source for a request, starting a pull, and what the core does with a pull that comes back from the
  progress thread. Timing and tracing are left out.
\<close>

subsection \<open>Request hints\<close>

definition remote_submit_hint :: "string option \<Rightarrow> int set \<Rightarrow> string option \<Rightarrow> ('p, unit) act" where
  "remote_submit_hint src hashes rid = readS (\<lambda>s.
     let connect = whenS (src \<noteq> None \<and> eager_ctrl_connect (cfg s))
           (progress_submit (TargetMetadataRequest (case src of None \<Rightarrow> [] | Some ep \<Rightarrow> ep)));
         fresh = \<lparr>hint_source = src, block_hashes = hashes, hint_failed = False, missing_keys = {}\<rparr>
     in case rid of
          None \<Rightarrow> connect
        | Some r \<Rightarrow>
            (case map_of (request_hints s) r of
               Some h \<Rightarrow>
                 if hint_source h \<noteq> src
                 then modS (\<lambda>s. s\<lparr>request_hints := AList.update r (h\<lparr>hint_failed := True\<rparr>) (request_hints s)\<rparr>)
                 else thenS (modS (\<lambda>s. s\<lparr>request_hints := AList.update r fresh (request_hints s)\<rparr>)) connect
             | None \<Rightarrow> thenS (modS (\<lambda>s. s\<lparr>request_hints := AList.update r fresh (request_hints s)\<rparr>)) connect))"

definition hint_of :: "'p core \<Rightarrow> string option \<Rightarrow> request_hint option" where
  "hint_of s rid = (case rid of None \<Rightarrow> None | Some r \<Rightarrow> map_of (request_hints s) r)"

definition remote_query :: "'p core \<Rightarrow> key \<Rightarrow> string option \<Rightarrow> bool" where
  "remote_query s k rid =
     (case (hint_of s rid, encode_to_router (cfg s)) of
        (Some h, Some enc) \<Rightarrow>
          hint_source h \<noteq> None \<and> \<not> hint_failed h \<and> k \<notin> missing_keys h \<and>
          (opportunistic_query (cfg s) \<or> enc k \<in> block_hashes h)
      | _ \<Rightarrow> False)"

definition remote_discard_hint :: "string \<Rightarrow> 'p core \<Rightarrow> 'p core" where
  "remote_discard_hint r s = s\<lparr>request_hints := AList.delete r (request_hints s)\<rparr>"

definition fail_request_hint :: "string option \<Rightarrow> 'p core \<Rightarrow> 'p core" where
  "fail_request_hint rid s =
     (case rid of
        None \<Rightarrow> s
      | Some r \<Rightarrow>
          (case map_of (request_hints s) r of
             None \<Rightarrow> s
           | Some h \<Rightarrow> s\<lparr>request_hints := AList.update r (h\<lparr>hint_failed := True\<rparr>) (request_hints s)\<rparr>))"

definition remote_close_main :: "'p core \<Rightarrow> 'p core" where
  "remote_close_main s = s\<lparr>request_hints := []\<rparr>"

subsection \<open>Pulls\<close>

definition complete_local_dram_fill :: "'p hooks \<Rightarrow> key list \<Rightarrow> bool \<Rightarrow> ('p, unit) act" where
  "complete_local_dram_fill H ks succ = readS (\<lambda>s.
     if \<not> has_local_dram (cfg s) then raiseS (RuntimeError ''remote fetch completed without local DRAM'')
     else complete_fill H ks succ)"

definition discard_local_dram_fill :: "'p hooks \<Rightarrow> key list \<Rightarrow> ('p, unit) act" where
  "discard_local_dram_fill H ks = readS (\<lambda>s.
     if \<not> has_local_dram (cfg s) then raiseS (RuntimeError ''remote fetch update without local DRAM'')
     else discard_fill H ks)"

definition add_remote_delivery_keys :: "string option \<Rightarrow> key list \<Rightarrow> 'p core \<Rightarrow> 'p core" where
  "add_remote_delivery_keys rid ks s =
     s\<lparr>remote_delivery_keys := AList.update rid
        (fold add_end ks (case map_of (remote_delivery_keys s) rid of None \<Rightarrow> [] | Some l \<Rightarrow> l))
        (remote_delivery_keys s)\<rparr>"

definition start_target_pull ::
  "(key, TransferRef list) dict \<Rightarrow> string option \<Rightarrow> time \<Rightarrow> int \<Rightarrow> bool \<Rightarrow> ('p, bool) act" where
  "start_target_pull blocks rid deadline h fill_local = readS (\<lambda>s.
     case hint_of s rid of
       None \<Rightarrow> retS False
     | Some hint \<Rightarrow>
         if hint_failed hint \<or> fst ` set blocks \<subseteq> missing_keys hint then retS False
         else
           case hint_source hint of
             None \<Rightarrow> retS False
           | Some src \<Rightarrow>
               let wanted = filter (\<lambda>(k, _). k \<notin> missing_keys hint) blocks; ks = map fst wanted;
                   i = (''target'', Handle h) in
               bindS
                 (if fill_local then
                    (case residency_of s (hd ks) of
                       None \<Rightarrow> raiseS (KeyError ''block record'')
                     | Some a \<Rightarrow> retS (key_layout (res_store s a)))
                  else retS [])
                 (\<lambda>layout.
                   thenS (modS (add_block_dependencies i (map fst blocks) True))
                   (thenS (progress_submit (TargetPull
                       \<lparr>pull_id = i, pull_keys = map fst blocks, pull_deadline = deadline, pull_state = START_WRITE,
                        local_fill = fill_local, remote_ctrl_ep = src, pull_ordered = ks, pull_dst = map snd wanted,
                        pull_request_id = rid, pull_key_layout = layout, pull_success = False, completed_keys = [],
                        probe_sent = False, source_incarnation = None, pull_uncertain = False, retried = False\<rparr>))
                     (thenS (whenS (\<not> fill_local \<and> rid \<noteq> None) (modS (add_remote_delivery_keys rid ks)))
                       (retS True)))))"

definition remote_deliver ::
  "int \<Rightarrow> (key, TransferRef list) dict \<Rightarrow> string option \<Rightarrow> time \<Rightarrow> ('p, unit) act" where
  "remote_deliver h blocks rid deadline =
     (if blocks = [] then modS (core_complete h [])
      else bindS (start_target_pull blocks rid deadline h False) (\<lambda>started.
        if started then retS () else modS (core_complete h (map (\<lambda>(k, _). (k, FAILED_RESULT)) blocks))))"

definition remote_fetch ::
  "(key, TransferRef list) dict \<Rightarrow> string option \<Rightarrow> time \<Rightarrow> int \<Rightarrow> ('p, bool) act" where
  "remote_fetch blocks rid deadline h = start_target_pull blocks rid deadline h True"

definition note_missing :: "pull_op \<Rightarrow> key list \<Rightarrow> 'p core \<Rightarrow> 'p core" where
  "note_missing op done s =
     (if \<not> pull_success op then fail_request_hint (pull_request_id op) s
      else case pull_request_id op of
        None \<Rightarrow> s
      | Some r \<Rightarrow>
          (case map_of (request_hints s) r of
             None \<Rightarrow> s
           | Some h \<Rightarrow>
               s\<lparr>request_hints := AList.update r
                   (h\<lparr>missing_keys := (missing_keys h \<union> set (pull_keys op)) - set done\<rparr>) (request_hints s)\<rparr>))"

definition finish_target_pull :: "'p hooks \<Rightarrow> pull_op \<Rightarrow> ('p, unit) act" where
  "finish_target_pull H op =
     (let quarantined = (pull_state op = QUARANTINED); done = (if pull_success op then completed_keys op else []) in
      thenS (modS (\<lambda>s. note_missing op done
          (if quarantined then s else remove_block_dependencies (pull_id op) (pull_keys op) s)))
        (if local_fill op then
           (if quarantined then retS ()
            else
              thenS (whenS (done \<noteq> []) (complete_local_dram_fill H (filter (\<lambda>k. k \<in> set done) (pull_ordered op)) True))
                (whenS (set done \<noteq> set (pull_keys op))
                  (complete_local_dram_fill H (filter (\<lambda>k. k \<notin> set done) (pull_keys op)) False)))
         else modS (core_complete (op_handle (pull_id op))
                (map (\<lambda>k. (k, if k \<in> set done then SUCCESS_RESULT else FAILED_RESULT)) (pull_keys op)))))"

text \<open>\<open>poll_main\<close> on a pull: it comes back when its fill must be discarded, when it is quarantined and when it ends.\<close>

definition remote_poll_pull :: "'p hooks \<Rightarrow> pull_op \<Rightarrow> ('p, unit) act" where
  "remote_poll_pull H op =
     (case pull_state op of
        WAITING_TERMINAL \<Rightarrow>
          if \<not> local_fill op then raiseS (RuntimeError ''non-local target pull is waiting for terminal state'')
          else discard_local_dram_fill H (pull_keys op)
      | QUARANTINED \<Rightarrow> finish_target_pull H op
      | FINISHED \<Rightarrow>
          if pull_uncertain op then
            thenS (modS (remove_block_dependencies (pull_id op) (pull_keys op)))
              (whenS (local_fill op) (complete_local_dram_fill H (pull_keys op) False))
          else finish_target_pull H op
      | _ \<Rightarrow> raiseS (RuntimeError ''target operation returned to main in an unexpected state''))"

end
