(* ===== verification/KVCR_Core.thy ===== *)
theory KVCR_Core
  imports KVCR_G3 KVCR_Remote
begin

text \<open>
  \<open>_KVCRCore\<close> (\<open>runtime/core.py\<close>): the hooks that tie the backends together, and the public operations.

  Two of the hooks call back into code that takes hooks. \<open>_resume_capacity_waiters\<close> does nothing while it
  runs, so inside it the hook is a no-op. A fill that cannot start is completed at once as failed,
  which may start the fill of another waiting operation; every such step settles one more key of a
  pending operation, so the number of unsettled keys, given as fuel, bounds the nesting.
\<close>

subsection \<open>Tying the backends together\<close>

definition start_local_fill ::
  "(key list \<Rightarrow> bool \<Rightarrow> ('p, unit) act) \<Rightarrow> CacheTier \<Rightarrow> (key, TransferRef list) dict \<Rightarrow> string option \<Rightarrow> time \<Rightarrow>
     ('p, unit) act" where
  "start_local_fill finish source blocks rid deadline =
     (if blocks = [] then retS ()
      else readS (\<lambda>s.
        let h = next_fill_handle s in
        thenS (modS (\<lambda>s. s\<lparr>next_fill_handle := h - 1\<rparr>))
          (bindS
            (case source of
               G3 \<Rightarrow> (case g3_cfg (cfg s) of None \<Rightarrow> retS False | Some c \<Rightarrow> start_read c Fill h blocks deadline)
             | REMOTE_G2 \<Rightarrow> remote_fetch blocks rid deadline h
             | _ \<Rightarrow> raiseS (ValueError ''unsupported local fill source''))
            (\<lambda>started. if started then retS () else finish (map fst blocks) False))))"

fun fill_hook ::
  "nat \<Rightarrow> ('p, unit) act \<Rightarrow> CacheTier \<Rightarrow> (key, TransferRef list) dict \<Rightarrow> string option \<Rightarrow> time \<Rightarrow> ('p, unit) act" where
  "fill_hook 0 rs = (\<lambda>_ _ _ _. raiseS OutOfFuel)"
| "fill_hook (Suc n) rs =
     start_local_fill (complete_local_dram_fill \<lparr>resume = rs, decide = core_decide rs, fill = fill_hook n rs\<rparr>)"

definition hooks_with :: "nat \<Rightarrow> ('p, unit) act \<Rightarrow> 'p hooks" where
  "hooks_with n rs = \<lparr>resume = rs, decide = core_decide rs, fill = fill_hook n rs\<rparr>"

definition core_resume :: "nat \<Rightarrow> ('p, unit) act" where
  "core_resume n = resume_capacity_waiters (hooks_with n (retS ()))"

definition core_hooks :: "nat \<Rightarrow> 'p hooks" where
  "core_hooks n = hooks_with n (core_resume n)"

definition unsettled_keys :: "'p core \<Rightarrow> nat" where
  "unsettled_keys s =
     sum_list (map (\<lambda>i. length (unresolved (op_keys (op_of s i)) (op_results (op_of s i)))) (pending_residency_ops (ld s)))"

definition with_hooks :: "nat \<Rightarrow> ('p hooks \<Rightarrow> ('p, 'a) act) \<Rightarrow> ('p, 'a) act" where
  "with_hooks extra f = readS (\<lambda>s. f (core_hooks (Suc (unsettled_keys s + extra))))"

subsection \<open>Queries\<close>

definition has_complete_local :: "'p core \<Rightarrow> key \<Rightarrow> bool" where
  "has_complete_local s k =
     (case residency_of s k of
        None \<Rightarrow> False
      | Some a \<Rightarrow>
          let r = res_store s a in
          rstate r = READY \<and> pending r = {} \<and> length (slots r) = length (key_layout r))"

definition is_local_resident :: "'p core \<Rightarrow> key \<Rightarrow> bool" where
  "is_local_resident s k =
     (case residency_of s k of None \<Rightarrow> False | Some a \<Rightarrow> rstate (res_store s a) \<noteq> DISCARDING)"

definition remote_keys_of :: "'p core \<Rightarrow> string option \<Rightarrow> key list" where
  "remote_keys_of s rid = (case map_of (remote_delivery_keys s) rid of None \<Rightarrow> [] | Some l \<Rightarrow> l)"

definition local_state :: "'p core \<Rightarrow> key \<Rightarrow> LocalDramState option" where
  "local_state s k = map_option (\<lambda>a. rstate (res_store s a)) (residency_of s k)"

definition fetching_locally :: "'p core \<Rightarrow> key \<Rightarrow> string option \<Rightarrow> bool" where
  "fetching_locally s k rid =
     (local_state s k = Some FILLING \<and>
      list_ex (\<lambda>i. fst i = ''fetch'' \<and> i \<in> set (pending_residency_ops (ld s)) \<and> request_id (op_of s i) = rid \<and>
        map_of (op_results (op_of s i)) k = None) (active_op_ids s k))"

definition query_key :: "string option \<Rightarrow> key \<Rightarrow> 'p core \<Rightarrow> (QueryStatus \<times> CacheTier option) \<times> 'p core" where
  "query_key rid k s =
     (let selected = (k \<in> set (remote_keys_of s rid) \<and> \<not> fetching_locally s k rid) in
      if selected \<and> remote_query s k rid then ((FETCHABLE, Some REMOTE_G2), s)
      else if selected \<and> \<not> has_complete_local s k then ((MISS, None), s)
      else if local_state s k = Some READY then ((HIT, Some LOCAL_G2), s)
      else if local_state s k = Some FILLING then ((FETCHING, Some LOCAL_G2), s)
      else if g3_of s k \<noteq> None then ((FETCHABLE, Some G3), s)
      else if rid \<noteq> None \<and> remote_query s k rid
      then ((FETCHABLE, Some REMOTE_G2), add_remote_delivery_keys rid [k] s)
      else ((MISS, None), s))"

definition core_query ::
  "key list \<Rightarrow> string option \<Rightarrow> 'p core \<Rightarrow> (QueryStatus \<times> CacheTier option) list \<times> 'p core" where
  "core_query ks rid s =
     fold (\<lambda>k (statuses, s). case query_key rid k s of (st, s') \<Rightarrow> (statuses @ [st], s')) ks ([], s)"

definition core_discard_hint :: "string \<Rightarrow> 'p core \<Rightarrow> 'p core" where
  "core_discard_hint r s =
     remote_discard_hint r (s\<lparr>remote_delivery_keys := AList.delete (Some r) (remote_delivery_keys s)\<rparr>)"

subsection \<open>Aligning a sequence\<close>

definition aligned_records :: "'p core \<Rightarrow> key list \<Rightarrow> (key, int) dict" where
  "aligned_records s ks =
     fold (\<lambda>(p, k) d.
       if map_of d k = None \<and> map_of (block_record_map s) k \<noteq> None \<and>
          (g3_of s k \<noteq> None \<or> local_state s k = Some READY)
       then AList.update k (int p) d else d) (zip [0..<length ks] ks) []"

definition latest_access :: "'p core \<Rightarrow> key list \<Rightarrow> time option" where
  "latest_access s ks =
     fold (\<lambda>k t. case map_of (block_record_map s) k of
        None \<Rightarrow> t
      | Some rec \<Rightarrow> (case (rec_last_access rec, t) of
            (None, _) \<Rightarrow> t | (Some x, None) \<Rightarrow> Some x | (Some x, Some y) \<Rightarrow> Some (max x y))) ks None"

definition align_record :: "time option \<Rightarrow> key \<times> int \<Rightarrow> BlockMeta list \<times> 'p core \<Rightarrow> BlockMeta list \<times> 'p core" where
  "align_record timestamp = (\<lambda>(k, p) (blocks, s).
     let s1 = upd_record k (\<lambda>rec. rec\<lparr>rec_last_access := timestamp\<rparr>) s;
         moved = (case map_of (block_record_map s1) k of None \<Rightarrow> False | Some rec \<Rightarrow> rec_position rec \<noteq> p);
         s2 = upd_record k (\<lambda>rec. rec\<lparr>rec_position := p\<rparr>) s1;
         durable = (g3_of s2 k \<noteq> None \<or>
           (case residency_of s2 k of None \<Rightarrow> False | Some a \<Rightarrow> pending (res_store s2 a) = {}));
         s3 = (if moved \<and> durable then observe k s2 else s2);
         sz = (case residency_of s3 k of
                 Some a \<Rightarrow> residency_size (cfg s3) (res_store s3 a)
               | None \<Rightarrow> (case (g3_cfg (cfg s3), g3_of s3 k) of (Some c, Some r) \<Rightarrow> g3_size c r | _ \<Rightarrow> 0))
     in (blocks @ [meta_of k sz s3], s3))"

definition align_sequence :: "key list \<Rightarrow> bool \<Rightarrow> ('p, unit) act" where
  "align_sequence sequence use_current_time = readS (\<lambda>s.
     let records = aligned_records s sequence; ks = map fst records;
         timestamp = (if use_current_time then Some (now s) else latest_access s ks)
     in if records = [] then retS ()
        else
          thenS (modS (\<lambda>s. case fold (align_record timestamp) records ([], s) of (blocks, s') \<Rightarrow>
              s'\<lparr>pol := on_align_sequence (the_policy (cfg s')) blocks use_current_time (pol s')\<rparr>))
            (thenS (forS ks (\<lambda>k.
                thenS (whenS (has_local_dram (cfg s)) (make_evictable k))
                  (modS (case g3_cfg (cfg s) of None \<Rightarrow> id | Some c \<Rightarrow> g3_make_evictable c k))))
              (whenS (has_local_dram (cfg s)) (modS update_capacity_pressure))))"

subsection \<open>Moving blocks\<close>

text \<open>\<open>{key: self._normalize_descriptors(descriptors) ...}\<close>.\<close>

fun normalize_blocks :: "'p config \<Rightarrow> (key, MemoryRef list) dict \<Rightarrow> (key, TransferRef list) dict res" where
  "normalize_blocks c [] = Inr []"
| "normalize_blocks c ((k, ds) # rest) =
     bindR (normalize_descriptors (layouts c) (memory_regs c) (agent_name c) ds) (\<lambda>trs.
       bindR (normalize_blocks c rest) (\<lambda>ys. Inr ((k, trs) # ys)))"

definition next_handle :: "('p, int) act" where
  "next_handle = readS (\<lambda>s.
     thenS (modS (\<lambda>s. s\<lparr>next_op_handle := next_op_handle s + 1\<rparr>)) (retS (next_op_handle s)))"

datatype route = RouteLocal | RouteG3 | RouteRemote

definition deliver_route :: "'p core \<Rightarrow> string option \<Rightarrow> key \<Rightarrow> route" where
  "deliver_route s rid k =
     (if k \<in> set (remote_keys_of s rid) \<and> (\<not> has_complete_local s k \<or> remote_query s k rid) then RouteRemote
      else if is_local_resident s k then RouteLocal
      else if g3_cfg (cfg s) \<noteq> None \<and> g3_is_ready s k None then RouteG3
      else RouteRemote)"

definition core_deliver :: "(key, MemoryRef list) dict \<Rightarrow> string option \<Rightarrow> ('p, int) act" where
  "core_deliver blocks rid =
     bindS next_handle (\<lambda>h. readS (\<lambda>s.
       let deadline = now s + operation_timeout (cfg s) in
       bindS (liftR (normalize_blocks (cfg s) blocks)) (\<lambda>normalized. readS (\<lambda>s.
         let to = (\<lambda>r. filter (\<lambda>(k, _). deliver_route s rid k = r) normalized);
             local_blocks = to RouteLocal; g3_blocks = to RouteG3; remote_blocks = to RouteRemote;
             parts = filter (\<lambda>b. b \<noteq> []) [local_blocks, g3_blocks, remote_blocks]
         in thenS (whenS (length parts > 1) (modS (\<lambda>s.
                s\<lparr>joined_completions := AList.update h (fst ` set blocks, []) (joined_completions s)\<rparr>)))
           (thenS (whenS (has_local_dram (cfg s) \<and> local_blocks \<noteq> [])
               (with_hooks 0 (\<lambda>H. dram_deliver H h local_blocks deadline)))
           (thenS (whenS (g3_blocks \<noteq> [])
               (bindS (case g3_cfg (cfg s) of None \<Rightarrow> retS False | Some c \<Rightarrow> start_read c Deliver h g3_blocks deadline)
                 (\<lambda>started. if started then retS ()
                   else modS (core_complete h (map (\<lambda>(k, _). (k, FAILED_RESULT)) g3_blocks)))))
           (thenS (if remote_blocks \<noteq> [] then remote_deliver h remote_blocks rid deadline
                   else if blocks = [] then modS (core_complete h []) else retS ())
             (retS h))))))))"

text \<open>A deposit of a block that is on disk must have the layout of that block.\<close>

definition deposit_matches_g3 ::
  "'p core \<Rightarrow> string list option \<Rightarrow> key \<times> TransferRef list \<Rightarrow> bool" where
  "deposit_matches_g3 s declaration = (\<lambda>(k, trs).
     g3_is_ready s k None \<longrightarrow>
     g3_is_ready s k (Some (case declaration of
        Some l \<Rightarrow> l
      | None \<Rightarrow> (case residency_of s k of Some a \<Rightarrow> key_layout (res_store s a) | None \<Rightarrow> map label trs))))"

definition core_deposit ::
  "(key, MemoryRef list) dict \<Rightarrow> bool \<Rightarrow> string option \<Rightarrow> string list option \<Rightarrow> ('p, int) act" where
  "core_deposit blocks no_evict hints expected_layout = readS (\<lambda>s.
     bindS (liftR (validate_expected_layout (layouts (cfg s)) expected_layout)) (\<lambda>declaration.
     bindS next_handle (\<lambda>h.
       if \<not> has_local_dram (cfg s)
       then thenS (modS (core_complete h (map (\<lambda>(k, _). (k, FAILED_RESULT)) blocks))) (retS h)
       else
         bindS (liftR (normalize_blocks (cfg s) blocks)) (\<lambda>normalized.
           if (case declaration of
                 None \<Rightarrow> False
               | Some l \<Rightarrow> list_ex (\<lambda>(_, trs).
                   layout_indices l (map label trs) (Some (prepare_label_index l)) = None) normalized)
           then raiseS (ValueError ''deposit pieces must belong to the local key layout'')
           else
             thenS (with_hooks 0 (\<lambda>H. drain_source_completions (resume H)))
             (thenS (readS (\<lambda>s.
                 if g3_cfg (cfg s) \<noteq> None \<and> \<not> list_all (deposit_matches_g3 s declaration) normalized
                 then raiseS (ValueError ''deposit layout must match existing G3 key layout'') else retS ()))
             (thenS (with_hooks (length normalized) (\<lambda>H. dram_deposit H h normalized no_evict hints declaration))
               (retS h)))))))"

definition fetch_source :: "string option \<Rightarrow> string list \<Rightarrow> key \<Rightarrow> (key, CacheTier) dict \<Rightarrow> ('p, (key, CacheTier) dict) act" where
  "fetch_source rid requested k sources = readS (\<lambda>s.
     if (case residency_of s k of None \<Rightarrow> False | Some a \<Rightarrow> ready_indices (res_store s a) requested \<noteq> None)
     then retS sources
     else if g3_cfg (cfg s) \<noteq> None \<and> g3_is_ready s k None then
       (if \<not> g3_is_ready s k (Some requested)
        then raiseS (ValueError ''fetch layout must match existing G3 key layout'')
        else retS (AList.update k G3 sources))
     else if rid \<noteq> None \<and> remote_query s k rid then retS (AList.update k REMOTE_G2 sources)
     else retS sources)"

definition core_fetch ::
  "key list \<Rightarrow> string option \<Rightarrow> string list option \<Rightarrow> string option \<Rightarrow> ('p, int) act" where
  "core_fetch keys rid expected_layout hints = readS (\<lambda>s.
     let requested = (case expected_layout of None \<Rightarrow> [[]] | Some l \<Rightarrow> l); ks = fromkeys keys in
     bindS (liftR (validate_expected_layout (layouts (cfg s)) (Some requested))) (\<lambda>declaration.
     bindS next_handle (\<lambda>h.
       if \<not> has_local_dram (cfg s)
       then thenS (modS (core_complete h (map (\<lambda>k. (k, FAILED_RESULT)) ks))) (retS h)
       else
         thenS (with_hooks 0 (\<lambda>H. drain_source_completions (resume H)))
         (bindS (foldS (fetch_source rid requested) ks []) (\<lambda>sources.
         with_hooks (length ks) (\<lambda>H.
           let deadline = now s + operation_timeout (cfg s) in
           bindS (dram_fetch H h ks sources rid deadline hints requested declaration) (\<lambda>destinations.
             thenS (forS [G3, REMOTE_G2] (\<lambda>source.
                 fill H source (filter (\<lambda>(k, _). map_of sources k = Some source) destinations) rid deadline))
               (retS h))))))))"

definition core_release :: "int list \<Rightarrow> ('p, (int \<times> bool) list) act" where
  "core_release handles = readS (\<lambda>s.
     if \<not> has_local_dram (cfg s) then retS (map (\<lambda>h. (h, False)) handles)
     else with_hooks 0 (\<lambda>H. pools_release (resume H) handles))"

subsection \<open>Completions\<close>

text \<open>
  \<open>_notify_transfer_errors\<close>: errors among the items go to the framework's callback, one at a time and
  each taken off the queue before it is delivered; the other items are kept for the backends. \<open>cb\<close> is
  the callback: what it raises ends the call.
\<close>

fun deliver_errors :: "('e \<Rightarrow> exn option) \<Rightarrow> 'e list \<Rightarrow> unit res \<times> 'e list \<times> 'e list" where
  "deliver_errors cb [] = (Inr (), [], [])"
| "deliver_errors cb (e # es) =
     (case cb e of
        Some x \<Rightarrow> (Inl x, [e], es)
      | None \<Rightarrow> (case deliver_errors cb es of (r, delivered, left) \<Rightarrow> (r, e # delivered, left)))"

definition notify_transfer_errors ::
  "('e \<Rightarrow> exn option) \<Rightarrow> ('e + 'i) list \<Rightarrow> 'e list \<times> 'i list \<Rightarrow> (unit res \<times> 'e list) \<times> 'e list \<times> 'i list" where
  "notify_transfer_errors cb items = (\<lambda>(errors, kept).
     let errors' = errors @ concat (map (case_sum (\<lambda>e. [e]) (\<lambda>_. [])) items);
         kept' = kept @ concat (map (case_sum (\<lambda>_. []) (\<lambda>i. [i])) items)
     in case deliver_errors cb errors' of (r, delivered, left) \<Rightarrow> ((r, delivered), left, kept'))"

text \<open>The items the progress thread returns, as \<open>poll_main\<close> of each backend sees them.\<close>

type_synonym main_item = "g3_op + copy_op + pull_op"

definition poll_backends :: "main_item list \<Rightarrow> ('p, unit) act" where
  "poll_backends items = readS (\<lambda>s.
     if closed s then retS ()
     else
       with_hooks 0 (\<lambda>H.
       bindS (case g3_cfg (cfg s) of
                Some c \<Rightarrow> g3_poll_main c H items
              | None \<Rightarrow> retS (concat (map (case_sum (\<lambda>_. []) (\<lambda>x. [x])) items)))
         (\<lambda>rest. bindS (if has_local_dram (cfg s) then dram_poll_main H rest
                         else retS (concat (map (case_sum (\<lambda>_. []) (\<lambda>x. [x])) rest)))
           (\<lambda>pulls. forS pulls (remote_poll_pull H)))))"

text \<open>
  \<open>notified\<close> is what delivering the errors among the items came to (\<open>notify_transfer_errors\<close>); a callback
  that raises ends the call with the items kept for the next one.
\<close>

definition poll_completed :: "unit res \<Rightarrow> main_item list \<Rightarrow> ('p, (int \<times> (key, OpEntryResult) dict) list) act" where
  "poll_completed notified items = readS (\<lambda>s.
     case progress_failure s of
       Some e \<Rightarrow> raiseS e
     | None \<Rightarrow>
         thenS (liftR notified) (thenS (poll_backends items) (readS (\<lambda>s.
           thenS (modS (out_update (\<lambda>ou. ou\<lparr>completion_queue := []\<rparr>))) (retS (completion_queue (out s)))))))"

subsection \<open>Recovery and close\<close>

definition adopt_recovery_records :: "(key, nat block_record) dict \<Rightarrow> ('p, unit) act" where
  "adopt_recovery_records records = readS (\<lambda>s.
     if records = [] then retS ()
     else if \<not> has_local_dram (cfg s) then raiseS (RecoveryMirrorError ''recovered records need a local DRAM tier'')
     else if g3_cfg (cfg s) = None \<and> list_ex (\<lambda>(_, rec). g3 rec \<noteq> None) records
     then raiseS (RecoveryMirrorError ''recovered G3 residency has no configured G3'')
     else if block_record_map s \<noteq> [] then raiseS (RecoveryMirrorError ''recovered records need a core that holds none'')
     else
       thenS (modS (\<lambda>s. s\<lparr>block_record_map := records\<rparr>))
       (thenS (adopt_recovery_slots records)
       (thenS (case g3_cfg (cfg s) of None \<Rightarrow> retS () | Some c \<Rightarrow> adopt_g3_slots c records)
       (thenS (forS records (\<lambda>(k, rec). readS (\<lambda>s.
           let admit = (\<lambda>sz source. modS (\<lambda>s. s\<lparr>pol := on_ingest (the_policy (cfg s)) (block_meta k rec sz) source (pol s)\<rparr>)) in
           case (local_dram rec, g3_cfg (cfg s), g3 rec) of
             (Some a, _, _) \<Rightarrow> admit (residency_size (cfg s) (res_store s a)) LOCAL_G2
           | (None, Some c, Some r) \<Rightarrow> admit (g3_size c r) G3
           | _ \<Rightarrow> raiseS (TypeError ''residency''))))
       (thenS (rank_recovered records)
         (modS (case g3_cfg (cfg s) of None \<Rightarrow> id | Some c \<Rightarrow> g3_rank_recovered c records)))))))"

text \<open>\<open>_close_main_resources\<close>: every stage runs, and the first failure is the one raised.\<close>

definition run_stage :: "('s, unit) sx \<Rightarrow> exn option \<Rightarrow> ('s, exn option) sx" where
  "run_stage m first_error = (\<lambda>s.
     case m s of (Inr _, s') \<Rightarrow> (Inr first_error, s')
     | (Inl e, s') \<Rightarrow> (Inr (case first_error of None \<Rightarrow> Some e | Some e0 \<Rightarrow> Some e0), s'))"

definition close_main_resources :: "('p, unit) act \<Rightarrow> ('p, unit) act" where
  "close_main_resources close_hints = readS (\<lambda>s.
     let rs = core_resume (Suc (unsettled_keys s)) in
     thenS (modS (\<lambda>s. s\<lparr>remote_delivery_keys := []\<rparr>))
     (bindS (run_stage close_hints None) (\<lambda>e1.
     (bindS (case g3_cfg (cfg s) of None \<Rightarrow> retS e1 | Some c \<Rightarrow> run_stage (g3_close_main c rs) e1) (\<lambda>e2.
     (bindS (if has_local_dram (cfg s) then run_stage (pools_close rs) e2 else retS e2) (\<lambda>e3.
     (bindS (run_stage (modS remote_close_main) e3) (\<lambda>e4.
     (bindS (readS (\<lambda>s. foldS (\<lambda>i. run_stage (release_local_dram_sources rs i None)) (map fst (sources_by_op s)) e4))
       (\<lambda>e5. case e5 of None \<Rightarrow> retS () | Some e \<Rightarrow> raiseS e)))))))))))"

definition core_close :: "unit res \<Rightarrow> bool \<Rightarrow> exn option \<Rightarrow> ('p, unit) act \<Rightarrow> ('p, unit) act" where
  "core_close notified quiescent progress_error close_hints = readS (\<lambda>s.
     if closed s then retS ()
     else thenS (liftR notified) (
     if \<not> quiescent then
       raiseS (case progress_error of Some e \<Rightarrow> e
         | None \<Rightarrow> RuntimeError ''KVCR progress loop is not quiescent after close'')
     else
       thenS (modS (\<lambda>s. s\<lparr>closed := True\<rparr>))
         (thenS (close_main_resources close_hints)
           (case progress_error of None \<Rightarrow> retS () | Some e \<Rightarrow> raiseS e))))"

end
