(* ===== verification/KVCR_Init.thy ===== *)
theory KVCR_Init
  imports KVCR_Core
begin

text \<open>
  Construction of a core (\<open>_KVCRCore.__init__\<close>, \<open>runtime/core.py\<close>) from its configuration, and the calls
  that the framework and the progress thread make on it, one at a time.
\<close>

subsection \<open>Configuration\<close>

text \<open>
  The fields of \<open>KVCRConfig\<close> (\<open>config.py\<close>), of the backend options and of the bindings that the core's
  state depends on. The policy is the one that is bound or the default for the configured tiers. Opening
  the files of G3 is outside the model, so its part is what \<open>g3_init\<close> returned.
\<close>

record KVCRConfig =
  nixl_agent_name :: string
  cfg_pool_layouts :: pool_layouts
  operation_timeout_ms :: int
  abandon_timeout_ms :: int
  capacity_low_watermark_percent :: rat
  startup_timeout_seconds :: "int option"

record 'p bindings =
  framework_control :: bool
  inventory_sink :: bool
  capacity_needed_callback :: bool
  bound_policy :: "'p policy"
  key_adapter :: "(key \<Rightarrow> int) option"

record backend_configs =
  framework_regions :: "RegionDescriptor list"
  local_dram_options :: "((string \<times> int \<times> int) list \<times> string) option"
  g3_options :: "(g3_config \<times> g3_state) option"
  eager_connect :: bool
  opportunistic :: bool

definition region_dict :: "RegionDescriptor list \<Rightarrow> regions" where
  "region_dict regs = fold (\<lambda>r d. AList.update (region_label r) r d) regs []"

text \<open>The checks on the plain settings, in the order of the code.\<close>

definition validate_settings :: "KVCRConfig \<Rightarrow> RegionDescriptor list \<Rightarrow> unit res" where
  "validate_settings c regs =
     bindR (validate_pool_layouts (cfg_pool_layouts c)) (\<lambda>_.
     bindR (validate_memory_regions regs) (\<lambda>_.
       if length (region_dict regs) \<noteq> length regs then Inl (ValueError ''framework registration names must be unique'')
       else if list_ex (\<lambda>r. Some (elem_size r) \<noteq> map_of (cfg_pool_layouts c) (label_pool (region_label r))) regs
       then Inl (ValueError ''registration elements must match configured pool sizes'')
       else if operation_timeout_ms c \<le> 0 then Inl (ValueError ''operation_timeout_ms must be positive'')
       else if (case startup_timeout_seconds c of None \<Rightarrow> False | Some t \<Rightarrow> t \<le> 0)
       then Inl (ValueError ''startup_timeout_seconds must be a positive integer or None'')
       else if abandon_timeout_ms c < 2 * operation_timeout_ms c
       then Inl (ValueError ''abandon_timeout_ms must be at least twice operation_timeout_ms'')
       else if \<not> (0 \<le> capacity_low_watermark_percent c \<and> capacity_low_watermark_percent c \<le> 100)
       then Inl (ValueError ''capacity_low_watermark_percent must be between 0 and 100'')
       else Inr ()))"

definition validate_tiers :: "CacheTier set \<Rightarrow> bool \<Rightarrow> bool \<Rightarrow> unit res" where
  "validate_tiers required local disk =
     (if \<not> required \<subseteq> (if local then {LOCAL_G2} else {}) \<union> (if disk then {G3} else {})
      then Inl (ValueError ''policy requires configured tiers'')
      else if disk \<and> \<not> local then Inl (ValueError ''G3 requires configured local DRAM'')
      else Inr ())"

text \<open>\<open>ceil(length // block_size * percent / 100)\<close>, without the rounding of floating point.\<close>

definition capacity_low_watermarks :: "rat \<Rightarrow> (string, int \<times> int \<times> int) dict \<Rightarrow> (string, int) dict" where
  "capacity_low_watermarks percent rgs =
     map (\<lambda>(name, _, len, sz). (name, \<lceil>of_int (len div sz) * percent / 100\<rceil>)) rgs"

definition empty_pools :: pools where
  "empty_pools =
     \<lparr>free_slots = [], evictable = evq_init, evictable_slots = (\<lambda>_. 0), unscored = [], capacity_eviction_key = None,
      public_claims = [], next_release_handle = 1, src_index = [], src_active = [], src_operations = 0,
      src_completions = [], draining = False\<rparr>"

definition empty_g3 :: g3_state where
  "empty_g3 = \<lparr>g3_free_slots = [], g3_evictable = evq_init, g3_evictable_slots = 0, g3_unscored = [], pending_keys = [],
     g3_active = [], next_g3 = 0\<rparr>"

definition blank_dram :: dram where
  "blank_dram =
     \<lparr>res_ops = (\<lambda>_. \<lparr>op_keys = [], op_deadline = 0, claim_on_ready = False, request_id = None, op_results = [],
        remote_fill_keys = [], op_waiting = [], op_sources = None, op_hints = None, active_keys = [],
        requested_layout = [], op_key_layout = None, fill_sources = [], claimed_keys = []\<rparr>),
      pending_residency_ops = [],
      del_ops = (\<lambda>_. \<lparr>dl_keys = [], dl_deadline = 0, dl_destinations = [], dl_results = [], dl_active = [], dl_claimed = []\<rparr>),
      pending_deliver_ops = [], capacity_waiters = [], resuming = False\<rparr>"

definition local_pools ::
  "((string \<times> int \<times> int) list \<times> string) option \<Rightarrow> pool_layouts \<Rightarrow> ((string, int \<times> int \<times> int) dict \<times> pools) res" where
  "local_pools options sizes =
     (case options of None \<Rightarrow> Inr ([], empty_pools) | Some (region_pools, backend) \<Rightarrow> pools_init region_pools backend sizes)"

definition configure ::
  "KVCRConfig \<Rightarrow> 'p bindings \<Rightarrow> backend_configs \<Rightarrow> (string, int \<times> int \<times> int) dict \<Rightarrow> 'p config" where
  "configure c b bc rgs =
     (let marks = capacity_low_watermarks (capacity_low_watermark_percent c) rgs;
          base = \<lparr>agent_name = nixl_agent_name c, layouts = cfg_pool_layouts c, regions_of = rgs,
            has_framework_control = framework_control b, has_inventory_sink = inventory_sink b,
            has_capacity_callback = capacity_needed_callback b \<and> list_ex (\<lambda>(_, w). w \<noteq> 0) marks,
            low_watermarks = marks, the_policy = bound_policy b,
            allowed_moves = (if g3_options bc = None then {} else {(LOCAL_G2, G3)}),
            operation_timeout = of_int (operation_timeout_ms c) / 1000,
            abandon_grace = of_int (abandon_timeout_ms c - operation_timeout_ms c) / 1000,
            has_local_dram = (local_dram_options bc \<noteq> None),
            memory_regs = (region_dict (framework_regions bc), []),
            g3_cfg = map_option fst (g3_options bc), eager_ctrl_connect = eager_connect bc,
            opportunistic_query = opportunistic bc, encode_to_router = key_adapter b\<rparr>
      in base\<lparr>memory_regs := (region_dict (framework_regions bc), region_dict (memory_regions base))\<rparr>)"

text \<open>\<open>p0\<close> is the policy's state, \<open>t0\<close> the clock and \<open>seed\<close> the reading of \<open>monotonic_ns\<close>.\<close>

definition core_init ::
  "KVCRConfig \<Rightarrow> 'p bindings \<Rightarrow> backend_configs \<Rightarrow> 'p \<Rightarrow> time \<Rightarrow> int \<Rightarrow> 'p core res" where
  "core_init c b bc p0 t0 seed =
     bindR (validate_settings c (framework_regions bc)) (\<lambda>_.
     bindR (validate_tiers (pol_required_tiers (bound_policy b)) (local_dram_options bc \<noteq> None) (g3_options bc \<noteq> None)) (\<lambda>_.
     bindR (local_pools (local_dram_options bc) (cfg_pool_layouts c)) (\<lambda>(rgs, pools).
       let cf = configure c b bc rgs in
       bindR (validate_memory_regions (map snd (fst (memory_regs cf)) @ map snd (snd (memory_regs cf)))) (\<lambda>_.
         if local_dram_options bc = None \<and> \<not> framework_control b
         then Inl (ValueError ''at least one DRAM backend must be configured'')
         else Inr
           \<lparr>cfg = cf, now = t0, pol = p0, block_record_map = [],
            res_store = (\<lambda>_. make_residency [] FILLING None None), next_res = 0, closed = False,
            outstanding_operations = 0, joined_completions = [], next_op_handle = seed, next_fill_handle = - seed,
            pressure_pools = [], sources_by_op = [], remote_delivery_keys = [], progress_failure = None,
            pl = pools, ld = blank_dram,
            gd = (case g3_options bc of None \<Rightarrow> empty_g3 | Some (_, g) \<Rightarrow> g),
            request_hints = [],
            out = \<lparr>completion_queue = [], capacity_requests = [], inventory = [], observed = [], submissions = []\<rparr>\<rparr>))))"

subsection \<open>Starting from recovered records\<close>

text \<open>
  \<open>install_recovery_records\<close> hands a table of records to a core that holds none. Their residencies are
  objects of the caller; interning gives each an address in the store of the core, and numbering gives
  each residency on disk an identity that the core has not used.
\<close>

fun number_g3 :: "nat \<Rightarrow> (key \<times> 'r block_record) list \<Rightarrow> (key \<times> 'r block_record) list" where
  "number_g3 i [] = []"
| "number_g3 i ((k, rec) # rest) =
     (k, rec\<lparr>g3 := map_option (\<lambda>r. r\<lparr>g3_id := i\<rparr>) (g3 rec)\<rparr>) # number_g3 (Suc i) rest"

definition with_residency :: "'q option \<Rightarrow> 'r block_record \<Rightarrow> 'q block_record" where
  "with_residency l rec =
     \<lparr>fw_mem = fw_mem rec, local_dram = l, g3 = g3 rec, in_flight_ops = in_flight_ops rec,
      rec_access_count = rec_access_count rec, rec_last_access = rec_last_access rec, rec_position = rec_position rec\<rparr>"

fun intern_records :: "(key \<times> residency block_record) list \<Rightarrow> 'p core \<Rightarrow> (key \<times> nat block_record) list \<times> 'p core" where
  "intern_records [] s = ([], s)"
| "intern_records ((k, rec) # rest) s =
     (case local_dram rec of
        None \<Rightarrow> (case intern_records rest s of (rs, s') \<Rightarrow> ((k, with_residency None rec) # rs, s'))
      | Some r \<Rightarrow>
          let a = next_res s in
          case intern_records rest (upd_res a (\<lambda>_. r) (s\<lparr>next_res := Suc a\<rparr>)) of
            (rs, s') \<Rightarrow> ((k, with_residency (Some a) rec) # rs, s'))"

definition install_recovery_records :: "(key \<times> residency block_record) list \<Rightarrow> ('p, unit) act" where
  "install_recovery_records records = (\<lambda>s.
     case intern_records (number_g3 (next_g3 (gd s)) records)
       (gd_update (\<lambda>g. g\<lparr>next_g3 := next_g3 g + length records\<rparr>) s) of
       (rs, s') \<Rightarrow> adopt_recovery_records rs s')"

text \<open>A record as the mirror holds it: its residency has no claim, no reader and no retirement pending.\<close>

definition clean_record :: "residency block_record \<Rightarrow> bool" where
  "clean_record rec =
     (case local_dram rec of None \<Rightarrow> True
      | Some r \<Rightarrow> claim_count r = 0 \<and> source_readers r = 0 \<and> \<not> retire_on_release r)"

inductive starts :: "backend_configs \<Rightarrow> 'p core \<Rightarrow> bool" for bc where
  built: "core_init c b bc p0 t0 seed = Inr s \<Longrightarrow> starts bc s"
| recovered: "starts bc s \<Longrightarrow> dict_wf records \<Longrightarrow> list_all (clean_record \<circ> snd) records \<Longrightarrow>
    install_recovery_records records s = (Inr (), s') \<Longrightarrow> starts bc s'"

subsection \<open>Calls\<close>

text \<open>
  The calls of the framework's thread, and the three that reach the shared state from elsewhere: the
  progress thread takes and returns readers, its loop may fail, and time passes. The core's lock makes
  each of them atomic.
\<close>

datatype call =
    Deposit "(key, MemoryRef list) dict" bool "string option" "string list option"
  | Fetch "key list" "string option" "string list option" "string option"
  | DeliverTo "(key, MemoryRef list) dict" "string option"
  | Release "int list"
  | AlignSequence "key list" bool
  | Query "key list" "string option"
  | SubmitHint "string option" "int set" "string option"
  | DiscardHint string
  | PollCompleted "unit res" "main_item list"
  | ClaimSources op_id "key list"
  | ReleaseSources op_id "key list option"
  | AcquireReaders bool "key list" "TransferRef list list" "string list" bool
  | ReleaseReaders "key list" "nat list" bool
  | ProgressFails exn
  | Advance time
  | CloseCore "unit res" bool "exn option" "exn option"

text \<open>The result of a call is dropped: what it raised and what it returned leave the state as it is.\<close>

definition discardS :: "('s, 'a) sx \<Rightarrow> 's \<Rightarrow> 's" where
  "discardS m s = snd (m s)"

fun run_call :: "call \<Rightarrow> 'p core \<Rightarrow> 'p core" where
  "run_call (Deposit blocks no_evict hints layout) = discardS (core_deposit blocks no_evict hints layout)"
| "run_call (Fetch ks rid layout hints) = discardS (core_fetch ks rid layout hints)"
| "run_call (DeliverTo blocks rid) = discardS (core_deliver blocks rid)"
| "run_call (Release handles) = discardS (core_release handles)"
| "run_call (AlignSequence ks current) = discardS (align_sequence ks current)"
| "run_call (Query ks rid) = (\<lambda>s. snd (core_query ks rid s))"
| "run_call (SubmitHint src hashes rid) = discardS (remote_submit_hint src hashes rid)"
| "run_call (DiscardHint rid) = core_discard_hint rid"
| "run_call (PollCompleted notified items) = discardS (poll_completed notified items)"
| "run_call (ClaimSources i ks) = discardS (claim_local_dram_sources i ks True)"
| "run_call (ReleaseSources i ks) = discardS (with_hooks 0 (\<lambda>H. release_local_dram_sources (resume H) i ks))"
| "run_call (AcquireReaders contended ks dsts layout allow) = (\<lambda>s. snd (acquire_readers contended ks dsts layout allow s))"
| "run_call (ReleaseReaders ks sources succ) = release_readers ks sources succ"
| "run_call (ProgressFails e) = (\<lambda>s. s\<lparr>progress_failure := Some e\<rparr>)"
| "run_call (Advance dt) = (\<lambda>s. s\<lparr>now := now s + dt\<rparr>)"
| "run_call (CloseCore notified quiescent failure hint_failure) =
     discardS (core_close notified quiescent failure (case hint_failure of None \<Rightarrow> retS () | Some e \<Rightarrow> raiseS e))"

inductive reaches :: "'p core \<Rightarrow> 'p core \<Rightarrow> bool" where
  start: "reaches s s"
| step: "reaches s t \<Longrightarrow> reaches s (run_call c t)"

end
