(* ===== verification/KVCR_CoreInv.thy ===== *)
theory KVCR_CoreInv
  imports KVCR_DramInv KVCR_Init
begin

text \<open>
  The hooks of a core without G3 meet the contract that the requests rely on, so every call of the
  framework and of the progress thread keeps the invariant of the pools, from construction on.
\<close>

subsection \<open>The hooks of the core\<close>

definition no_g3 :: "'p config \<Rightarrow> bool" where
  "no_g3 c \<longleftrightarrow> g3_cfg c = None"

lemma core_decide_quiet: "quiet no_g3 (core_decide rs)"
  unfolding quiet_def
proof (intro allI impI)
  fix meta tier t and s :: "'a core" assume no: "no_g3 (cfg s)"
  obtain d q where "decide_eviction (the_policy (cfg s)) (allowed_moves (cfg s)) meta tier (pol s) = (d, q)" by fastforce
  then have "core_decide rs meta tier t s = (Inr (d, False), s\<lparr>pol := q\<rparr>)"
    using no by (simp add: core_decide_def readS_def thenS_def bindS_def modS_def retS_def no_g3_def)
  then show "\<exists>d q. core_decide rs meta tier t s = (Inr (d, False), s\<lparr>pol := q\<rparr>)" by blast
qed

lemma keeps_submit [keeps_rules]: "keeps (pool_ok C hand sk) (progress_submit x)"
  by (rule keeps_progress_submit [where I = "pool_inv C hand sk", folded pool_ok_def])

lemma view_add_remote [simp]: "view (add_remote_delivery_keys rid ks s) = view s"
  by (simp add: add_remote_delivery_keys_def frame)

lemma pool_ok_add_remote [simp]: "pool_ok C hand sk (add_remote_delivery_keys rid ks s) = pool_ok C hand sk s"
  by (simp add: pool_ok_def)

lemma keeps_start_target_pull: "keeps (pool_ok C hand sk) (start_target_pull blocks rid t h b)"
  unfolding start_target_pull_def
  by (auto simp: Let_def intro!: keeps_read_any keeps_ret keeps_bind keeps_raise keeps_then keeps_mod keeps_submit keeps_when
      split: option.splits)

lemma request_hooks_fill:
  assumes "request_hooks H no_g3"
  shows "keeps (pools_ok no_g3) (start_local_fill (complete_local_dram_fill H) src blocks rid t)"
proof -
  have fail: "keeps (pools_ok no_g3) (complete_local_dram_fill H ks b)" for ks b
    unfolding complete_local_dram_fill_def
    by (auto intro!: keeps_read_any keeps_raise request_hooks.keeps_complete_fill [OF assms])
  have start: "keeps (pools_ok no_g3)
      (case src of
         G3 \<Rightarrow> (case g3_cfg (cfg s) of None \<Rightarrow> retS False | Some c \<Rightarrow> start_read c Fill h blocks t)
       | REMOTE_G2 \<Rightarrow> remote_fetch blocks rid t h
       | _ \<Rightarrow> raiseS (ValueError ''unsupported local fill source''))" if "pools_ok no_g3 s" for h and s :: "'a core"
    using pool_okD(5) [OF that]
    by (auto simp: no_g3_def remote_fetch_def intro: keeps_ret keeps_raise keeps_start_target_pull split: CacheTier.splits)
  show ?thesis
    unfolding start_local_fill_def
    by (auto simp: Let_def intro!: keeps_ret keeps_read_any keeps_then keeps_mod keeps_bind start fail)
qed

lemma fill_hook_hooks:
  assumes "keeps (pools_ok no_g3) rs"
  shows "request_hooks (hooks_with n rs) no_g3"
proof (induction n)
  case 0
  show ?case by unfold_locales (simp_all add: hooks_with_def assms core_decide_quiet keeps_raise)
next
  case (Suc n)
  have "keeps (pools_ok no_g3) (fill_hook (Suc n) rs tier blocks rid t)" for tier blocks rid t
    using request_hooks_fill [OF Suc] by (simp add: hooks_with_def)
  then show ?case by unfold_locales (simp_all add: hooks_with_def assms core_decide_quiet del: fill_hook.simps)
qed

text \<open>The two levels of the core's hooks: inside a resume the hook does nothing.\<close>

interpretation inner: request_hooks "hooks_with n (retS ())" no_g3
  by (rule fill_hook_hooks) (rule keeps_ret)

lemma core_resume_keeps: "keeps (pools_ok no_g3) (core_resume n)"
  unfolding core_resume_def by (rule inner.keeps_resume_capacity_waiters)

interpretation outer: request_hooks "core_hooks n" no_g3
  unfolding core_hooks_def by (rule fill_hook_hooks) (rule core_resume_keeps)

interpretation waking: resume_hook "core_resume n" no_g3
  by unfold_locales (rule core_resume_keeps)

lemma keeps_with_hooks: "(\<And>n. keeps I (f (core_hooks n))) \<Longrightarrow> keeps I (with_hooks x f)"
  unfolding with_hooks_def by (rule keeps_read_any)

subsection \<open>The calls\<close>

lemma keeps_liftR [keeps_rules]: "keeps I (liftR x)"
  by (cases x) (simp_all add: liftR_def keeps_iff retS_def raiseS_def)

lemma keeps_next_handle [keeps_rules]: "keeps (pool_ok C hand sk) next_handle"
  unfolding next_handle_def by (intro keeps_read_any keeps_then keeps_mod keeps_ret) simp

lemma keeps_fetch_source: "keeps I (fetch_source rid requested k sources)"
  unfolding fetch_source_def by (auto intro!: keeps_read_any keeps_ret keeps_raise)

lemma keeps_core_deposit: "keeps (pools_ok no_g3) (core_deposit blocks no_evict hints layout)"
  unfolding core_deposit_def
  by (auto intro!: keeps_read_any keeps_bind keeps_liftR keeps_next_handle keeps_then keeps_mod keeps_ret keeps_raise
      keeps_with_hooks outer.hook.keeps_drain_source_completions outer.keeps_dram_deposit)

lemma keeps_core_fetch: "keeps (pools_ok no_g3) (core_fetch ks rid layout hints)"
  unfolding core_fetch_def
  by (auto simp: Let_def intro!: keeps_read_any keeps_bind keeps_liftR keeps_next_handle keeps_then keeps_mod keeps_ret keeps_foldS
      keeps_fetch_source keeps_with_hooks outer.hook.keeps_drain_source_completions outer.keeps_dram_fetch keeps_forS outer.fill_law)

lemma keeps_remote_deliver: "keeps (pool_ok C hand sk) (remote_deliver h blocks rid t)"
  unfolding remote_deliver_def by (auto intro!: keeps_mod keeps_bind keeps_start_target_pull keeps_ret)

lemma keeps_core_deliver: "keeps (pools_ok no_g3) (core_deliver blocks rid)"
  unfolding core_deliver_def
proof (intro keeps_bind keeps_next_handle keeps_read_any, unfold Let_def, intro keeps_bind keeps_liftR keeps_read_any, goal_cases)
  case (1 h s0 nb s)
  have "g3_cfg (cfg s) = None" using pool_okD(5) [OF 1(2)] by (simp add: no_g3_def)
  then show ?case
    by (auto intro!: keeps_then keeps_when keeps_mod keeps_with_hooks outer.keeps_dram_deliver keeps_bind keeps_ret keeps_remote_deliver)
qed

lemma keeps_core_release: "keeps (pools_ok no_g3) (core_release hs)"
  unfolding core_release_def by (auto intro!: keeps_read_any keeps_ret keeps_with_hooks outer.hook.keeps_pools_release)

lemma view_align_record: "view (snd (align_record t x a)) = view (snd a)"
proof -
  obtain k p blocks s where x: "x = (k, p)" "a = (blocks, s)" by (cases x; cases a)
  have u: "view (upd_record k (\<lambda>rec. rec\<lparr>rec_last_access := v\<rparr>) s) = view s"
    "view (upd_record k (\<lambda>rec. rec\<lparr>rec_position := q\<rparr>) s) = view s" for v q and s :: "'a core"
    by (simp_all add: view_upd_record)
  show ?thesis by (simp add: align_record_def x Let_def u frame)
qed

lemma view_align_fold: "view (snd (fold (align_record t) xs a)) = view (snd a)"
  by (induction xs arbitrary: a) (simp_all add: view_align_record)

lemma keeps_align_sequence: "keeps (pools_ok no_g3) (align_sequence ks b)"
  unfolding align_sequence_def
proof (rule keeps_read_any, unfold Let_def, intro keeps_if keeps_ret keeps_then keeps_when keeps_forS keeps_make_evictable, goal_cases)
  case (1 s)
  show ?case
  proof (rule keeps_mod)
    fix s' :: "'a core" assume ok: "pools_ok no_g3 s'"
    let ?t = "if b then Some (now s) else latest_access s (map fst (aligned_records s ks))"
    obtain bl u where u: "fold (align_record ?t) (aligned_records s ks) ([], s') = (bl, u)" by fastforce
    have "view u = view s'" using view_align_fold [of ?t "aligned_records s ks" "([], s')"] u by simp
    then show "pools_ok no_g3 (case fold (align_record ?t) (aligned_records s ks) ([], s') of (blocks, s'') \<Rightarrow>
        s''\<lparr>pol := on_align_sequence (the_policy (cfg s'')) blocks b (pol s'')\<rparr>)"
      using ok by (simp add: u pool_ok_def frame)
  qed
next
  case (2 s)
  have "g3_cfg (cfg s) = None" using pool_okD(5) [OF 2(1)] by (simp add: no_g3_def)
  then show ?case by (simp add: keeps_mod)
qed (auto intro!: keeps_mod)

lemma view_core_query: "view (snd (core_query ks rid s)) = view s"
proof -
  have q: "view (snd (query_key rid k s)) = view s" for k and s :: "'a core" by (simp add: query_key_def Let_def)
  have "view (snd (fold (\<lambda>k (statuses, s). case query_key rid k s of (st, s') \<Rightarrow> (statuses @ [st], s')) ks (acc, s))) = view s" for acc
  proof (induction ks arbitrary: acc s)
    case (Cons k ks)
    obtain st s' where "query_key rid k s = (st, s')" by fastforce
    then show ?case using Cons.IH q [of k s] by simp
  qed simp
  then show ?thesis by (simp add: core_query_def)
qed

lemma keeps_submit_hint: "keeps (pool_ok C hand sk) (remote_submit_hint src hashes rid)"
  unfolding remote_submit_hint_def
  by (auto simp: Let_def intro!: keeps_read_any keeps_when keeps_submit keeps_mod keeps_then split: option.splits)

lemma view_note_missing: "view (note_missing op done s) = view s"
  by (auto simp: note_missing_def fail_request_hint_def frame split: option.splits)

lemma keeps_remote_poll_pull:
  assumes H: "request_hooks H no_g3"
  shows "keeps (pools_ok no_g3) (remote_poll_pull H op)"
proof -
  have f: "keeps (pools_ok no_g3) (complete_local_dram_fill H ks b)" for ks b
    unfolding complete_local_dram_fill_def
    by (auto intro!: keeps_read_any keeps_raise request_hooks.keeps_complete_fill [OF H])
  have d: "keeps (pools_ok no_g3) (discard_local_dram_fill H ks)" for ks
    unfolding discard_local_dram_fill_def
    by (auto intro!: keeps_read_any keeps_raise request_hooks.keeps_discard_fill [OF H])
  have m: "keeps (pools_ok no_g3) (modS (\<lambda>s. note_missing op done (if b then s else remove_block_dependencies i ks s)))"
    for "done" b i ks
    by (rule keeps_mod) (simp add: pool_ok_def view_note_missing frame)
  have t: "keeps (pools_ok no_g3) (finish_target_pull H op)"
    unfolding finish_target_pull_def Let_def
    by (intro keeps_then m keeps_if keeps_ret keeps_when f keeps_mod) simp
  show ?thesis
    unfolding remote_poll_pull_def
    by (auto intro!: keeps_raise d t keeps_then keeps_mod keeps_when f split: TargetPullState.splits)
qed

lemma keeps_poll_completed: "keeps (pools_ok no_g3) (poll_completed n items)"
proof -
  have "keeps (pools_ok no_g3) (poll_backends items)"
    unfolding poll_backends_def
  proof (rule keeps_read_any, goal_cases)
    case (1 s)
    have "g3_cfg (cfg s) = None" using pool_okD(5) [OF 1] by (simp add: no_g3_def)
    then show ?case
      by (auto intro!: keeps_ret keeps_with_hooks keeps_bind outer.keeps_dram_poll_main keeps_forS
          keeps_remote_poll_pull [OF outer.request_hooks_axioms])
  qed
  then show ?thesis
    unfolding poll_completed_def
    by (auto intro!: keeps_read_any keeps_raise keeps_lift keeps_then keeps_mod keeps_ret split: option.splits)
qed

lemma keeps_claim_sources: "keeps (pool_ok C hand sk) (claim_local_dram_sources i ks b)"
  unfolding claim_local_dram_sources_def
  by (auto simp: Let_def intro!: keeps_read_any keeps_ret keeps_bind keeps_acquire_sources keeps_then keeps_mod)

context resume_hook
begin

lemma keeps_release_local_sources: "keeps (pools_ok C) (release_local_dram_sources rs i ks)"
  unfolding release_local_dram_sources_def
  by (auto simp: Let_def intro!: keeps_read_any keeps_ret keeps_raise keeps_then keeps_release_sources keeps_mod)

end

subsection \<open>Readers on the progress thread\<close>

lemma pool_ok_more_readers:
  assumes ok: "pool_ok C hand sk s" and att: "residency_of s k = Some a"
  shows "pool_ok C hand sk (upd_res a (\<lambda>r. r\<lparr>source_readers := source_readers r + 1\<rparr>) s)"
proof (rule pool_okI)
  let ?f = "\<lambda>r :: residency. r\<lparr>source_readers := source_readers r + 1\<rparr>"
  let ?st = "(res_store s)(a := ?f (res_store s a))" let ?s = "upd_res a ?f s"
  note D = pool_okD [OF ok]
  have ev: "evictable_now (?st b) = evictable_now (res_store s b)" "readable (?st b) = readable (res_store s b)" for b
    by (simp_all add: evictable_now_def readable_def pending_def)
  show "attached_ok (residency_of ?s) (res_store ?s) (next_res ?s)" "C (cfg ?s)"
    using D(1,5) by (simp_all add: attached_ok_def)
  have w: "weight (residency_of s) ?st pool = weight (residency_of s) (res_store s) pool" for pool
    by (rule ext) (rule weight_cong, simp)
  show "index_ok sk (residency_of ?s) (res_store ?s) (pl ?s)"
    using D(2) ev unfolding index_ok_def upd_res_fields w by metis
  show "sources_ok (has_framework_control (cfg ?s)) (residency_of ?s) (res_store ?s) (pl ?s)"
    using D(3) ev att pool_ok_readers [OF ok, of a] unfolding sources_ok_def upd_res_fields
    by (auto simp del: fun_upd_apply) (auto split: if_splits)
  show "pool_mset (map_of (free_slots (pl ?s))) + held (residency_of ?s) (res_store ?s) + slot_pairs hand = all_slots (cfg ?s)"
    using D(4) held_cong [of "residency_of s" ?st "res_store s"] by simp
qed

lemma scan_readers_published:
  "scan_readers s layout allow xs = Some claims \<Longrightarrow> (i, a, trs) \<in> set claims \<Longrightarrow>
    \<exists>k. map_of (src_index (pl s)) k = Some (Some a)"
proof (induction s layout allow xs arbitrary: claims rule: scan_readers.induct)
  case (2 s layout allow j k dst rest)
  then show ?case by (auto simp: Let_def split: option.splits if_splits)
qed simp

lemma acquire_readers_ok:
  assumes ok: "pool_ok C hand sk s"
  shows "pool_ok C hand sk (snd (acquire_readers contended ks dsts layout allow s))"
proof -
  have claim: "pool_ok C hand sk (fold (claim_reader ks) claims s)"
    if "pool_ok C hand sk s" "\<And>i a trs. (i, a, trs) \<in> set claims \<Longrightarrow> \<exists>k. residency_of s k = Some a" for claims and s :: "'a core"
    using that
  proof (induction claims arbitrary: s)
    case (Cons c claims)
    obtain i a trs where c: "c = (i, a, trs)" by (cases c)
    obtain k where k: "residency_of s k = Some a" using Cons.prems(2) [of i a trs] c by auto
    have "pool_ok C hand sk (claim_reader ks c s)"
      using pool_ok_more_readers [OF Cons.prems(1) k] by (simp add: claim_reader_def c pool_ok_pl_same)
    moreover have "residency_of (claim_reader ks c s) = residency_of s" by (simp add: claim_reader_def c)
    ultimately show ?case using Cons.IH [of "claim_reader ks c s"] Cons.prems(2) by (metis fold_simps(2) list.set_intros(2))
  qed simp
  have "\<exists>k. residency_of s k = Some a"
    if "scan_readers s layout allow xs = Some claims" "(i, a, trs) \<in> set claims" for xs claims i a trs
    using scan_readers_published [OF that] pool_ok_published [OF ok] by blast
  then show ?thesis
    using ok by (auto simp: acquire_readers_def Let_def pool_ok_pl_same intro!: claim split: option.splits)
qed

lemma release_readers_ok: "pool_ok C hand sk s \<Longrightarrow> pool_ok C hand sk (release_readers ks sources b s)"
  by (simp add: release_readers_def pool_ok_pl_same)

subsection \<open>Every call keeps the invariant\<close>

lemma keeps_run_stage: "keeps I m \<Longrightarrow> keeps I (run_stage m e)"
  by (auto simp: keeps_iff run_stage_def split: prod.splits sum.splits)

lemma keeps_core_close:
  assumes "keeps (pools_ok no_g3) h"
  shows "keeps (pools_ok no_g3) (core_close n q e h)"
proof -
  have "keeps (pools_ok no_g3) (close_main_resources h)"
    unfolding close_main_resources_def
  proof (rule keeps_read_any, goal_cases)
    case (1 s)
    have "g3_cfg (cfg s) = None" using pool_okD(5) [OF 1] by (simp add: no_g3_def)
    then show ?case
      by (auto simp: Let_def remote_close_main_def intro!: keeps_then keeps_mod keeps_bind keeps_run_stage assms keeps_ret keeps_raise
          waking.keeps_pools_close keeps_read_any keeps_foldS waking.keeps_release_local_sources split: option.splits)
  qed
  then show ?thesis
    unfolding core_close_def
    by (auto intro!: keeps_read_any keeps_ret keeps_raise keeps_lift keeps_then keeps_mod split: option.splits)
qed

lemma view_env [simp]: "view (s\<lparr>now := t\<rparr>) = view s" "view (s\<lparr>progress_failure := e\<rparr>) = view s"
  by (auto simp: view_def residency_of_def fun_eq_iff)

lemma keeps_release_call: "keeps (pools_ok no_g3) (with_hooks 0 (\<lambda>H. release_local_dram_sources (resume H) i ks))"
  by (intro keeps_with_hooks outer.hook.keeps_release_local_sources)

lemma keeps_close_call: "keeps (pools_ok no_g3) (core_close n q e (case h of None \<Rightarrow> retS () | Some e \<Rightarrow> raiseS e))"
  by (rule keeps_core_close) (auto intro: keeps_ret keeps_raise split: option.splits)

lemma run_call_ok:
  assumes ok: "pools_ok no_g3 s"
  shows "pools_ok no_g3 (run_call c s)"
  using ok
proof (cases c)
  case (Query ks rid)
  then show ?thesis using ok by (simp add: pool_ok_def view_core_query)
qed (simp_all add: discardS_def keeps_result keeps_core_deposit keeps_core_fetch keeps_core_deliver keeps_core_release
    keeps_align_sequence keeps_submit_hint keeps_poll_completed keeps_claim_sources keeps_release_call keeps_close_call acquire_readers_ok release_readers_ok
    core_discard_hint_def remote_discard_hint_def, simp_all add: pool_ok_def)

lemma reaches_ok: "reaches s t \<Longrightarrow> pools_ok no_g3 s \<Longrightarrow> pools_ok no_g3 t"
  by (induction rule: reaches.induct) (simp_all add: run_call_ok)

subsection \<open>Construction\<close>

definition full_pools :: "(string, int \<times> int \<times> int) dict \<Rightarrow> string \<Rightarrow> nat list option" where
  "full_pools rgs = (\<lambda>name. map_option (\<lambda>(_, len, sz). [0..<nat (len div sz)]) (map_of rgs name))"

lemma pool_geometry_full:
  "pool_geometry rp sizes rgs free = Inr (rgs', free') \<Longrightarrow> map_of free = full_pools rgs \<Longrightarrow> map_of free' = full_pools rgs'"
proof (induction rp sizes rgs free rule: pool_geometry.induct)
  case (1 name address len rest n sz sizes rgs free)
  have "map_of (AList.update name [0..<nat (len div sz)] free) = full_pools (AList.update name (address, len, sz) rgs)"
    using 1(3) by (auto simp: full_pools_def fun_eq_iff)
  then show ?case using 1 by (auto split: if_splits)
qed simp_all

lemma pools_init_ok:
  assumes "pools_init rp backend sizes = Inr (rgs, p)"
  shows "map_of (free_slots p) = full_pools rgs \<and> p\<lparr>free_slots := []\<rparr> = empty_pools"
proof -
  obtain free where "pool_geometry rp sizes [] [] = Inr (rgs, free)" "p = empty_pools\<lparr>free_slots := free\<rparr>"
    using assms by (auto simp: pools_init_def bindR_eq_Inr Let_def empty_pools_def split: if_splits)
  then show ?thesis
    using pool_geometry_full [of rp sizes "[]" "[]" rgs free] by (simp add: full_pools_def fun_eq_iff empty_pools_def)
qed

lemma local_pools_ok:
  assumes "local_pools opts sizes = Inr (rgs, p)"
  shows "map_of (free_slots p) = full_pools rgs" "evictable p = evq_init" "evictable_slots p = (\<lambda>_. 0)" "unscored p = []" "src_index p = []"
proof -
  have *: "map_of (free_slots p) = full_pools rgs \<and> p\<lparr>free_slots := []\<rparr> = empty_pools"
    using assms pools_init_ok by (auto simp: local_pools_def full_pools_def fun_eq_iff empty_pools_def split: option.splits)
  then show "map_of (free_slots p) = full_pools rgs" by blast
  from * show "evictable p = evq_init" "evictable_slots p = (\<lambda>_. 0)" "unscored p = []" "src_index p = []"
    by (cases p; simp add: empty_pools_def)+
qed

lemma configure_fields [simp]:
  "regions_of (configure c b bc rgs) = rgs" "g3_cfg (configure c b bc rgs) = map_option fst (g3_options bc)"
  by (simp_all add: configure_def Let_def)

lemma core_init_ok:
  assumes "core_init c b bc p0 t0 seed = Inr s" and "g3_options bc = None"
  shows "pools_ok no_g3 s"
proof -
  obtain rgs p where lp: "local_pools (local_dram_options bc) (cfg_pool_layouts c) = Inr (rgs, p)"
    and s: "cfg s = configure c b bc rgs" "block_record_map s = []" "pl s = p" "res_store s = (\<lambda>_. make_residency [] FILLING None None)"
    using assms(1) by (auto simp: core_init_def bindR_eq_Inr Let_def split: if_splits)
  note p = local_pools_ok [OF lp]
  have rof: "residency_of s = (\<lambda>_. None)" by (simp add: residency_of_def s fun_eq_iff)
  have sc: "evq_score (evq_init :: (score, key) evq) = (\<lambda>_. None)" by (simp add: evq_init_def evq_score_def fun_eq_iff)
  have tot: "evq.total w (evq_init :: (score, key) evq) = 0" for w by (simp add: evq.total_def sc)
  show ?thesis
  proof (rule pool_okI)
    show "index_ok [] (residency_of s) (res_store s) (pl s)"
      by (simp add: index_ok_def indexed_def rof s p sc tot evq_inv_init)
    show "pool_mset (map_of (free_slots (pl s))) + held (residency_of s) (res_store s) + slot_pairs [] = all_slots (cfg s)"
      by (simp add: s p rof held_def all_slots_def full_pools_def)
  qed (simp_all add: attached_ok_def sources_ok_def rof s p no_g3_def assms(2))
qed

subsection \<open>Owners of a slot\<close>

text \<open>How often a slot occurs on the free list of its pool and in the residencies attached to keys.\<close>

definition free_occurrences :: "'p core \<Rightarrow> string \<Rightarrow> nat \<Rightarrow> nat" where
  "free_occurrences s pool slot = (case map_of (free_slots (pl s)) pool of None \<Rightarrow> 0 | Some xs \<Rightarrow> count_list xs slot)"

definition held_occurrences :: "'p core \<Rightarrow> string \<Rightarrow> nat \<Rightarrow> nat" where
  "held_occurrences s pool slot =
     sum_list (map (\<lambda>k. case residency_of s k of
         None \<Rightarrow> 0
       | Some a \<Rightarrow> count_list (map (\<lambda>(l, x). (label_pool l, x)) (slots (res_store s a))) (pool, slot))
       (remdups (map fst (block_record_map s))))"

definition capacity_of :: "'p config \<Rightarrow> string \<Rightarrow> nat" where
  "capacity_of c pool = (case map_of (regions_of c) pool of None \<Rightarrow> 0 | Some (_, len, sz) \<Rightarrow> nat (len div sz))"

lemma count_pool_mset:
  assumes "finite (dom f)"
  shows "Multiset.count (pool_mset f) (pool, x) = (case f pool of None \<Rightarrow> 0 | Some xs \<Rightarrow> count_list xs x)"
proof -
  have c: "Multiset.count (image_mset (Pair q) (mset xs)) (pool, x) = (if q = pool then count_list xs x else 0)" for q xs
    by (induction xs) auto
  have "Multiset.count (pool_mset f) (pool, x) = (\<Sum>q \<in> dom f. if q = pool then count_list (the (f q)) x else 0)"
    by (simp add: pool_mset_def count_sum c)
  also have "\<dots> = (case f pool of None \<Rightarrow> 0 | Some xs \<Rightarrow> count_list xs x)"
    using assms by (auto simp: sum.delta domIff split: option.splits)
  finally show ?thesis .
qed

lemma count_mset_list: "Multiset.count (mset xs) x = count_list xs x"
  by (induction xs) auto

lemma held_occurrences_sum:
  "held_occurrences s pool slot = (\<Sum>k \<in> dom (residency_of s).
     count_list (map (\<lambda>(l, x). (label_pool l, x)) (slots (res_store s (the (residency_of s k))))) (pool, slot))"
proof -
  let ?g = "\<lambda>k. case residency_of s k of None \<Rightarrow> 0
    | Some a \<Rightarrow> count_list (map (\<lambda>(l, x). (label_pool l, x)) (slots (res_store s a))) (pool, slot)"
  have d: "dom (residency_of s) \<subseteq> set (map fst (block_record_map s))"
    by (auto simp: residency_of_def dom_map_of_conv_image_fst [symmetric] split: option.splits)
  have "held_occurrences s pool slot = sum ?g (set (map fst (block_record_map s)))"
    by (simp add: held_occurrences_def sum_list_distinct_conv_sum_set)
  also have "\<dots> = sum ?g (dom (residency_of s))" by (rule sum.mono_neutral_right [OF _ d]) (auto simp: domIff)
  also have "\<dots> = (\<Sum>k \<in> dom (residency_of s).
     count_list (map (\<lambda>(l, x). (label_pool l, x)) (slots (res_store s (the (residency_of s k))))) (pool, slot))"
    by (rule sum.cong) auto
  finally show ?thesis .
qed

text \<open>With \<open>hand\<close> taken from the free lists and not attached yet.\<close>

definition hand_occurrences :: "(string \<times> nat) list \<Rightarrow> string \<Rightarrow> nat \<Rightarrow> nat" where
  "hand_occurrences hand pool slot = count_list (map (\<lambda>(l, x). (label_pool l, x)) hand) (pool, slot)"

lemma pool_ok_owners:
  assumes "pool_ok C hand sk s"
  shows "free_occurrences s pool slot + held_occurrences s pool slot + hand_occurrences hand pool slot =
    (if slot < capacity_of (cfg s) pool then 1 else 0)"
proof -
  have one: "count_list [0..<n] slot = (if slot < n then 1 else 0)" for n
    by (simp add: count_mset_list [symmetric] distinct_count_atmost_1 [THEN iffD1, OF distinct_upt, rule_format])
  have "Multiset.count (pool_mset (map_of (free_slots (pl s)))) (pool, slot) = free_occurrences s pool slot"
    by (simp add: count_pool_mset finite_dom_map_of free_occurrences_def)
  moreover have "Multiset.count (held (residency_of s) (res_store s)) (pool, slot) = held_occurrences s pool slot"
    by (simp add: held_def held_occurrences_sum count_sum slot_pairs_def count_mset_list del: mset_map)
  moreover have "Multiset.count (slot_pairs hand) (pool, slot) = hand_occurrences hand pool slot"
    by (simp add: slot_pairs_def hand_occurrences_def count_mset_list del: mset_map)
  moreover have "Multiset.count (all_slots (cfg s)) (pool, slot) = (if slot < capacity_of (cfg s) pool then 1 else 0)"
  proof -
    let ?f = "\<lambda>name. map_option (\<lambda>(_, len, sz). [0..<nat (len div sz)]) (map_of (regions_of (cfg s)) name)"
    have "finite (dom ?f)" by (rule finite_subset [OF _ finite_dom_map_of [of "regions_of (cfg s)"]]) auto
    then show ?thesis by (simp add: all_slots_def count_pool_mset capacity_of_def one split: option.splits)
  qed
  ultimately show ?thesis using pool_okD(4) [OF assms] by (metis count_union)
qed

lemma pools_ok_owners:
  "pools_ok C s \<Longrightarrow> free_occurrences s pool slot + held_occurrences s pool slot = (if slot < capacity_of (cfg s) pool then 1 else 0)"
  using pool_ok_owners [of C "[]" "[]" s pool slot] by (simp add: hand_occurrences_def)

end
