(* ===== verification/KVCR_RecoverInv.thy ===== *)
theory KVCR_RecoverInv
  imports KVCR_CoreInv
begin

text \<open>
  A core that accepts recovered records starts with the invariant of the pools: the slots the records
  name are in range and used once, and the free lists are exactly the other slots.
\<close>

subsection \<open>Claiming the recovered slots\<close>

lemma claim_slots_ok:
  "claim_recovery_slots c labels occ sl = Some occ' \<Longrightarrow> finite occ \<Longrightarrow>
    finite occ' \<and> mset_set occ' = mset_set occ + slot_pairs sl \<and>
    (\<forall>pool slot. (pool, slot) \<in> occ' \<longrightarrow> (pool, slot) \<in> occ \<or> slot < capacity_of c pool)"
proof (induction c labels occ sl rule: claim_recovery_slots.induct)
  case (2 c labels occ l slot rest)
  obtain pool sep part where p: "partition_label l = (pool, sep, part)" by (cases "partition_label l")
  obtain ad len sz where r: "map_of (regions_of c) pool = Some (ad, len, sz)"
    using 2(2) by (auto simp: p split: option.splits)
  have "int slot < len div sz" and new: "(pool, slot) \<notin> occ"
    and rest: "claim_recovery_slots c (insert l labels) (insert (pool, slot) occ) rest = Some occ'"
    using 2(2) by (auto simp: p r split: if_splits)
  then have cap: "slot < capacity_of c pool" by (simp add: capacity_of_def r)
  have IH: "finite occ'" "mset_set occ' = mset_set (insert (pool, slot) occ) + slot_pairs rest"
    "\<forall>q x. (q, x) \<in> occ' \<longrightarrow> (q, x) \<in> insert (pool, slot) occ \<or> x < capacity_of c q"
    using 2(1) [OF p [symmetric] refl r refl refl _ rest] 2(2,3) by (auto simp: p r split: if_splits)
  then show ?case using cap new 2(3) p by (auto simp: label_pool_def)
qed simp

definition setfree :: "(string, nat list) dict \<Rightarrow> 'p core \<Rightarrow> 'p core" where
  "setfree f = pl_update (\<lambda>p. p\<lparr>free_slots := f\<rparr>)"

lemma setfree_fields [simp]:
  "res_store (setfree f s) = res_store s" "cfg (setfree f s) = cfg s" "residency_of (setfree f s) = residency_of s"
  "next_res (setfree f s) = next_res s"
  by (simp_all add: setfree_def)

lemma upd_res_setfree [simp]: "upd_res a g (setfree f s) = setfree f (upd_res a g s)"
  by (simp add: upd_res_def setfree_def)

lemma publish_setfree [simp]: "publish_source k a given (setfree f s) = setfree f (publish_source k a given s)"
  unfolding publish_source_def setfree_fields Let_def case_prod_beta
  by (simp add: setfree_def upd_res_def comp_def)

lemma adopt_residency_setfree:
  "adopt_residency e occ (setfree f s) = map_prod id (setfree f) (adopt_residency e occ s)"
  by (cases e)
    (auto simp: adopt_residency_def retS_def readS_def raiseS_def thenS_def bindS_def modS_def Let_def
      split: option.splits sum.splits)

lemma foldS_adopt_setfree:
  "foldS adopt_residency rs occ (setfree f s) = map_prod id (setfree f) (foldS adopt_residency rs occ s)"
proof (induction rs arbitrary: occ s)
  case (Cons e rs)
  show ?case
    by (cases "adopt_residency e occ s"; cases "fst (adopt_residency e occ s)")
      (auto simp: bindS_def adopt_residency_setfree Cons.IH)
qed (simp add: retS_def)

lemma prepare_index_fields [simp]:
  "slots (prepare_index r) = slots r" "rstate (prepare_index r) = rstate r" "pending (prepare_index r) = pending r"
  by (simp_all add: prepare_index_def pending_def)

lemma publish_source_slots [simp]: "slots (res_store (publish_source k a given s) b) = slots (res_store s b)"
proof -
  have "slots r' = slots r" if "source_refs c r xs = (l, r')" for c r xs l r'
    using source_refs_inert [OF that] by auto
  then show ?thesis
    by (auto simp: publish_source_def Let_def split: prod.splits option.splits if_splits)
qed

text \<open>One record: its slots join the occupied ones, and the invariant is kept.\<close>

lemma adopt_residency_ok:
  assumes "adopt_residency (k, rec) occ s = (Inr occ', s')" and "finite occ"
  shows "finite occ' \<and> (\<forall>b. slots (res_store s' b) = slots (res_store s b)) \<and> cfg s' = cfg s \<and> residency_of s' = residency_of s \<and>
    mset_set occ' = mset_set occ + (case local_dram rec of None \<Rightarrow> {#} | Some a \<Rightarrow> slot_pairs (slots (res_store s a))) \<and>
    (\<forall>pool slot. (pool, slot) \<in> occ' \<longrightarrow> (pool, slot) \<in> occ \<or> slot < capacity_of (cfg s) pool)"
  using assms claim_slots_ok [of "cfg s" "{}" occ]
  by (auto simp: adopt_residency_def retS_def readS_def raiseS_def thenS_def bindS_def modS_def Let_def
      split: option.splits sum.splits if_splits)

definition claimed_slots :: "(nat \<Rightarrow> residency) \<Rightarrow> nat block_record \<Rightarrow> (string \<times> nat) multiset" where
  "claimed_slots st rec = (case local_dram rec of None \<Rightarrow> {#} | Some a \<Rightarrow> slot_pairs (slots (st a)))"

lemma fold_adopt_ok:
  assumes "foldS adopt_residency rs occ s = (Inr occ', s')" and "finite occ"
  shows "finite occ' \<and> (\<forall>b. slots (res_store s' b) = slots (res_store s b)) \<and> cfg s' = cfg s \<and>
    mset_set occ' = mset_set occ + sum_list (map (claimed_slots (res_store s) \<circ> snd) rs) \<and>
    (\<forall>pool slot. (pool, slot) \<in> occ' \<longrightarrow> (pool, slot) \<in> occ \<or> slot < capacity_of (cfg s) pool)"
  using assms
proof (induction rs arbitrary: occ s)
  case Nil
  then show ?case by (simp add: retS_def)
next
  case (Cons e rs)
  obtain k rec where e: "e = (k, rec)" by (cases e)
  obtain occ1 s1 where one: "adopt_residency (k, rec) occ s = (Inr occ1, s1)"
    and rest: "foldS adopt_residency rs occ1 s1 = (Inr occ', s')"
    using Cons.prems(1) by (auto simp: e bindS_Inr)
  have o: "finite occ1" "\<forall>b. slots (res_store s1 b) = slots (res_store s b)" "cfg s1 = cfg s"
    "mset_set occ1 = mset_set occ + claimed_slots (res_store s) rec"
    "\<forall>pool slot. (pool, slot) \<in> occ1 \<longrightarrow> (pool, slot) \<in> occ \<or> slot < capacity_of (cfg s) pool"
    using adopt_residency_ok [OF one Cons.prems(2)] by (simp_all add: claimed_slots_def)
  have "claimed_slots (res_store s1) r = claimed_slots (res_store s) r" for r
    using o(2) by (simp add: claimed_slots_def split: option.splits)
  then show ?case using Cons.IH [OF rest o(1)] o by (auto simp: e comp_def) blast
qed

lemma adopt_residency_keeps:
  assumes ok: "pools_ok C s" and at: "local_dram rec \<noteq> None \<Longrightarrow> residency_of s k = local_dram rec"
  shows "pools_ok C (snd (adopt_residency (k, rec) occ s)) \<and> residency_of (snd (adopt_residency (k, rec) occ s)) = residency_of s"
proof (cases "local_dram rec")
  case None
  then show ?thesis using ok by (simp add: adopt_residency_def retS_def)
next
  case (Some a)
  let ?t = "upd_res a (\<lambda>r. prepare_index (r\<lparr>refs := Sparse []\<rparr>)) s"
  have "inert (\<lambda>r. prepare_index (r\<lparr>refs := Sparse []\<rparr>))"
    by (auto simp: inert_def prepare_index_def pending_def)
  then have "at_ok C k a ?t" using ok at Some by (intro at_ok_inert) (simp_all add: at_ok_def)
  then have "pools_ok C (publish_source k a None ?t)" by (rule at_ok_imp [OF publish_source_ok])
  then show ?thesis
    using ok Some
    by (auto simp: adopt_residency_def retS_def readS_def raiseS_def thenS_def bindS_def modS_def Let_def split: option.splits sum.splits)
qed

lemma fold_adopt_keeps:
  assumes "pools_ok C s" and "\<And>k rec. (k, rec) \<in> set rs \<Longrightarrow> local_dram rec \<noteq> None \<Longrightarrow> residency_of s k = local_dram rec"
  shows "pools_ok C (snd (foldS adopt_residency rs occ s))"
  using assms
proof (induction rs arbitrary: occ s)
  case Nil
  then show ?case by (simp add: retS_def)
next
  case (Cons e rs)
  obtain k rec where e: "e = (k, rec)" by (cases e)
  obtain x t where t: "adopt_residency (k, rec) occ s = (x, t)" by fastforce
  have "pools_ok C t \<and> residency_of t = residency_of s"
    using adopt_residency_keeps [OF Cons.prems(1), of rec k occ] Cons.prems(2) [of k rec] by (simp add: e t)
  then show ?case
    using Cons.IH [of t] Cons.prems(2) by (cases x) (simp_all add: e t bindS_def)
qed

subsection \<open>The slots that stay free\<close>

definition unclaimed :: "'p config \<Rightarrow> (string \<times> nat) set \<Rightarrow> (string, nat list) dict" where
  "unclaimed c occ =
     map (\<lambda>(name, _, len, sz). (name, filter (\<lambda>slot. (name, slot) \<notin> occ) [0..<nat (len div sz)])) (regions_of c)"

lemma map_of_unclaimed:
  "map_of (unclaimed c occ) pool =
    map_option (\<lambda>(_, len, sz). filter (\<lambda>slot. (pool, slot) \<notin> occ) [0..<nat (len div sz)]) (map_of (regions_of c) pool)"
proof -
  have "map_of (map (\<lambda>(name, _, len, sz). (name, filter (\<lambda>slot. (name, slot) \<notin> occ) [0..<nat (len div sz)])) rgs) pool =
    map_option (\<lambda>(_, len, sz). filter (\<lambda>slot. (pool, slot) \<notin> occ) [0..<nat (len div sz)]) (map_of rgs pool)"
    for rgs :: "(string, int \<times> int \<times> int) dict"
    by (induction rgs) auto
  then show ?thesis by (simp add: unclaimed_def)
qed

lemma count_upt: "count_list [0..<n] x = (if x < n then 1 else 0)"
  by (simp add: count_mset_list [symmetric] distinct_count_atmost_1 [THEN iffD1, OF distinct_upt, rule_format])

lemma count_filter: "count_list (filter P xs) x = (if P x then count_list xs x else 0)"
  by (induction xs) auto

lemma count_all_slots: "Multiset.count (all_slots c) (pool, slot) = (if slot < capacity_of c pool then 1 else 0)"
proof -
  let ?f = "\<lambda>name. map_option (\<lambda>(_, len, sz). [0..<nat (len div sz)]) (map_of (regions_of c) name)"
  have "finite (dom ?f)" by (rule finite_subset [OF _ finite_dom_map_of [of "regions_of c"]]) auto
  then show ?thesis by (simp add: all_slots_def count_pool_mset capacity_of_def count_upt split: option.splits)
qed

lemma unclaimed_partition:
  assumes "finite occ" and "\<And>pool slot. (pool, slot) \<in> occ \<Longrightarrow> slot < capacity_of c pool"
  shows "pool_mset (map_of (unclaimed c occ)) + mset_set occ = all_slots c"
proof (rule multiset_eqI)
  fix x :: "string \<times> nat"
  obtain pool slot where x: "x = (pool, slot)" by (cases x)
  have "Multiset.count (pool_mset (map_of (unclaimed c occ))) (pool, slot) =
      (if (pool, slot) \<notin> occ \<and> slot < capacity_of c pool then 1 else 0)"
    by (simp add: count_pool_mset finite_dom_map_of map_of_unclaimed count_filter count_upt capacity_of_def split: option.splits)
  then show "Multiset.count (pool_mset (map_of (unclaimed c occ)) + mset_set occ) x = Multiset.count (all_slots c) x"
    using assms by (simp add: x count_all_slots)
qed

lemma held_records:
  "dict_wf rs \<Longrightarrow> held (\<lambda>k. case map_of rs k of None \<Rightarrow> None | Some rec \<Rightarrow> local_dram rec) st =
    sum_list (map (claimed_slots st \<circ> snd) rs)"
proof (induction rs)
  case Nil
  then show ?case by (simp add: held_def)
next
  case (Cons e rs)
  obtain k rec where e: "e = (k, rec)" by (cases e)
  let ?r = "\<lambda>rs k. case map_of rs k of None \<Rightarrow> None | Some rec \<Rightarrow> local_dram rec"
  have wf: "dict_wf rs" and new: "map_of rs k = None"
    using Cons.prems by (auto simp: dict_wf_def e map_of_eq_None_iff)
  have r: "?r (e # rs) = (?r rs)(k := local_dram rec)" by (auto simp: e fun_eq_iff)
  show ?case
  proof (cases "local_dram rec")
    case None
    then have "?r (e # rs) = ?r rs" using new by (auto simp: e fun_eq_iff)
    then show ?thesis using Cons.IH [OF wf] None by (simp add: e claimed_slots_def)
  next
    case (Some a)
    have "finite (dom (?r (e # rs)))"
      by (rule finite_subset [OF _ finite_dom_map_of [of "e # rs"]]) (auto split: option.splits)
    then have "held (?r (e # rs)) st = slot_pairs (slots (st a)) + held ((?r (e # rs))(k := None)) st"
      by (rule held_remove) (simp add: e Some)
    moreover have "(?r (e # rs))(k := None) = ?r rs" using new by (auto simp: e fun_eq_iff)
    ultimately show ?thesis using Cons.IH [OF wf] Some by (simp add: e claimed_slots_def)
  qed
qed

subsection \<open>Interning the records\<close>

definition fresh_address :: "nat \<Rightarrow> nat \<Rightarrow> nat block_record \<Rightarrow> bool" where
  "fresh_address lo hi rec \<longleftrightarrow> (\<forall>a. local_dram rec = Some a \<longrightarrow> lo \<le> a \<and> a < hi)"

lemma intern_fields:
  assumes "intern_records records s = (rs, s')"
  shows "map fst rs = map fst records \<and> block_record_map s' = block_record_map s \<and> pl s' = pl s \<and> cfg s' = cfg s \<and>
    next_res s \<le> next_res s' \<and> (\<forall>a < next_res s. res_store s' a = res_store s a)"
  using assms
proof (induction records s arbitrary: rs s' rule: intern_records.induct)
  case (2 k rec rest s)
  show ?case
  proof (cases "local_dram rec")
    case None
    then show ?thesis using 2 by (auto split: prod.splits)
  next
    case (Some r)
    let ?t = "upd_res (next_res s) (\<lambda>_. r) (s\<lparr>next_res := Suc (next_res s)\<rparr>)"
    obtain rs1 where i: "intern_records rest ?t = (rs1, s')" "rs = (k, with_residency (Some (next_res s)) rec) # rs1"
      using 2(3) Some by (auto simp: Let_def split: prod.splits)
    show ?thesis using 2(2) [OF Some refl i(1)] i(2) by auto
  qed
qed simp

lemma intern_fresh:
  assumes "intern_records records s = (rs, s')" and "list_all (clean_record \<circ> snd) records"
  shows "list_all (fresh_address (next_res s) (next_res s') \<circ> snd) rs \<and>
    distinct (map (\<lambda>(k, rec). (local_dram rec)) (filter (\<lambda>(k, rec). local_dram rec \<noteq> None) rs)) \<and>
    (\<forall>a. res_store s' a = res_store s a \<or> claim_count (res_store s' a) = 0 \<and> source_readers (res_store s' a) = 0) \<and>
    (\<forall>a. next_res s \<le> a \<and> a < next_res s' \<longrightarrow> claim_count (res_store s' a) = 0 \<and> source_readers (res_store s' a) = 0)"
  using assms
proof (induction records s arbitrary: rs s' rule: intern_records.induct)
  case (2 k rec rest s)
  show ?case
  proof (cases "local_dram rec")
    case None
    obtain rs1 where i: "intern_records rest s = (rs1, s')" "rs = (k, with_residency None rec) # rs1"
      using 2(3) None by (auto split: prod.splits)
    show ?thesis using 2(1) [OF None i(1)] 2(4) by (simp add: i(2) fresh_address_def with_residency_def)
  next
    case (Some r)
    let ?t = "upd_res (next_res s) (\<lambda>_. r) (s\<lparr>next_res := Suc (next_res s)\<rparr>)"
    obtain rs1 where i: "intern_records rest ?t = (rs1, s')" "rs = (k, with_residency (Some (next_res s)) rec) # rs1"
      using 2(3) Some by (auto simp: Let_def split: prod.splits)
    note IH = 2(2) [OF Some refl i(1)]
    have c: "claim_count r = 0" "source_readers r = 0" using 2(4) Some by (auto simp: clean_record_def)
    have f: "Suc (next_res s) \<le> next_res s'" "res_store s' (next_res s) = r"
      using intern_fields [OF i(1)] by auto
    have IH': "list_all (fresh_address (Suc (next_res s)) (next_res s') \<circ> snd) rs1"
      "distinct (map (\<lambda>(k, rec). local_dram rec) (filter (\<lambda>(k, rec). local_dram rec \<noteq> None) rs1))"
      "\<forall>a. res_store s' a = (if a = next_res s then r else res_store s a) \<or>
         claim_count (res_store s' a) = 0 \<and> source_readers (res_store s' a) = 0"
      "\<forall>a. Suc (next_res s) \<le> a \<and> a < next_res s' \<longrightarrow> claim_count (res_store s' a) = 0 \<and> source_readers (res_store s' a) = 0"
      using IH 2(4) by (auto simp: comp_def)
    have "list_all (fresh_address (next_res s) (next_res s') \<circ> snd) rs"
      using IH'(1) f(1) by (auto simp: i(2) list_all_iff fresh_address_def with_residency_def)
    moreover have "distinct (map (\<lambda>(k, rec). local_dram rec) (filter (\<lambda>(k, rec). local_dram rec \<noteq> None) rs))"
      using IH'(1,2) by (auto simp: i(2) with_residency_def list_all_iff fresh_address_def)
    moreover have "\<forall>a. res_store s' a = res_store s a \<or> claim_count (res_store s' a) = 0 \<and> source_readers (res_store s' a) = 0"
      using IH'(3) f(2) c by metis
    moreover have "\<forall>a. next_res s \<le> a \<and> a < next_res s' \<longrightarrow> claim_count (res_store s' a) = 0 \<and> source_readers (res_store s' a) = 0"
      using IH'(4) f(2) c by (metis Suc_leI le_neq_implies_less)
    ultimately show ?thesis by blast
  qed
qed simp

lemma distinct_addresses_inj:
  assumes "distinct (map (\<lambda>(k, rec). local_dram rec) (filter (\<lambda>(k, rec). local_dram rec \<noteq> None) rs))"
    and "(k, rec) \<in> set rs" "(k', rec') \<in> set rs" "local_dram rec = Some a" "local_dram rec' = Some a"
  shows "k = k'"
proof -
  have "inj_on (\<lambda>(k, rec). local_dram rec) (set (filter (\<lambda>(k, rec). local_dram rec \<noteq> None) rs))"
    using assms(1) by (simp only: distinct_map)
  then show ?thesis using assms(2-) by (auto dest!: inj_onD [of _ _ "(k, rec)" "(k', rec')"])
qed

text \<open>The table of the records, with the free lists it leaves, satisfies the invariant before anything is published.\<close>

lemma installed_pools_ok:
  assumes ok: "pools_ok C s" and none: "block_record_map s = []"
    and i: "intern_records records s = (rs, s')" and wf: "dict_wf records" and clean: "list_all (clean_record \<circ> snd) records"
    and part: "finite occ" "mset_set occ = sum_list (map (claimed_slots (res_store s') \<circ> snd) rs)"
      "\<And>pool slot. (pool, slot) \<in> occ \<Longrightarrow> slot < capacity_of (cfg s) pool"
  shows "pools_ok C (setfree (unclaimed (cfg s) occ) (s'\<lparr>block_record_map := rs\<rparr>))"
proof (rule pool_okI)
  let ?s = "setfree (unclaimed (cfg s) occ) (s'\<lparr>block_record_map := rs\<rparr>)"
  note F = intern_fields [OF i] and N = intern_fresh [OF i clean] and D = pool_okD [OF ok]
  have rof0: "residency_of s = (\<lambda>_. None)" by (simp add: residency_of_def none fun_eq_iff)
  have wf': "dict_wf rs" using wf F by (simp add: dict_wf_def)
  have rof: "residency_of ?s = (\<lambda>k. case map_of rs k of None \<Rightarrow> None | Some rec \<Rightarrow> local_dram rec)"
    by (simp add: residency_of_def fun_eq_iff)
  have mem: "\<exists>rec. (k, rec) \<in> set rs \<and> local_dram rec = Some a" if "residency_of ?s k = Some a" for k a
    using that unfolding rof by (auto split: option.splits dest: map_of_SomeD)
  have pl: "evictable (pl ?s) = evictable (pl s)" "evictable_slots (pl ?s) = evictable_slots (pl s)"
      "unscored (pl ?s) = unscored (pl s)" "src_index (pl ?s) = src_index (pl s)" "cfg ?s = cfg s"
    using F by (simp_all add: setfree_def)
  have empty: "\<not> indexed (pl s) k" "map_of (src_index (pl s)) k \<noteq> Some (Some a)" for k a
    using pool_ok_indexed [OF ok, of k] pool_ok_published [OF ok, of k a] by (auto simp: rof0)
  show "attached_ok (residency_of ?s) (res_store ?s) (next_res ?s)"
    unfolding attached_ok_def
  proof (intro conjI allI impI)
    show "a < next_res ?s" "0 \<le> claim_count (res_store ?s a)" if "residency_of ?s k = Some a" for k a
      using mem [OF that] N F by (auto simp: list_all_iff fresh_address_def)
    show "k = k'" if "residency_of ?s k = Some a" "residency_of ?s k' = Some a" for k k' a
      using mem [OF that(1)] mem [OF that(2)] distinct_addresses_inj [of rs] N by blast
  qed simp
  have "evq.total w (evictable (pl s)) = evq.total w' (evictable (pl s))" for w w'
    by (rule evq.total_cong) (use empty(1) in \<open>auto simp: indexed_def\<close>)
  then show "index_ok [] (residency_of ?s) (res_store ?s) (pl ?s)"
    using D(2) empty(1) unfolding index_ok_def indexed_def pl by metis
  have "source_readers (res_store s a) = 0" for a
    using pool_ok_readers [OF ok, of a] pool_ok_read [OF ok, of a]
    by (cases "0 < source_readers (res_store s a)") (simp_all add: rof0)
  moreover have "res_store s' a = res_store s a \<or> source_readers (res_store s' a) = 0" for a using N by blast
  ultimately have "source_readers (res_store ?s a) = 0" for a by (metis record_map_fields(2) setfree_fields(1))
  then show "sources_ok (has_framework_control (cfg ?s)) (residency_of ?s) (res_store ?s) (pl ?s)"
    using empty(2) by (simp add: sources_ok_def pl)
  show "pool_mset (map_of (free_slots (pl ?s))) + held (residency_of ?s) (res_store ?s) + slot_pairs [] = all_slots (cfg ?s)"
    using unclaimed_partition [OF part(1,3)] held_records [OF wf', of "res_store s'"] part(2)
    unfolding rof pl by (simp add: setfree_def)
  show "C (cfg ?s)" using D(5) unfolding pl .
qed

lemma adopt_slots_ok:
  assumes ok: "pools_ok C s" and none: "block_record_map s = []"
    and i: "intern_records records s = (rs, s')" and wf: "dict_wf records" and clean: "list_all (clean_record \<circ> snd) records"
    and run: "adopt_recovery_slots rs (s'\<lparr>block_record_map := rs\<rparr>) = (Inr (), t)"
  shows "pools_ok C t"
proof -
  let ?s = "s'\<lparr>block_record_map := rs\<rparr>"
  obtain occ u where fold: "foldS adopt_residency rs {} ?s = (Inr occ, u)"
    and t: "t = setfree (unclaimed (cfg u) occ) u"
    using run by (auto simp: adopt_recovery_slots_def bindS_Inr modS_def setfree_def unclaimed_def)
  have c: "cfg s' = cfg s" using intern_fields [OF i] by simp
  have A: "finite occ" "cfg u = cfg s" "mset_set occ = sum_list (map (claimed_slots (res_store s') \<circ> snd) rs)"
    "\<And>pool slot. (pool, slot) \<in> occ \<Longrightarrow> slot < capacity_of (cfg s) pool"
    using fold_adopt_ok [OF fold] c by auto
  have start: "pools_ok C (setfree (unclaimed (cfg s) occ) ?s)"
    by (rule installed_pools_ok [OF ok none i wf clean A(1,3,4)])
  have att: "residency_of (setfree (unclaimed (cfg s) occ) ?s) k = local_dram rec" if "(k, rec) \<in> set rs" for k rec
  proof -
    have "dict_wf rs" using wf intern_fields [OF i] by (simp add: dict_wf_def)
    then have "map_of rs k = Some rec" using that by (simp add: dict_wf_def)
    then show ?thesis by (simp add: residency_of_def)
  qed
  have "pools_ok C (snd (foldS adopt_residency rs {} (setfree (unclaimed (cfg s) occ) ?s)))"
    by (rule fold_adopt_keeps [OF start]) (rule att)
  then show ?thesis by (simp add: foldS_adopt_setfree fold t A(2))
qed

lemma readS_apply: "readS f s = f s s"
  by (simp add: readS_def)

lemma raiseS_apply: "raiseS e s = (Inl e, s)"
  by (simp add: raiseS_def)

lemma thenS_modS: "thenS (modS f) m s = m (f s)"
  by (simp add: thenS_def bindS_def modS_def)

lemma thenS_retS: "thenS (retS x) m = m"
  by (simp add: thenS_def bindS_def retS_def fun_eq_iff)

lemma thenS_Inr: "thenS (m :: ('s, unit) sx) n s = (Inr y, t) \<longleftrightarrow> (\<exists>s'. m s = (Inr (), s') \<and> n s' = (Inr y, t))"
  by (simp add: thenS_def bindS_Inr)

lemma adopt_records_ok:
  assumes ok: "pools_ok no_g3 s" and wf: "dict_wf records" and clean: "list_all (clean_record \<circ> snd) records"
    and i: "intern_records records s = (rs, s')" and run': "adopt_recovery_records rs s' = (Inr (), s2)"
  shows "pools_ok no_g3 s2"
proof -
  have c: "cfg s' = cfg s" "block_record_map s' = block_record_map s" "pl s' = pl s" "map fst rs = map fst records"
    using intern_fields [OF i] by auto
  show ?thesis
  proof (cases "rs = []")
    case True
    then have "records = []" using c(4) by simp
    then show ?thesis using ok run' i True by (simp add: adopt_recovery_records_def readS_def retS_def)
  next
    case False
    have no: "g3_cfg (cfg s') = None" using pool_okD(5) [OF ok] c(1) by (simp add: no_g3_def)
    have none: "block_record_map s = []"
      using run' False by (auto simp: adopt_recovery_records_def readS_def raiseS_def c(2) split: if_splits)
    let ?admit = "\<lambda>(k, rec). readS (\<lambda>s.
           let admit = (\<lambda>sz source. modS (\<lambda>s. s\<lparr>pol := on_ingest (the_policy (cfg s)) (block_meta k rec sz) source (pol s)\<rparr>)) in
           case (local_dram rec, g3_cfg (cfg s), g3 rec) of
             (Some a, _, _) \<Rightarrow> admit (residency_size (cfg s) (res_store s a)) LOCAL_G2
           | (None, Some c, Some r) \<Rightarrow> admit (g3_size c r) G3
           | _ \<Rightarrow> raiseS (TypeError ''residency''))"
    have rest: "keeps (pools_ok no_g3) (thenS (forS rs ?admit) (thenS (rank_recovered rs) (modS id)))"
      unfolding rank_recovered_def
      by (auto simp: Let_def intro!: keeps_then keeps_forS keeps_read_any keeps_mod keeps_raise keeps_when keeps_make_evictable
          split: prod.splits option.splits)
    obtain t where t: "adopt_recovery_slots rs (s'\<lparr>block_record_map := rs\<rparr>) = (Inr (), t)"
      and last: "thenS (forS rs ?admit) (thenS (rank_recovered rs) (modS id)) t = (Inr (), s2)"
      using run' False no
      by (auto simp: adopt_recovery_records_def readS_apply raiseS_apply thenS_modS thenS_retS thenS_Inr split: if_splits)
    have "pools_ok no_g3 t" by (rule adopt_slots_ok [OF ok none i wf clean t])
    from keeps_result [OF rest this] show ?thesis unfolding last by simp
  qed
qed

lemma number_g3_fst [simp]: "map fst (number_g3 i rs) = map fst rs"
  by (induction i rs rule: number_g3.induct) simp_all

lemma number_g3_clean [simp]: "list_all (clean_record \<circ> snd) (number_g3 i rs) = list_all (clean_record \<circ> snd) rs"
  by (induction i rs rule: number_g3.induct) (simp_all add: clean_record_def)

lemma install_ok:
  assumes ok: "pools_ok no_g3 s" and wf: "dict_wf records" and clean: "list_all (clean_record \<circ> snd) records"
    and run: "install_recovery_records records s = (Inr (), s2)"
  shows "pools_ok no_g3 s2"
proof -
  let ?s = "gd_update (\<lambda>g. g\<lparr>next_g3 := next_g3 g + length records\<rparr>) s"
  obtain rs s' where i: "intern_records (number_g3 (next_g3 (gd s)) records) ?s = (rs, s')" by fastforce
  have "pools_ok no_g3 ?s" using ok by simp
  then show ?thesis
    by (rule adopt_records_ok [OF _ _ _ i]) (use wf clean run i in \<open>simp_all add: dict_wf_def install_recovery_records_def\<close>)
qed

lemma starts_ok: "starts bc s \<Longrightarrow> g3_options bc = None \<Longrightarrow> pools_ok no_g3 s"
  by (induction rule: starts.induct) (blast intro: core_init_ok install_ok)+

lemma run_ok: "starts bc s0 \<Longrightarrow> g3_options bc = None \<Longrightarrow> reaches s0 s \<Longrightarrow> pools_ok no_g3 s"
  by (blast intro: reaches_ok starts_ok)

end
