(* ===== verification/KVCR_Recovery.thy ===== *)
theory KVCR_Recovery
  imports KVCR_Protocol KVCR_RecoverInv
begin

text \<open>
  Recovery state outside the ring (\<open>service/recovery_journal.py\<close>): the records a journal frame carries,
  the mirror that replays them, publication into the journal, and the handback region that carries a
  table of records from one holder of a pool to the next.

  The msgpack codec is third-party: an encoder of blocks \<open>enc\<close>, a decoder \<open>dec\<close> of bytes to a block that
  need not meet the constraints declared on \<open>_RecoveryBlock\<close>, and an encoder of pool descriptors are
  parameters, as is SHA-256. What is relied on of them is \<open>codec_ok\<close> and \<open>digest_ok\<close>.
\<close>

subsection \<open>Records on the wire\<close>

text \<open>The constraints declared on the fields of \<open>_RecoveryBlock\<close>.\<close>

definition block_valid :: "recovery_block \<Rightarrow> bool" where
  "block_valid b =
     ((case rb_g2 b of None \<Rightarrow> True | Some locations \<Rightarrow> locations \<noteq> []) \<and>
      (case rb_g3 b of None \<Rightarrow> True | Some (layout, sl) \<Rightarrow> layout \<noteq> [] \<and> sl \<noteq> []) \<and> -1 \<le> rb_position b)"

definition decode_block :: "(bytes \<Rightarrow> recovery_block decoded) \<Rightarrow> bytes \<Rightarrow> recovery_block res" where
  "decode_block dec payload =
     (case dec payload of
        Decoded b \<Rightarrow> if block_valid b then Inr b else Inl (MsgspecError ''ValidationError'')
      | ValidationError \<Rightarrow> Inl (MsgspecError ''ValidationError'')
      | DecodeError \<Rightarrow> Inl (MsgspecError ''DecodeError''))"

text \<open>The loops over the labels of a layout: a known pool, and a part that is neither empty, reserved nor repeated.\<close>

fun labels_ok :: "string list \<Rightarrow> string set \<Rightarrow> string list \<Rightarrow> bool" where
  "labels_ok pool_names earlier [] = True"
| "labels_ok pool_names earlier (l # ls) =
     (case partition_label l of (pool, separator, part) \<Rightarrow>
        if pool \<notin> set pool_names \<or> (separator \<and> (part \<in> {'''', ''*''} \<or> l \<in> earlier)) then False
        else labels_ok pool_names (insert l earlier) ls)"

definition is_recoverable :: "residency block_record \<Rightarrow> bool" where
  "is_recoverable rec =
     (g3 rec \<noteq> None \<or> (case local_dram rec of None \<Rightarrow> False | Some r \<Rightarrow> complete_residency r))"

definition decode_recovery_record ::
  "(bytes \<Rightarrow> recovery_block decoded) \<Rightarrow> bytes \<Rightarrow> string list \<Rightarrow> residency block_record res" where
  "decode_recovery_record dec payload pool_names =
     bindR (decode_block dec payload) (\<lambda>b.
       if (case rb_g3 b of None \<Rightarrow> False | Some (layout, _) \<Rightarrow> \<not> labels_ok pool_names {} layout)
       then Inl (ValueError ''G3 recovery layout does not match the pool group'')
       else if (case rb_g2 b of None \<Rightarrow> False | Some locations \<Rightarrow> \<not> labels_ok pool_names {} (map fst locations))
       then Inl (ValueError ''G2 recovery location does not match the pool group'')
       else Inr (new_record
         \<lparr>local_dram := map_option (\<lambda>locations. make_residency locations READY None None) (rb_g2 b),
          g3 := map_option (\<lambda>(layout, sl). \<lparr>g3_id = 0, g3_layout = layout, g3_slots = sl, g3_claim_count = 0\<rparr>) (rb_g3 b),
          rec_position := rb_position b\<rparr>))"

subsection \<open>The mirror\<close>

type_synonym records = "(key, residency block_record) dict"

record mirror =
  mirror_pool_names :: "string list"
  mirror_records :: records

definition mirror_init :: "string list \<Rightarrow> mirror" where
  "mirror_init pool_names = \<lparr>mirror_pool_names = pool_names, mirror_records = []\<rparr>"

definition mirror_apply :: "(bytes \<Rightarrow> recovery_block decoded) \<Rightarrow> frame \<Rightarrow> mirror \<Rightarrow> mirror res" where
  "mirror_apply dec = (\<lambda>(record_type, k, payload) m.
     if record_type \<noteq> RECORD_BLOCK then Inl (RecoveryMirrorError ''recovery record is malformed'')
     else case decode_recovery_record dec payload (mirror_pool_names m) of
       Inl _ \<Rightarrow> Inl (RecoveryMirrorError ''recovery record is malformed'')
     | Inr rec \<Rightarrow>
         if local_dram rec = None \<and> g3 rec = None
         then Inr (m\<lparr>mirror_records := AList.delete k (mirror_records m)\<rparr>)
         else Inr (m\<lparr>mirror_records := AList.update k rec (mirror_records m)\<rparr>))"

text \<open>Applying frames in order; the first one that is malformed ends it.\<close>

fun mirror_apply_all :: "(bytes \<Rightarrow> recovery_block decoded) \<Rightarrow> frame list \<Rightarrow> mirror \<Rightarrow> mirror res" where
  "mirror_apply_all dec [] m = Inr m"
| "mirror_apply_all dec (f # fs) m = bindR (mirror_apply dec f m) (mirror_apply_all dec fs)"

text \<open>What \<open>adopt\<close> makes of one record of a closed core, in place.\<close>

definition adopt_residency_state :: "residency \<Rightarrow> residency" where
  "adopt_residency_state r =
     r\<lparr>pending_deposits := 0, writers := None, remote_indices := None, remote_cancelled := False, claim_count := 0,
       source_readers := 0, retire_on_release := False, refs := Sparse []\<rparr>"

definition adopt_record :: "residency block_record \<Rightarrow> residency block_record" where
  "adopt_record rec =
     \<lparr>fw_mem = None,
      local_dram = (case local_dram rec of None \<Rightarrow> None
        | Some r \<Rightarrow> if complete_residency r then Some (adopt_residency_state r) else None),
      g3 = map_option (\<lambda>d. d\<lparr>g3_claim_count := 0\<rparr>) (g3 rec),
      in_flight_ops = [], rec_access_count = 0, rec_last_access = None, rec_position = rec_position rec\<rparr>"

definition mirror_adopt :: "records \<Rightarrow> mirror \<Rightarrow> mirror" where
  "mirror_adopt records m =
     m\<lparr>mirror_records := filter (\<lambda>(k, rec). is_recoverable rec) (map (\<lambda>(k, rec). (k, adopt_record rec)) records)\<rparr>"

definition take_records :: "mirror \<Rightarrow> records \<times> mirror" where
  "take_records m = (mirror_records m, m\<lparr>mirror_records := []\<rparr>)"

subsection \<open>Publication\<close>

text \<open>
  The observer that \<open>_attach_journal\<close> installs: whether it is still enabled, and the journal it writes to.
  The mapping is None once the attachment is closed, when every journal call raises.
\<close>

record publisher =
  pub_enabled :: bool
  pub_mapping :: "bytes option"
  pub_journal :: journal

definition publish_block :: "(recovery_block \<Rightarrow> bytes) \<Rightarrow> key \<times> recovery_block \<Rightarrow> publisher \<Rightarrow> publisher" where
  "publish_block enc = (\<lambda>(k, b) p.
     if \<not> pub_enabled p then p
     else case bindR (require_mapping (pub_mapping p)) (\<lambda>m. publish m (pub_journal p) RECORD_BLOCK k (enc b)) of
       Inr (taken, m, j) \<Rightarrow> p\<lparr>pub_enabled := taken, pub_mapping := Some m, pub_journal := j\<rparr>
     | Inl _ \<Rightarrow>
         (case pub_mapping p of
            None \<Rightarrow> p\<lparr>pub_enabled := False\<rparr>
          | Some m \<Rightarrow>
              (case invalidate m (pub_journal p) of
                 (m', j') \<Rightarrow> p\<lparr>pub_enabled := False, pub_mapping := Some m', pub_journal := j'\<rparr>)))"

definition journal_preflight ::
  "(recovery_block \<Rightarrow> bytes) \<Rightarrow> journal \<Rightarrow> key \<Rightarrow> residency block_record \<Rightarrow> g3_residency \<Rightarrow> bool" where
  "journal_preflight enc j k rec disk =
     (let sz = FRAME_HEADER_size + length k + length (enc (project_recovery_record (rec\<lparr>g3 := Some disk\<rparr>))) in
      sz \<le> MAX_FRAME_SIZE \<and> pad_to ALIGNMENT sz \<le> capacity j)"

definition recovery_frames :: "(recovery_block \<Rightarrow> bytes) \<Rightarrow> records \<Rightarrow> frame list" where
  "recovery_frames enc records =
     map (\<lambda>(k, rec). (RECORD_BLOCK, k, enc (project_recovery_record rec))) (filter (\<lambda>(k, rec). is_recoverable rec) records)"

subsection \<open>The handback region\<close>

definition SNAPSHOT_HEADER_size :: nat where "SNAPSHOT_HEADER_size = 40"

definition str_bytes :: "string \<Rightarrow> bytes" where
  "str_bytes str = map (\<lambda>ch. word_of_nat (of_char ch)) str"

definition SNAPSHOT_DOMAIN :: bytes where "SNAPSHOT_DOMAIN = str_bytes ''KVCR-HANDBACK'' @ [0]"

text \<open>\<open>bytes.fromhex\<close> of a string of lower-case hexadecimal digits.\<close>

definition hex_value :: "char \<Rightarrow> nat" where
  "hex_value ch = (let n = of_char ch in if n \<le> 57 then n - 48 else n - 87)"

fun from_hex :: "string \<Rightarrow> bytes" where
  "from_hex (a # b # rest) = word_of_nat (16 * hex_value a + hex_value b) # from_hex rest"
| "from_hex _ = []"

definition canonical_pool_terms ::
  "(PoolDescriptor list \<Rightarrow> bytes) \<Rightarrow> string \<Rightarrow> PoolDescriptor list \<Rightarrow> KVCRPoolSpec \<Rightarrow> bytes" where
  "canonical_pool_terms enc_pools compatibility_digest pools spec =
     SNAPSHOT_DOMAIN @ str_bytes compatibility_digest @ [0] @ from_hex (generation spec) @ enc_pools pools @
     le_bytes 8 (journal_bytes spec) @ le_bytes 8 (mapping_bytes spec) @ le_bytes 8 (device spec) @ le_bytes 8 (inode spec)"

definition snapshot_digest :: "(bytes \<Rightarrow> bytes) \<Rightarrow> bytes \<Rightarrow> bytes \<Rightarrow> nat \<Rightarrow> nat \<Rightarrow> bytes" where
  "snapshot_digest sha256 terms mapping start sz = sha256 (terms @ slice start sz mapping)"

fun snapshot_body :: "frame list \<Rightarrow> bytes res" where
  "snapshot_body [] = Inr []"
| "snapshot_body ((t, k, payload) # fs) =
     (if frame_size k payload > MAX_FRAME_SIZE then Inl (RecoveryJournalError ''handback frame is too large'')
      else bindR (snapshot_body fs) (\<lambda>body. Inr (pack_frame t k payload (frame_size k payload) @ body)))"

text \<open>The stores into the mapped region, in order: retire the old header, the body, the new header.\<close>

definition snapshot_header :: "(bytes \<Rightarrow> bytes) \<Rightarrow> bytes \<Rightarrow> bytes \<Rightarrow> bytes" where
  "snapshot_header sha256 terms body = sha256 (terms @ body) @ le_bytes 8 (length body)"

definition write_region :: "pool_os \<Rightarrow> (bytes \<Rightarrow> bytes) \<Rightarrow> bytes \<Rightarrow> bytes \<Rightarrow> bytes \<Rightarrow> unit res \<times> bytes" where
  "write_region os sha256 terms body region =
     (let retired = slice_set 0 (replicate SNAPSHOT_HEADER_size 0) region in
      case flush_error os 0 of
        Some e \<Rightarrow> (Inl (OSError e), retired)
      | None \<Rightarrow>
          let filled = slice_set SNAPSHOT_HEADER_size body retired;
              finished = slice_set 0 (snapshot_header sha256 terms body) filled
          in case flush_error os 1 of Some e \<Rightarrow> (Inl (OSError e), finished) | None \<Rightarrow> (Inr (), finished))"

definition write_recovery_snapshot ::
  "pool_os \<Rightarrow> (bytes \<Rightarrow> bytes) \<Rightarrow> KVCRPoolSpec \<Rightarrow> bytes \<Rightarrow> frame list \<Rightarrow> bytes \<Rightarrow> unit res \<times> bytes" where
  "write_recovery_snapshot os sha256 spec terms frames file =
     (case snapshot_body frames of
        Inl e \<Rightarrow> (Inl e, file)
      | Inr body \<Rightarrow>
          if body = [] then release_snapshot_region os spec file
          else snapshot_region os spec (SNAPSHOT_HEADER_size + length body) (write_region os sha256 terms body) file)"

text \<open>The frames a body yields, and the error that ends them, if one does.\<close>

lemma take_frame_shorter: "take_frame bs = Inr (f, rest) \<Longrightarrow> length rest < length bs"
  by (auto simp: take_frame_def frame_consts split: if_splits prod.splits)

function snapshot_frames :: "bytes \<Rightarrow> frame list \<times> exn option" where
  "snapshot_frames bs =
     (if bs = [] then ([], None)
      else case take_frame bs of
        Inl e \<Rightarrow> ([], Some e)
      | Inr (f, rest) \<Rightarrow> (case snapshot_frames rest of (fs, e) \<Rightarrow> (f # fs, e)))"
  by pat_completeness auto
termination
  by (relation "measure length") (auto simp: take_frame_shorter)

declare snapshot_frames.simps [simp del]

definition read_recovery_snapshot ::
  "pool_os \<Rightarrow> (bytes \<Rightarrow> bytes) \<Rightarrow> KVCRPoolSpec \<Rightarrow> bytes \<Rightarrow> bytes \<Rightarrow> frame list \<times> exn option" where
  "read_recovery_snapshot os sha256 spec terms file =
     (case mapped_snapshot os spec file of
        Inl e \<Rightarrow> ([], Some e)
      | Inr None \<Rightarrow> ([], None)
      | Inr (Some region) \<Rightarrow>
          if length region < SNAPSHOT_HEADER_size
          then ([], Some (RecoveryJournalTornError ''handback region is truncated''))
          else
            let digest = slice 0 32 region; sz = le_value (slice 32 8 region) in
            if sz = 0 then ([], Some (RecoveryJournalTornError ''handback region is unfinished''))
            else if sz > length region - SNAPSHOT_HEADER_size
            then ([], Some (RecoveryJournalTornError ''handback region length disagrees''))
            else if digest \<noteq> snapshot_digest sha256 terms region SNAPSHOT_HEADER_size sz
            then ([], Some (RecoveryJournalError ''handback region is unfinished or was written for other terms''))
            else snapshot_frames (slice SNAPSHOT_HEADER_size sz region))"

text \<open>The frames are applied as they are yielded; a torn region is given back and replaced by an empty mirror.\<close>

definition read_handback ::
  "pool_os \<Rightarrow> (bytes \<Rightarrow> bytes) \<Rightarrow> (PoolDescriptor list \<Rightarrow> bytes) \<Rightarrow> (bytes \<Rightarrow> recovery_block decoded) \<Rightarrow>
   KVCRPoolSpec \<Rightarrow> string \<Rightarrow> PoolDescriptor list \<Rightarrow> bytes \<Rightarrow> mirror res \<times> bytes" where
  "read_handback os sha256 enc_pools dec spec compatibility_digest pools file =
     (let pool_names = map pd_name pools;
          terms = canonical_pool_terms enc_pools compatibility_digest pools spec
      in case read_recovery_snapshot os sha256 spec terms file of
        (frames, stop) \<Rightarrow>
          (case mirror_apply_all dec frames (mirror_init pool_names) of
             Inl e \<Rightarrow> (Inl e, file)
           | Inr m \<Rightarrow>
               (case stop of
                  None \<Rightarrow> (Inr m, file)
                | Some (RecoveryJournalTornError _) \<Rightarrow>
                    (case release_snapshot_region os spec file of
                       (Inl e, file') \<Rightarrow> (Inl e, file')
                     | (Inr _, file') \<Rightarrow> (Inr (mirror_init pool_names), file'))
                | Some e \<Rightarrow> (Inl e, file))))"

definition clear_recovery_snapshot :: "pool_os \<Rightarrow> KVCRPoolSpec \<Rightarrow> bytes \<Rightarrow> unit res \<times> bytes" where
  "clear_recovery_snapshot os spec file = release_snapshot_region os spec file"

subsection \<open>Records survive the wire\<close>

text \<open>The codec decodes what it encodes, for the blocks in \<open>B\<close>.\<close>

definition codec_ok :: "(recovery_block \<Rightarrow> bytes) \<Rightarrow> (bytes \<Rightarrow> recovery_block decoded) \<Rightarrow> recovery_block set \<Rightarrow> bool" where
  "codec_ok enc dec B \<longleftrightarrow> (\<forall>b \<in> B. dec (enc b) = Decoded b)"

definition digest_ok :: "(bytes \<Rightarrow> bytes) \<Rightarrow> bool" where
  "digest_ok sha256 \<longleftrightarrow> (\<forall>x. length (sha256 x) = 32)"

text \<open>A record that the decoder accepts: what it names lies in the pools, and its position is one.\<close>

definition wire_ok :: "string list \<Rightarrow> recovery_block \<Rightarrow> bool" where
  "wire_ok pool_names b \<longleftrightarrow> block_valid b \<and>
     (case rb_g3 b of None \<Rightarrow> True | Some (layout, _) \<Rightarrow> labels_ok pool_names {} layout) \<and>
     (case rb_g2 b of None \<Rightarrow> True | Some locations \<Rightarrow> labels_ok pool_names {} (map fst locations))"

definition block_to_record :: "recovery_block \<Rightarrow> residency block_record" where
  "block_to_record b = new_record
     \<lparr>local_dram := map_option (\<lambda>locations. make_residency locations READY None None) (rb_g2 b),
      g3 := map_option (\<lambda>(layout, sl). \<lparr>g3_id = 0, g3_layout = layout, g3_slots = sl, g3_claim_count = 0\<rparr>) (rb_g3 b),
      rec_position := rb_position b\<rparr>"

lemma decode_recovery_record_iff:
  "decode_recovery_record dec payload names = Inr rec \<longleftrightarrow>
   (\<exists>b. dec payload = Decoded b \<and> wire_ok names b \<and> rec = block_to_record b)"
  by (auto simp: decode_recovery_record_def decode_block_def wire_ok_def block_to_record_def bindR_eq_Inr
      split: decoded.splits if_splits option.splits prod.splits)

lemma make_residency_READY:
  "complete_residency (make_residency sl READY lay wr)" "slots (make_residency sl READY lay wr) = sl"
  "claim_count (make_residency sl READY lay wr) = 0" "source_readers (make_residency sl READY lay wr) = 0"
  "\<not> retire_on_release (make_residency sl READY lay wr)"
  by (simp_all add: make_residency_def complete_residency_def pending_def)

lemma project_block_to_record [simp]: "project_recovery_record (block_to_record b) = b"
  by (cases b) (auto simp: project_recovery_record_def block_to_record_def make_residency_READY split: option.split)

lemma clean_block_to_record [simp]: "clean_record (block_to_record b)"
  by (simp add: clean_record_def block_to_record_def make_residency_READY split: option.split)

lemma complete_adopt [simp]:
  "complete_residency (adopt_residency_state r) = complete_residency r" "slots (adopt_residency_state r) = slots r"
  by (simp_all add: adopt_residency_state_def complete_residency_def pending_def)

lemma project_adopt_record [simp]: "project_recovery_record (adopt_record rec) = project_recovery_record rec"
  by (auto simp: project_recovery_record_def adopt_record_def split: option.split)

lemma recoverable_adopt_record [simp]: "is_recoverable (adopt_record rec) = is_recoverable rec"
  by (auto simp: is_recoverable_def adopt_record_def split: option.split)

lemma recoverable_project:
  "is_recoverable rec \<longleftrightarrow> rb_g2 (project_recovery_record rec) \<noteq> None \<or> rb_g3 (project_recovery_record rec) \<noteq> None"
  by (auto simp: is_recoverable_def project_recovery_record_def split: option.split)

text \<open>What one published block does to the table of a mirror.\<close>

definition mirror_put :: "key \<times> recovery_block \<Rightarrow> records \<Rightarrow> records" where
  "mirror_put = (\<lambda>(k, b) records.
     if rb_g2 b = None \<and> rb_g3 b = None then AList.delete k records else AList.update k (block_to_record b) records)"

lemma mirror_apply_block:
  assumes "dec (enc b) = Decoded b" "wire_ok (mirror_pool_names m) b"
  shows "mirror_apply dec (RECORD_BLOCK, k, enc b) m = Inr (m\<lparr>mirror_records := mirror_put (k, b) (mirror_records m)\<rparr>)"
proof -
  have "decode_recovery_record dec (enc b) (mirror_pool_names m) = Inr (block_to_record b)"
    using assms by (auto simp: decode_recovery_record_iff)
  then show ?thesis by (auto simp: mirror_apply_def mirror_put_def block_to_record_def new_record_def)
qed

lemma mirror_apply_blocks:
  assumes "codec_ok enc dec (snd ` set obs)" "list_all (\<lambda>(k, b). wire_ok (mirror_pool_names m) b) obs"
  shows "mirror_apply_all dec (map (\<lambda>(k, b). (RECORD_BLOCK, k, enc b)) obs) m =
    Inr (m\<lparr>mirror_records := fold mirror_put obs (mirror_records m)\<rparr>)"
  using assms
proof (induction obs arbitrary: m)
  case (Cons o' obs)
  obtain k b where o': "o' = (k, b)" by fastforce
  show ?case
    using Cons mirror_apply_block [of dec enc b m k] by (simp add: o' codec_ok_def)
qed simp

lemma fold_mirror_put_map_of:
  "map_of (fold mirror_put obs records) k =
    (case map_of (rev obs) k of
       None \<Rightarrow> map_of records k
     | Some b \<Rightarrow> if rb_g2 b = None \<and> rb_g3 b = None then None else Some (block_to_record b))"
  by (induction obs arbitrary: records)
    (auto simp: mirror_put_def map_add_def split: option.split)

text \<open>Every frame that a mirror accepts leaves it well formed: a dict of clean records that name usable bytes.\<close>

definition mirror_ok :: "mirror \<Rightarrow> bool" where
  "mirror_ok m \<longleftrightarrow> dict_wf (mirror_records m) \<and> list_all (clean_record \<circ> snd) (mirror_records m) \<and>
     list_all (is_recoverable \<circ> snd) (mirror_records m)"

lemma list_all_update: "list_all (P \<circ> snd) d \<Longrightarrow> P v \<Longrightarrow> list_all (P \<circ> snd) (AList.update k v d)"
  by (induction d) auto

lemma list_all_delete: "list_all P d \<Longrightarrow> list_all P (AList.delete k d)"
  by (simp add: AList.delete_eq list_all_iff)

lemma mirror_init_ok [simp]: "mirror_ok (mirror_init names)"
  by (simp add: mirror_ok_def mirror_init_def)

lemma block_to_record_empty:
  "local_dram (block_to_record b) = None \<and> g3 (block_to_record b) = None \<longleftrightarrow> \<not> is_recoverable (block_to_record b)"
proof -
  have "\<not> is_recoverable (block_to_record b) \<longleftrightarrow> rb_g2 b = None \<and> rb_g3 b = None"
    unfolding recoverable_project project_block_to_record by argo
  moreover have "local_dram (block_to_record b) = None \<and> g3 (block_to_record b) = None \<longleftrightarrow> rb_g2 b = None \<and> rb_g3 b = None"
    unfolding block_to_record_def by simp
  ultimately show ?thesis by argo
qed

lemma mirror_apply_ok: "mirror_ok m \<Longrightarrow> mirror_apply dec f m = Inr m' \<Longrightarrow> mirror_ok m'"
  by (cases f)
    (auto simp: mirror_apply_def mirror_ok_def decode_recovery_record_iff list_all_update list_all_delete
      block_to_record_empty split: if_splits sum.splits)

lemma mirror_apply_all_ok: "mirror_ok m \<Longrightarrow> mirror_apply_all dec fs m = Inr m' \<Longrightarrow> mirror_ok m'"
  by (induction fs arbitrary: m) (auto simp: bindR_eq_Inr intro: mirror_apply_ok)

lemma clean_adopt_record: "clean_record (adopt_record rec)"
  by (simp add: clean_record_def adopt_record_def adopt_residency_state_def split: option.split)

lemma mirror_adopt_ok: "dict_wf records \<Longrightarrow> mirror_ok (mirror_adopt records m)"
  by (auto simp: mirror_ok_def mirror_adopt_def dict_wf_def list_all_iff clean_adopt_record comp_def case_prod_beta
      intro!: distinct_map_filter)

lemma read_handback_ok:
  assumes "read_handback os sha256 enc_pools dec spec digest pools file = (Inr m, file')"
  shows "mirror_ok m"
  using assms mirror_apply_all_ok [OF mirror_init_ok]
  by (auto simp: read_handback_def Let_def split: prod.splits sum.splits option.splits exn.splits)


subsection \<open>The handback region round trip\<close>

lemma snapshot_body_eq: "list_all frame_ok fs \<Longrightarrow> snapshot_body fs = Inr (concat (map put_frame fs))"
  by (induction fs rule: snapshot_body.induct) (auto simp: frame_ok_def put_frame_def)

lemma put_frame_nonempty: "put_frame f \<noteq> []"
  by (cases f) (simp add: put_frame_layout frame_header_def le_bytes_2)

lemma snapshot_frames_concat: "list_all frame_ok fs \<Longrightarrow> snapshot_frames (concat (map put_frame fs)) = (fs, None)"
proof (induction fs)
  case Nil
  show ?case by (simp add: snapshot_frames.simps)
next
  case (Cons f fs)
  then show ?case
    using put_frame_nonempty [of f] take_put_frame [of f "concat (map put_frame fs)"]
    by (subst snapshot_frames.simps) simp
qed

lemma snapshot_region_result:
  assumes "snapshot_region os spec sz body bs = (Inr (), bs')"
  shows "\<exists>region region' rest. length region = memmap_align os sz \<and> body region = (Inr (), region') \<and>
    (length region' = length region \<longrightarrow> drop (region_offset os (mapping_bytes spec)) bs' = region' @ rest)"
proof -
  let ?o = "region_offset os (mapping_bytes spec)" and ?n = "memmap_align os sz"
  obtain c where c: "truncate_file os (?o + ?n) bs = (Inr (), c)" "region_block os ?o ?n body c = (Inr (), bs')"
    using assms by (auto simp: snapshot_region_def Let_def split: prod.splits sum.splits)
  have lc: "length c = ?o + ?n" using truncate_file_length [OF c(1)] by simp
  obtain d region' where d: "populate_pages os ?o ?n c = (Inr (), d)" "body (slice ?o ?n d) = (Inr (), region')"
    "bs' = slice_set ?o region' d"
    using c(2) by (auto simp: region_block_def split: prod.splits sum.splits option.splits)
  have ld: "?o + ?n \<le> length d" using populate_pages_keeps(2) [OF d(1)] lc by simp
  then have "length (slice ?o ?n d) = ?n" by simp
  moreover have "drop ?o bs' = region' @ drop (?o + length region') d" if "length region' = ?n"
    using ld that by (simp add: d(3) slice_set_def)
  ultimately show ?thesis using d(2) by (metis (full_types))
qed

lemma write_region_result:
  assumes "write_region os sha256 terms body region = (Inr (), region')" "digest_ok sha256"
    "SNAPSHOT_HEADER_size + length body \<le> length region"
  shows "length region' = length region" "slice 0 32 (region' @ rest) = sha256 (terms @ body)"
    "slice 32 8 (region' @ rest) = le_bytes 8 (length body)"
    "slice SNAPSHOT_HEADER_size (length body) (region' @ rest) = body"
proof -
  let ?h = "snapshot_header sha256 terms body"
  have h: "length ?h = SNAPSHOT_HEADER_size" "length (sha256 (terms @ body)) = 32"
    using assms(2) by (simp_all add: snapshot_header_def digest_ok_def SNAPSHOT_HEADER_size_def)
  have "region' = slice_set 0 ?h (slice_set SNAPSHOT_HEADER_size body (slice_set 0 (replicate SNAPSHOT_HEADER_size 0) region))"
    using assms(1) by (auto simp: write_region_def Let_def split: option.splits)
  then have r: "region' = ?h @ body @ drop (SNAPSHOT_HEADER_size + length body) region"
    using assms(3) h by (simp add: slice_set_def add.commute)
  show "length region' = length region" using assms(3) h by (simp add: r)
  show "slice 0 32 (region' @ rest) = sha256 (terms @ body)" "slice 32 8 (region' @ rest) = le_bytes 8 (length body)"
    using h(2) by (simp_all add: r slice_def snapshot_header_def)
  show "slice SNAPSHOT_HEADER_size (length body) (region' @ rest) = body"
    using h(1) by (simp add: r slice_def)
qed

text \<open>The region that a successful write leaves, as a reader maps it.\<close>

definition holds_snapshot :: "(bytes \<Rightarrow> bytes) \<Rightarrow> bytes \<Rightarrow> bytes \<Rightarrow> bytes \<Rightarrow> bool" where
  "holds_snapshot sha256 terms body region \<longleftrightarrow> SNAPSHOT_HEADER_size + length body \<le> length region \<and>
     slice 0 32 region = sha256 (terms @ body) \<and> slice 32 8 region = le_bytes 8 (length body) \<and>
     slice SNAPSHOT_HEADER_size (length body) region = body"

lemma read_recovery_snapshot_of:
  assumes "mapped_snapshot os spec file = Inr (Some region)" "holds_snapshot sha256 terms body region"
    "body \<noteq> []" "length body < 2 ^ 64"
  shows "read_recovery_snapshot os sha256 spec terms file = snapshot_frames body"
proof -
  have "le_value (le_bytes 8 (length body)) = length body" using assms(4) by (simp add: le_roundtrip)
  then show ?thesis
    using assms by (auto simp: read_recovery_snapshot_def holds_snapshot_def snapshot_digest_def Let_def)
qed

lemma mapped_snapshot_after_write:
  assumes w: "snapshot_region os spec (SNAPSHOT_HEADER_size + length body) (write_region os sha256 terms body) file = (Inr (), file')"
    and d: "digest_ok sha256" and m: "\<And>a b. map_error os a b = None"
  shows "\<exists>region. mapped_snapshot os spec file' = Inr (Some region) \<and> holds_snapshot sha256 terms body region"
proof -
  let ?o = "region_offset os (mapping_bytes spec)"
  obtain region region' rest where r: "length region = memmap_align os (SNAPSHOT_HEADER_size + length body)"
    "write_region os sha256 terms body region = (Inr (), region')"
    "length region' = length region \<longrightarrow> drop ?o file' = region' @ rest"
    using snapshot_region_result [OF w] by blast
  have l: "SNAPSHOT_HEADER_size + length body \<le> length region" using r(1) memmap_align_ge by simp
  note wr = write_region_result [OF r(2) d l]
  have dr: "drop ?o file' = region' @ rest" using r(3) wr(1) by simp
  have "\<not> length file' \<le> ?o" using dr l wr(1) by (auto simp: SNAPSHOT_HEADER_size_def)
  then have "mapped_snapshot os spec file' = Inr (Some (region' @ rest))"
    using dr m by (simp add: mapped_snapshot_def Let_def)
  moreover have "holds_snapshot sha256 terms body (region' @ rest)"
    using wr l by (simp add: holds_snapshot_def)
  ultimately show ?thesis by blast
qed

lemma release_then_none:
  "release_snapshot_region os spec file = (Inr (), file') \<Longrightarrow> mapped_snapshot os spec file' = Inr None"
  by (auto simp: release_snapshot_region_def mapped_snapshot_def Let_def dest: truncate_file_length)

text \<open>Reading returns the frames that were written, in order, whatever the region held before.\<close>

lemma snapshot_roundtrip:
  assumes w: "write_recovery_snapshot os sha256 spec terms frames file = (Inr (), file')"
    and ok: "list_all frame_ok frames" and sz: "length (concat (map put_frame frames)) < 2 ^ 64"
    and d: "digest_ok sha256" and m: "\<And>a b. map_error os a b = None"
  shows "read_recovery_snapshot os sha256 spec terms file' = (frames, None)"
proof (cases "frames = []")
  case True
  then have "mapped_snapshot os spec file' = Inr None"
    using w release_then_none by (simp add: write_recovery_snapshot_def)
  then show ?thesis using True by (simp add: read_recovery_snapshot_def)
next
  case False
  let ?b = "concat (map put_frame frames)"
  have ne: "?b \<noteq> []" using False put_frame_nonempty by (cases frames) auto
  have "snapshot_region os spec (SNAPSHOT_HEADER_size + length ?b) (write_region os sha256 terms ?b) file = (Inr (), file')"
    using w ne unfolding write_recovery_snapshot_def snapshot_body_eq [OF ok] by (simp del: concat_eq_Nil_conv)
  from mapped_snapshot_after_write [OF this d m] obtain region
    where "mapped_snapshot os spec file' = Inr (Some region)" "holds_snapshot sha256 terms ?b region" by blast
  from read_recovery_snapshot_of [OF this ne sz] show ?thesis by (simp add: snapshot_frames_concat [OF ok])
qed

subsection \<open>A write that is interrupted\<close>

text \<open>
  The stores of \<open>write_region\<close> byte by byte, as another process would find them if the writer died: the
  region after the first \<open>n\<close> bytes.
\<close>

definition byte_stores :: "nat \<Rightarrow> bytes \<Rightarrow> (nat \<times> byte) list" where
  "byte_stores start data = zip [start..<start + length data] data"

definition region_stores :: "(bytes \<Rightarrow> bytes) \<Rightarrow> bytes \<Rightarrow> bytes \<Rightarrow> (nat \<times> byte) list" where
  "region_stores sha256 terms body =
     byte_stores 0 (replicate SNAPSHOT_HEADER_size 0) @ byte_stores SNAPSHOT_HEADER_size body @
     byte_stores 0 (snapshot_header sha256 terms body)"

definition interrupted_region :: "(bytes \<Rightarrow> bytes) \<Rightarrow> bytes \<Rightarrow> bytes \<Rightarrow> nat \<Rightarrow> bytes \<Rightarrow> bytes" where
  "interrupted_region sha256 terms body n region = fold (\<lambda>(i, b) r. r[i := b]) (take n (region_stores sha256 terms body)) region"

abbreviation store_bytes :: "(nat \<times> byte) list \<Rightarrow> bytes \<Rightarrow> bytes" where
  "store_bytes \<equiv> fold (\<lambda>(i, b) r. r[i := b])"

lemma length_store_bytes [simp]: "length (store_bytes ws r) = length r"
  by (induction ws arbitrary: r) (auto simp: case_prod_beta)

lemma store_bytes_nth:
  "i < length r \<Longrightarrow> store_bytes ws r ! i = (case map_of (rev ws) i of None \<Rightarrow> r ! i | Some b \<Rightarrow> b)"
  by (induction ws arbitrary: r) (auto simp: map_add_def split: option.split)

lemma byte_stores_simps [simp]:
  "byte_stores start [] = []" "byte_stores start (b # data) = (start, b) # byte_stores (Suc start) data"
  by (simp_all add: byte_stores_def upt_conv_Cons del: upt_Suc)

lemma length_byte_stores [simp]: "length (byte_stores start data) = length data"
  by (simp add: byte_stores_def)

lemma byte_stores_slice:
  assumes "start + length data \<le> length r"
  shows "store_bytes (byte_stores start data) r = slice_set start data r"
  using assms
proof (induction data arbitrary: start r)
  case (Cons b data)
  have "store_bytes (byte_stores start (b # data)) r = slice_set (Suc start) data (r[start := b])"
    using Cons by simp
  also have "\<dots> = slice_set start (b # data) r"
    using Cons(2) by (simp add: slice_set_def take_Suc_conv_app_nth)
  finally show ?case .
qed (simp add: slice_set_def)

lemma take_byte_stores: "take n (byte_stores start data) = byte_stores start (take n data)"
  by (induction data arbitrary: n start) (simp_all add: take_Cons split: nat.split)

text \<open>All the stores give what \<open>write_region\<close> leaves.\<close>

lemma region_stores_complete:
  assumes "digest_ok sha256" "SNAPSHOT_HEADER_size + length body \<le> length region" "write_region os sha256 terms body region = (Inr (), region')"
  shows "store_bytes (region_stores sha256 terms body) region = region'"
proof -
  have "length (snapshot_header sha256 terms body) = SNAPSHOT_HEADER_size"
    using assms(1) by (simp add: snapshot_header_def digest_ok_def SNAPSHOT_HEADER_size_def)
  then show ?thesis
    using assms(2,3) by (auto simp: region_stores_def byte_stores_slice write_region_def Let_def split: option.splits)
qed

text \<open>Once the old header is gone and until the new length lands, the length field is zero.\<close>

lemma interrupted_length_zero:
  assumes d: "digest_ok sha256" and l: "SNAPSHOT_HEADER_size + length body \<le> length region"
    and n: "SNAPSHOT_HEADER_size \<le> n" "n \<le> SNAPSHOT_HEADER_size + length body + 32"
  shows "slice 32 8 (interrupted_region sha256 terms body n region) = replicate 8 0"
proof -
  let ?z = "byte_stores 0 (replicate SNAPSHOT_HEADER_size 0) :: (nat \<times> byte) list"
  let ?r = "slice_set 0 (replicate SNAPSHOT_HEADER_size 0) region"
  define ws where "ws = byte_stores SNAPSHOT_HEADER_size (take (n - SNAPSHOT_HEADER_size) body) @
    byte_stores 0 (take (n - SNAPSHOT_HEADER_size - length body) (snapshot_header sha256 terms body))"
  have i: "interrupted_region sha256 terms body n region = store_bytes ws ?r"
    using n(1) l by (simp add: interrupted_region_def region_stores_def ws_def take_byte_stores byte_stores_slice)
  have "map_of (rev ws) j = None" if "32 \<le> j" "j < 40" for j
  proof -
    have "j \<notin> fst ` set ws"
      using that n(2) by (auto simp: ws_def byte_stores_def SNAPSHOT_HEADER_size_def set_zip)
    then show ?thesis by (simp add: map_of_eq_None_iff)
  qed
  moreover have "?r ! j = 0" if "j < 40" for j
    using that l by (simp add: slice_set_def nth_append SNAPSHOT_HEADER_size_def)
  moreover have "length ?r = length region" "40 \<le> length region"
    using l by (simp_all add: SNAPSHOT_HEADER_size_def)
  ultimately show ?thesis
    by (intro nth_equalityI) (simp_all add: i nth_slice store_bytes_nth)
qed

lemma le_value_zeros: "le_value (replicate n 0) = 0"
  by (induction n) simp_all

lemma read_interrupted:
  assumes "digest_ok sha256" "SNAPSHOT_HEADER_size + length body \<le> length region"
    "SNAPSHOT_HEADER_size \<le> n" "n \<le> SNAPSHOT_HEADER_size + length body + 32"
    "mapped_snapshot os spec file = Inr (Some (interrupted_region sha256 terms body n region))"
  shows "read_recovery_snapshot os sha256' spec terms' file =
    ([], Some (RecoveryJournalTornError ''handback region is unfinished''))"
proof -
  have "length (interrupted_region sha256 terms body n region) = length region"
    by (simp add: interrupted_region_def)
  then show ?thesis
    using assms(2,5) by (simp add: read_recovery_snapshot_def interrupted_length_zero [OF assms(1-4)] le_value_zeros Let_def)
qed

subsection \<open>The two carriers of recovered state\<close>

abbreviation projected :: "records \<Rightarrow> (key \<times> recovery_block) list" where
  "projected records \<equiv> map (\<lambda>(k, rec). (k, project_recovery_record rec)) records"

abbreviation recoverable_blocks :: "records \<Rightarrow> (key \<times> recovery_block) list" where
  "recoverable_blocks records \<equiv> projected (filter (\<lambda>(k, rec). is_recoverable rec) records)"

lemma recovery_frames_blocks:
  "recovery_frames enc records = map (\<lambda>(k, b). (RECORD_BLOCK, k, enc b)) (recoverable_blocks records)"
  by (simp add: recovery_frames_def case_prod_beta comp_def)

lemma fold_mirror_put_distinct:
  assumes "distinct (map fst obs)" "fst ` set obs \<inter> fst ` set records = {}"
    "list_all (\<lambda>(k, b). \<not> (rb_g2 b = None \<and> rb_g3 b = None)) obs"
  shows "fold mirror_put obs records = records @ map (\<lambda>(k, b). (k, block_to_record b)) obs"
  using assms
proof (induction obs arbitrary: records)
  case (Cons o' obs)
  obtain k b where o': "o' = (k, b)" by fastforce
  have "k \<notin> fst ` set records" using Cons(3) by (auto simp: o')
  then have "AList.update k (block_to_record b) records = records @ [(k, block_to_record b)]"
    by (induction records) auto
  then have "mirror_put o' records = records @ [(k, block_to_record b)]"
    using Cons(4) by (auto simp: o' mirror_put_def)
  moreover have "fst ` set obs \<inter> fst ` set (records @ [(k, block_to_record b)]) = {}"
    using Cons(2,3) by (auto simp: o')
  ultimately show ?case using Cons by (simp add: o')
qed simp

lemma snapshot_body_Inr: "snapshot_body fs = Inr body \<Longrightarrow> fst ` set fs \<subseteq> RECORD_TYPES \<Longrightarrow> list_all frame_ok fs"
  by (induction fs arbitrary: body rule: snapshot_body.induct)
    (auto simp: frame_ok_def bindR_eq_Inr split: if_splits)

lemma written_frames_ok:
  assumes "write_recovery_snapshot os sha256 spec terms (recovery_frames enc records) file = (Inr (), file')"
  shows "list_all frame_ok (recovery_frames enc records)"
proof -
  obtain body where "snapshot_body (recovery_frames enc records) = Inr body"
    using assms by (auto simp: write_recovery_snapshot_def split: sum.splits)
  moreover have "fst ` set (recovery_frames enc records) \<subseteq> RECORD_TYPES"
    by (auto simp: recovery_frames_def RECORD_TYPES_def)
  ultimately show ?thesis by (rule snapshot_body_Inr)
qed

text \<open>The records a reader rebuilds from the frames of a table.\<close>

lemma replay_frames:
  assumes "codec_ok enc dec (snd ` set (recoverable_blocks records))" "dict_wf records"
    "list_all (\<lambda>(k, b). wire_ok names b) (recoverable_blocks records)"
  shows "mirror_apply_all dec (recovery_frames enc records) (mirror_init names) =
    Inr \<lparr>mirror_pool_names = names, mirror_records = map (\<lambda>(k, b). (k, block_to_record b)) (recoverable_blocks records)\<rparr>"
proof -
  have "distinct (map fst (recoverable_blocks records))"
    using assms(2) by (simp add: dict_wf_def comp_def case_prod_beta distinct_map_filter)
  moreover have "list_all (\<lambda>(k, b). \<not> (rb_g2 b = None \<and> rb_g3 b = None)) (recoverable_blocks records)"
    by (auto simp: list_all_iff recoverable_project)
  ultimately have "fold mirror_put (recoverable_blocks records) [] =
      map (\<lambda>(k, b). (k, block_to_record b)) (recoverable_blocks records)"
    using fold_mirror_put_distinct [of "recoverable_blocks records" "[]"] by simp
  then show ?thesis
    unfolding recovery_frames_blocks using mirror_apply_blocks [OF assms(1), of "mirror_init names"] assms(3)
    by (simp add: mirror_init_def)
qed

text \<open>
  C6. The two carriers of recovered state agree: a table of records that a Guard writes to the handback
  region and the same table that it keeps in its mirror describe the same blocks, in the same order and
  with the same slots, so a replacement recovers the same cache whichever of the two it is given.
\<close>

theorem both_carriers_agree:
  assumes "dict_wf records"
    and "write_recovery_snapshot os sha256 spec (canonical_pool_terms enc_pools digest pools spec)
      (recovery_frames enc records) file = (Inr (), file')"
    and "codec_ok enc dec (snd ` set (recoverable_blocks records))" and "digest_ok sha256"
    and "\<And>a b. map_error os a b = None"
    and "list_all (\<lambda>(k, b). wire_ok (map pd_name pools) b) (recoverable_blocks records)"
    and "length (concat (map put_frame (recovery_frames enc records))) < 2 ^ 64"
  shows "\<exists>m. read_handback os sha256 enc_pools dec spec digest pools file' = (Inr m, file') \<and>
    projected (mirror_records m) = projected (mirror_records (mirror_adopt records m0))"
proof -
  have "read_recovery_snapshot os sha256 spec (canonical_pool_terms enc_pools digest pools spec) file' =
      (recovery_frames enc records, None)"
    by (rule snapshot_roundtrip [OF assms(2) written_frames_ok [OF assms(2)] assms(7,4,5)])
  then have "read_handback os sha256 enc_pools dec spec digest pools file' =
      (Inr \<lparr>mirror_pool_names = map pd_name pools,
         mirror_records = map (\<lambda>(k, b). (k, block_to_record b)) (recoverable_blocks records)\<rparr>, file')"
    using replay_frames [OF assms(3,1,6)] by (simp add: read_handback_def Let_def)
  moreover have "projected (mirror_records (mirror_adopt records m0)) = recoverable_blocks records"
    unfolding case_prod_unfold mirror_adopt_def by (simp add: comp_def filter_map case_prod_unfold)
  ultimately show ?thesis by (simp add: comp_def case_prod_beta)
qed

text \<open>A pool of one block, its slots journalled as one record, and an operating system that grants every call.\<close>

definition sample_os :: pool_os where
  "sample_os = \<lparr>page_size = 4096, granularity = 8, huge_page = 0, fallocate = Some None, pwrite = (\<lambda>_ n. Inr n),
     truncate_error = (\<lambda>_. None), map_error = (\<lambda>_ _. None), flush_error = (\<lambda>_. None)\<rparr>"

definition small_spec :: KVCRPoolSpec where
  "small_spec = \<lparr>pool_id = ''p'', path = ''/p'', generation = ''0a'', device = 1, inode = 2, mapping_bytes = 3, journal_bytes = 2\<rparr>"

definition ready_record :: "residency block_record" where
  "ready_record = new_record\<lparr>local_dram := Some (make_residency [(''k'', 4)] READY None None)\<rparr>"

definition ready_block :: recovery_block where
  "ready_block = \<lparr>rb_g2 = Some [(''k'', 4)], rb_g3 = None, rb_position = -1\<rparr>"

definition sample_dec :: "bytes \<Rightarrow> recovery_block decoded" where
  "sample_dec bs = (if bs = [9] then Decoded ready_block else DecodeError)"

definition sample_table :: records where
  "sample_table = [([7], ready_record), ([8], new_record)]"

abbreviation sample_write :: "unit res \<times> bytes" where
  "sample_write \<equiv> write_recovery_snapshot sample_os (\<lambda>_. replicate 32 5) small_spec
     (canonical_pool_terms (\<lambda>_. []) '''' (take 1 sample_pools) small_spec) (recovery_frames (\<lambda>_. [9]) sample_table) [1, 2, 3]"

lemma ready_record_project: "project_recovery_record ready_record = ready_block"
  by (simp add: ready_record_def project_recovery_record_def make_residency_READY ready_block_def new_record_def)

lemma sample_table_blocks: "recoverable_blocks sample_table = [([7], ready_block)]"
proof -
  have "is_recoverable ready_record" "\<not> is_recoverable new_record"
    by (simp_all add: is_recoverable_def ready_record_def make_residency_READY new_record_def)
  then show ?thesis by (simp add: sample_table_def ready_record_project)
qed

lemma sample_frames: "recovery_frames (\<lambda>_. [9]) sample_table = [(RECORD_BLOCK, [7], [9])]"
  by (simp add: recovery_frames_blocks sample_table_blocks)

text \<open>With an operating system that grants every call, a write succeeds.\<close>

lemma write_snapshot_granted:
  assumes "list_all frame_ok frames" "\<And>n. truncate_error os n = None" "\<And>a b. map_error os a b = None"
    "\<And>n. flush_error os n = None" "fallocate os = Some None"
  shows "fst (write_recovery_snapshot os sha256 spec terms frames file) = Inr ()"
  unfolding write_recovery_snapshot_def snapshot_body_eq [OF assms(1)]
  by (simp add: release_snapshot_region_def truncate_file_def snapshot_region_def region_block_def populate_pages_def
      write_region_def Let_def assms(2-5))

lemma sample_write_ok: "fst sample_write = Inr ()"
  by (rule write_snapshot_granted) (simp_all add: sample_frames sample_os_def frame_ok_def frame_size_def frame_consts)

theorem both_carriers_agree_witness:
  "\<exists>m. read_handback sample_os (\<lambda>_. replicate 32 5) (\<lambda>_. []) sample_dec small_spec '''' (take 1 sample_pools) (snd sample_write)
      = (Inr m, snd sample_write) \<and>
    projected (mirror_records m) = projected (mirror_records (mirror_adopt sample_table (mirror_init [])))"
proof (rule both_carriers_agree [where enc = "\<lambda>_. [9]"])
  show "sample_write = (Inr (), snd sample_write)" using sample_write_ok by (cases sample_write) simp
  show "dict_wf sample_table" by (simp add: dict_wf_def sample_table_def)
  show "codec_ok (\<lambda>_. [9]) sample_dec (snd ` set (recoverable_blocks sample_table))"
    unfolding sample_table_blocks by (simp add: codec_ok_def sample_dec_def)
  show "digest_ok (\<lambda>_. replicate 32 5)" by (simp add: digest_ok_def)
  show "map_error sample_os a b = None" for a b by (simp add: sample_os_def)
  show "list_all (\<lambda>(k, b). wire_ok (map pd_name (take 1 sample_pools)) b) (recoverable_blocks sample_table)"
    unfolding sample_table_blocks
    by (simp add: wire_ok_def block_valid_def ready_block_def sample_pools_def partition_label_def)
  show "length (concat (map put_frame (recovery_frames (\<lambda>_. [9]) sample_table))) < 2 ^ 64"
    unfolding sample_frames by (simp add: put_frame_layout frame_consts)
qed



subsection \<open>The mirror as a table of the last publications\<close>

text \<open>
  What a mirror promises: for each key the last block published, and nothing for a key whose last
  publication withdrew it.
\<close>

type_synonym publications = "key \<Rightarrow> recovery_block option"

definition spec_publish :: "key \<times> recovery_block \<Rightarrow> publications \<Rightarrow> publications" where
  "spec_publish = (\<lambda>(k, b) t. t(k := (if rb_g2 b = None \<and> rb_g3 b = None then None else Some b)))"

definition mirror_abs :: "mirror \<Rightarrow> publications" where
  "mirror_abs m = (\<lambda>k. map_option project_recovery_record (map_of (mirror_records m) k))"

text \<open>
  C8. A mirror that applies the published frames in order implements the table of last publications:
  no frame is refused, and afterwards every key has exactly the block of its last publication.
\<close>

theorem mirror_refines_publications:
  assumes "codec_ok enc dec (snd ` set obs)" and "list_all (\<lambda>(k, b). wire_ok (mirror_pool_names m) b) obs"
  shows "\<exists>m'. mirror_apply_all dec (map (\<lambda>(k, b). (RECORD_BLOCK, k, enc b)) obs) m = Inr m' \<and>
    mirror_abs m' = fold spec_publish obs (mirror_abs m)"
proof -
  have step: "map_option project_recovery_record (map_of (mirror_put (k, b) records) k') =
      spec_publish (k, b) (\<lambda>k. map_option project_recovery_record (map_of records k)) k'" for k b records k'
    by (simp add: mirror_put_def spec_publish_def)
  have "(\<lambda>k. map_option project_recovery_record (map_of (fold mirror_put obs records) k)) =
      fold spec_publish obs (\<lambda>k. map_option project_recovery_record (map_of records k))" for records
  proof (induction obs arbitrary: records)
    case (Cons o' obs)
    obtain k b where o': "o' = (k, b)" by fastforce
    show ?case by (simp add: Cons o' step)
  qed simp
  then show ?thesis using mirror_apply_blocks [OF assms] by (simp add: mirror_abs_def)
qed

theorem mirror_refines_publications_witness:
  "\<exists>m'. mirror_apply_all sample_dec [(RECORD_BLOCK, [7], [9]), (RECORD_BLOCK, [8], [9])] (mirror_init [''k'']) = Inr m' \<and>
    mirror_abs m' = fold spec_publish [([7], ready_block), ([8], ready_block)] (mirror_abs (mirror_init [''k'']))"
  using mirror_refines_publications [of "\<lambda>_. [9]" sample_dec "[([7], ready_block), ([8], ready_block)]" "mirror_init [''k'']"]
  by (simp add: codec_ok_def sample_dec_def wire_ok_def block_valid_def ready_block_def mirror_init_def partition_label_def)



text \<open>
  C23. Writing a handback, giving it back, or failing half way changes no byte of the pool: the journal
  and the cache before the region are what they were, whatever the operating system answers.
\<close>

theorem handback_leaves_pool:
  assumes "write_recovery_snapshot os sha256 spec terms frames file = (r, file')"
    and "mapping_bytes spec \<le> length file" and "0 < granularity os"
  shows "take (mapping_bytes spec) file' = take (mapping_bytes spec) file \<and> mapping_bytes spec \<le> length file'"
proof (cases "snapshot_body frames")
  case (Inl e)
  then show ?thesis using assms(1,2) by (simp add: write_recovery_snapshot_def)
next
  case (Inr body)
  have k: "mapping_bytes spec \<le> region_offset os (mapping_bytes spec)" by (rule region_offset_ge [OF assms(3)])
  show ?thesis
  proof (cases "body = []")
    case True
    then have t: "truncate_file os (region_offset os (mapping_bytes spec)) file = (r, file')"
      using assms(1) Inr by (simp add: write_recovery_snapshot_def release_snapshot_region_def)
    show ?thesis
      using truncate_file_below [OF t k assms(2)] truncate_file_length [OF t] k assms(2) by (simp split: if_splits)
  next
    case False
    then have "snapshot_region os spec (SNAPSHOT_HEADER_size + length body) (write_region os sha256 terms body) file = (r, file')"
      using assms(1) Inr by (simp add: write_recovery_snapshot_def)
    then show ?thesis by (rule snapshot_region_below [OF _ k assms(2)])
  qed
qed

theorem handback_leaves_pool_witness:
  "take 3 (snd sample_write) = [1, 2, 3]"
  using handback_leaves_pool [of sample_os "\<lambda>_. replicate 32 5" small_spec
      "canonical_pool_terms (\<lambda>_. []) '''' (take 1 sample_pools) small_spec" "recovery_frames (\<lambda>_. [9]) sample_table"
      "[1, 2, 3]" "fst sample_write" "snd sample_write"]
  by (simp add: small_spec_def sample_os_def)

end
