(* ===== verification/KVCR_Lease.thy ===== *)
theory KVCR_Lease
  imports KVCR_Recovery
begin

text \<open>
  The parts a Guard is made of (\<open>service/guard.py\<close>): the lease of a pool group with its control listener
  (\<open>_PoolLease\<close>) and the group's attachment, journal and mirror (\<open>_RecoveryState\<close>).

  The file of the pool is shared with the primary, so it is part of the state and anything may have
  been written to it between two calls. The journal lives at its head, the handback region at its end.
\<close>

subsection \<open>The lease\<close>

text \<open>A lease is the pidfd object of its holder; \<open>lease_id\<close> is the identity of that object.\<close>

record lease =
  lease_id :: nat
  incarnation :: "string option"

record pool_lease =
  current :: "lease option"
  listener :: bool
  bind_address :: "(string \<times> nat) option"

definition lease_init :: pool_lease where
  "lease_init = \<lparr>current = None, listener = False, bind_address = None\<rparr>"

definition is_current :: "lease \<Rightarrow> pool_lease \<Rightarrow> bool" where
  "is_current l p = (map_option lease_id (current p) = Some (lease_id l))"

definition clear_if_current :: "lease \<Rightarrow> pool_lease \<Rightarrow> pool_lease" where
  "clear_if_current l p = (if is_current l p then p\<lparr>current := None\<rparr> else p)"

text \<open>\<open>created\<close> is the answer of \<open>create_server\<close>; the result says whether this call created the listener.\<close>

definition lease_bind :: "unit res \<Rightarrow> string \<times> nat \<Rightarrow> (pool_lease, bool) sx" where
  "lease_bind created address = readS (\<lambda>p.
     if listener p then
       (if bind_address p \<noteq> Some address
        then raiseS (KVCRServiceError ''KVCR Guard answers on another address and cannot be moved'')
        else retS False)
     else case created of
       Inl _ \<Rightarrow> raiseS (KVCRServiceError ''KVCR Guard control listener is unavailable'')
     | Inr _ \<Rightarrow> thenS (modS (\<lambda>p. p\<lparr>listener := True, bind_address := Some address\<rparr>)) (retS True))"

definition unbind :: "unit res \<Rightarrow> pool_lease \<Rightarrow> exn option \<times> pool_lease" where
  "unbind closes p =
     ((if listener p then (case closes of Inl e \<Rightarrow> Some e | Inr _ \<Rightarrow> None) else None),
      p\<lparr>listener := False, bind_address := None\<rparr>)"

text \<open>Closing the holder's pidfd only logs a failure, so the holder always goes; a listener that will not close stays.\<close>

definition lease_close :: "unit res \<Rightarrow> (pool_lease, unit) sx" where
  "lease_close closes = readS (\<lambda>p.
     thenS (modS (\<lambda>p. p\<lparr>current := None\<rparr>))
       (if \<not> listener p then retS ()
        else case closes of
          Inl e \<Rightarrow> raiseS e
        | Inr _ \<Rightarrow> modS (\<lambda>p. p\<lparr>listener := False, bind_address := None\<rparr>)))"

subsection \<open>Records without and with their G3 half\<close>

definition without_g3 :: "records \<Rightarrow> records" where
  "without_g3 records =
     map (\<lambda>(k, rec). (k, rec\<lparr>g3 := None\<rparr>)) (filter (\<lambda>(k, rec). local_dram rec \<noteq> None) records)"

definition with_g3 :: "(key, g3_residency \<times> int) dict \<Rightarrow> records \<Rightarrow> records" where
  "with_g3 g3_records records =
     fold (\<lambda>(k, disk, pos) records.
       AList.update k (case map_of records k of
           None \<Rightarrow> new_record\<lparr>g3 := Some disk, rec_position := pos\<rparr>
         | Some rec \<Rightarrow> rec\<lparr>g3 := Some disk\<rparr>) records) g3_records records"

subsection \<open>The recovery state\<close>

record recovery_state =
  rs_spec :: KVCRPoolSpec
  rs_digest :: string
  rs_pool_sizes :: "int list"
  rs_pools :: "PoolDescriptor list"
  rs_attached :: bool
  rs_journal :: "journal option"
  rs_mirror :: "mirror option"
  rs_g3_records :: "(key, g3_residency \<times> int) dict"
  rs_file :: bytes

text \<open>The codecs, the digest and the operating system's answers to one operation.\<close>

record recovery_env =
  re_os :: pool_os
  re_sha256 :: "bytes \<Rightarrow> bytes"
  re_enc_pools :: "PoolDescriptor list \<Rightarrow> bytes"
  re_enc :: "recovery_block \<Rightarrow> bytes"
  re_dec :: "bytes \<Rightarrow> recovery_block decoded"
  re_attach :: "attachment res"
  re_unmap :: "unit res"

definition recovery_init :: "KVCRPoolSpec \<Rightarrow> string \<Rightarrow> int list \<Rightarrow> bytes \<Rightarrow> recovery_state" where
  "recovery_init spec digest sizes file =
     \<lparr>rs_spec = spec, rs_digest = digest, rs_pool_sizes = sizes, rs_pools = [], rs_attached = False,
      rs_journal = None, rs_mirror = None, rs_g3_records = [], rs_file = file\<rparr>"

definition rs_prepare :: "recovery_env \<Rightarrow> (recovery_state, unit) sx" where
  "rs_prepare env =
     bindS (liftR (re_attach env)) (\<lambda>_. modS (\<lambda>s. s\<lparr>rs_attached := True,
       rs_journal := Some (journal_init (journal_bytes (rs_spec s)))\<rparr>))"

text \<open>The descriptors of the pools, one after the other behind the journal.\<close>

fun descriptors_from :: "int \<Rightarrow> int list \<Rightarrow> pool_layouts \<Rightarrow> PoolDescriptor list res" where
  "descriptors_from offset (sz # szs) ((name, block) # ls) =
     bindR (pool_descriptor name sz block offset) (\<lambda>d.
       bindR (descriptors_from (offset + sz) szs ls) (\<lambda>ds. Inr (d # ds)))"
| "descriptors_from offset _ _ = Inr []"

definition rs_configure :: "recovery_env \<Rightarrow> pool_layouts \<Rightarrow> (recovery_state, unit) sx" where
  "rs_configure env pool_layouts = readS (\<lambda>s.
     if length pool_layouts \<noteq> length (rs_pool_sizes s)
     then raiseS (ValueError ''pool layout must match the number of pools in the Guard'')
     else bindS (liftR (descriptors_from (int (journal_bytes (rs_spec s))) (rs_pool_sizes s) pool_layouts)) (\<lambda>pools.
       bindS (case rs_mirror s of
                Some m \<Rightarrow> retS m
              | None \<Rightarrow>
                  (case read_handback (re_os env) (re_sha256 env) (re_enc_pools env) (re_dec env) (rs_spec s)
                      (rs_digest s) pools (rs_file s) of
                     (r, file) \<Rightarrow> thenS (modS (\<lambda>s. s\<lparr>rs_file := file\<rparr>)) (liftR r))) (\<lambda>m.
         modS (\<lambda>s. s\<lparr>rs_pools := pools, rs_mirror := Some m\<rparr>))))"

abbreviation rs_fresh_mirror :: "recovery_state \<Rightarrow> mirror" where
  "rs_fresh_mirror s \<equiv> mirror_init (map pd_name (rs_pools s))"

text \<open>An operation of the journal needs the attachment, whose mapping the journal holds.\<close>

definition with_journal :: "(journal \<Rightarrow> bytes \<Rightarrow> 'a \<times> bytes \<times> journal) \<Rightarrow> (recovery_state, 'a) sx" where
  "with_journal f = readS (\<lambda>s.
     case rs_journal s of
       None \<Rightarrow> raiseS (TypeError ''NoneType'')
     | Some j \<Rightarrow>
         (case f j (rs_file s) of (x, file, j') \<Rightarrow>
            thenS (modS (\<lambda>s. s\<lparr>rs_file := file, rs_journal := Some j'\<rparr>)) (retS x)))"

definition start_primary :: "(recovery_state, unit) sx" where
  "start_primary =
     thenS (modS (\<lambda>s. s\<lparr>rs_mirror := Some (case rs_mirror s of None \<Rightarrow> rs_fresh_mirror s | Some m \<Rightarrow> m)\<rparr>))
       (with_journal (\<lambda>j file. ((), reset file j)))"

text \<open>
  Frames are read and mirrored one by one: at most \<open>n\<close> of them. True means that the bound was reached,
  False that the journal was empty.
\<close>

fun replay :: "nat \<Rightarrow> (bytes \<Rightarrow> recovery_block decoded) \<Rightarrow> bytes \<Rightarrow> journal \<Rightarrow> mirror \<Rightarrow> bool res \<times> bytes \<times> journal \<times> mirror" where
  "replay 0 dec file j m = (Inr True, file, j, m)"
| "replay (Suc n) dec file j m =
     (case read_next file j of
        (Inl e, file', j') \<Rightarrow> (Inl e, file', j', m)
      | (Inr None, file', j') \<Rightarrow> (Inr False, file', j', m)
      | (Inr (Some f), file', j') \<Rightarrow>
          (case mirror_apply dec f m of
             Inl e \<Rightarrow> (Inl e, file', j', m)
           | Inr m' \<Rightarrow> replay n dec file' j' m'))"

definition POLL_BATCH :: nat where "POLL_BATCH = 64"

text \<open>The loops without a bound: a frame takes at least the alignment of the ring, so this many steps are enough.\<close>

definition replay_all :: "(bytes \<Rightarrow> recovery_block decoded) \<Rightarrow> bytes \<Rightarrow> journal \<Rightarrow> mirror \<Rightarrow> bool res \<times> bytes \<times> journal \<times> mirror" where
  "replay_all dec file j m =
     (case replay (Suc (capacity j div ALIGNMENT)) dec file j m of
        (Inr True, r) \<Rightarrow> (Inl OutOfFuel, r)
      | r \<Rightarrow> r)"

definition drop_recovery :: "(recovery_state, unit) sx" where
  "drop_recovery = modS (\<lambda>s. s\<lparr>rs_mirror := None\<rparr>)"

fun recovery_error :: "exn \<Rightarrow> bool" where
  "recovery_error (RecoveryJournalError _) = True"
| "recovery_error (RecoveryJournalTornError _) = True"
| "recovery_error (RecoveryMirrorError _) = True"
| "recovery_error _ = False"

definition RECOVERY_CAPACITY_ERRORS :: "string set" where
  "RECOVERY_CAPACITY_ERRORS = {''ENOSPC'', ''EDQUOT'', ''ENOMEM''}"

fun capacity_error :: "exn \<Rightarrow> bool" where
  "capacity_error (OSError e) = (e \<in> RECOVERY_CAPACITY_ERRORS)"
| "capacity_error _ = False"

text \<open>Replays into the mirror \<open>m\<close>, which the state holds too.\<close>

definition mirror_journal ::
  "((bytes \<Rightarrow> recovery_block decoded) \<Rightarrow> bytes \<Rightarrow> journal \<Rightarrow> mirror \<Rightarrow> bool res \<times> bytes \<times> journal \<times> mirror) \<Rightarrow>
   recovery_env \<Rightarrow> mirror \<Rightarrow> (recovery_state, bool) sx" where
  "mirror_journal loop env m =
     bindS (with_journal (\<lambda>j file. case loop (re_dec env) file j m of (r, file', j', m') \<Rightarrow> ((r, m'), file', j')))
       (\<lambda>(r, m'). thenS (modS (\<lambda>s. s\<lparr>rs_mirror := Some m'\<rparr>)) (liftR r))"

definition rs_poll :: "recovery_env \<Rightarrow> (recovery_state, bool) sx" where
  "rs_poll env = readS (\<lambda>s.
     case rs_mirror s of
       None \<Rightarrow> retS False
     | Some m \<Rightarrow>
         catchS (mirror_journal (replay POLL_BATCH) env m)
           (\<lambda>e. if recovery_error e then thenS drop_recovery (retS False) else raiseS e))"

definition invalidate_journal :: "(recovery_state, unit) sx" where
  "invalidate_journal = readS (\<lambda>s.
     if rs_journal s = None then retS () else with_journal (\<lambda>j file. ((), invalidate file j)))"

text \<open>\<open>mirror.take_records()\<close> on the mirror the state holds.\<close>

definition take_mirror :: "(recovery_state, records) sx" where
  "take_mirror = readS (\<lambda>s.
     case rs_mirror s of
       None \<Rightarrow> raiseS (TypeError ''NoneType'')
     | Some m \<Rightarrow>
         (case take_records m of (records, m') \<Rightarrow>
            thenS (modS (\<lambda>s. s\<lparr>rs_mirror := Some m'\<rparr>)) (retS records)))"

definition take_for_promotion :: "recovery_env \<Rightarrow> (recovery_state, records) sx" where
  "take_for_promotion env = readS (\<lambda>s.
     bindS (case rs_mirror s of
              None \<Rightarrow> retS []
            | Some m \<Rightarrow>
                catchS (thenS (mirror_journal replay_all env m) take_mirror)
                  (\<lambda>e. if recovery_error e then thenS drop_recovery (retS []) else raiseS e)) (\<lambda>records.
       thenS (modS (\<lambda>s. s\<lparr>rs_mirror := Some (rs_fresh_mirror s)\<rparr>)) (retS records)))"

definition prepare_to_serve :: "records \<Rightarrow> (recovery_state, records) sx" where
  "prepare_to_serve records =
     thenS (modS (\<lambda>s. s\<lparr>rs_g3_records := concat (map (\<lambda>(k, rec).
         case g3 rec of None \<Rightarrow> [] | Some d \<Rightarrow> [(k, d, rec_position rec)]) records)\<rparr>))
       (retS (without_g3 records))"

definition rs_release_region :: "recovery_env \<Rightarrow> (recovery_state, unit) sx" where
  "rs_release_region env = readS (\<lambda>s.
     case release_snapshot_region (re_os env) (rs_spec s) (rs_file s) of
       (r, file) \<Rightarrow> thenS (modS (\<lambda>s. s\<lparr>rs_file := file\<rparr>)) (liftR r))"

definition write_handback :: "recovery_env \<Rightarrow> records \<Rightarrow> (recovery_state, unit) sx" where
  "write_handback env records = readS (\<lambda>s.
     case write_recovery_snapshot (re_os env) (re_sha256 env) (rs_spec s)
         (canonical_pool_terms (re_enc_pools env) (rs_digest s) (rs_pools s) (rs_spec s))
         (recovery_frames (re_enc env) records) (rs_file s) of
       (r, file) \<Rightarrow> thenS (modS (\<lambda>s. s\<lparr>rs_file := file\<rparr>)) (liftR r))"

definition rs_hand_back :: "recovery_env \<Rightarrow> records \<Rightarrow> (recovery_state, unit) sx" where
  "rs_hand_back env table = readS (\<lambda>s.
     let records = with_g3 (rs_g3_records s) table in
     thenS (catchS
         (thenS (write_handback env records)
           (modS (\<lambda>s. s\<lparr>rs_mirror := map_option (mirror_adopt records) (rs_mirror s)\<rparr>)))
         (\<lambda>e. if capacity_error e then drop_recovery else raiseS e))
       (modS (\<lambda>s. s\<lparr>rs_g3_records := []\<rparr>)))"

definition rs_release :: "recovery_env \<Rightarrow> (recovery_state, unit) sx" where
  "rs_release env = readS (\<lambda>s.
     case rs_mirror s of
       None \<Rightarrow> raiseS (TypeError ''NoneType'')
     | Some m \<Rightarrow>
         thenS (catchS
             (thenS (mirror_journal replay_all env m) (bindS take_mirror (write_handback env)))
             (\<lambda>e. if recovery_error e \<or> capacity_error e then drop_recovery else raiseS e))
           (modS (\<lambda>s. s\<lparr>rs_mirror := None\<rparr>)))"

definition rs_close :: "recovery_env \<Rightarrow> (recovery_state, unit) sx" where
  "rs_close env = readS (\<lambda>s.
     if \<not> rs_attached s then retS ()
     else thenS (liftR (re_unmap env))
       (modS (\<lambda>s. s\<lparr>rs_attached := False, rs_journal := None, rs_mirror := None, rs_g3_records := [], rs_pools := []\<rparr>)))"

subsection \<open>The loops over the journal end\<close>

definition consumer_cursor :: "bytes \<Rightarrow> journal \<Rightarrow> nat" where
  "consumer_cursor bs j = (case consumed_local j of None \<Rightarrow> load_acquire CONSUMED_OFFSET bs | Some c \<Rightarrow> c)"

abbreviation producer_cursor :: "bytes \<Rightarrow> nat" where
  "producer_cursor bs \<equiv> load_acquire PUBLISHED_OFFSET bs"

lemma read_start_frame:
  assumes "read_start bs j = ReadFrame consumed published j'"
  shows "consumed = consumer_cursor bs j" "published = producer_cursor bs" "capacity j' = capacity j"
    "consumed < published" "published \<le> consumed + capacity j"
  using assms
  by (auto simp: read_start_def read_at_def consumer_cursor_def valid_cursors_def invalidate_def Let_def
      split: option.splits if_splits)

lemma read_frame_size:
  assumes "read_frame bs cap consumed published = Inr (f, stored)"
  shows "ALIGNMENT \<le> stored" "stored \<le> published - consumed"
proof -
  obtain sz where sz: "FRAME_HEADER_size \<le> sz" "stored = pad_to ALIGNMENT sz" "stored \<le> published - consumed"
  proof -
    obtain sz t ksize where h: "unpack_header (read_ring cap bs (consumed mod cap) FRAME_HEADER_size) = (sz, t, ksize)"
      by (metis prod_cases3)
    have "FRAME_HEADER_size \<le> sz" "stored = pad_to ALIGNMENT sz" "stored \<le> published - consumed"
      using assms by (auto simp: read_frame_def Let_def h split: if_split_asm)
    then show ?thesis by (rule that)
  qed
  have "ALIGNMENT dvd stored" "0 < stored"
    using sz pad_to_dvd [of ALIGNMENT sz] pad_to_ge [of sz ALIGNMENT] by (auto simp: frame_consts)
  then show "ALIGNMENT \<le> stored" by (rule dvd_imp_le)
  show "stored \<le> published - consumed" by (rule sz)
qed

text \<open>A frame that is read moves the consumer's cursor by at least the alignment, within what was published.\<close>

lemma read_next_frame:
  assumes "read_next bs j = (Inr (Some f), bs', j')" "JOURNAL_HEADER_BYTES \<le> length bs"
  shows "length bs' = length bs" "capacity j' = capacity j" "producer_cursor bs' = producer_cursor bs"
    "consumer_cursor bs j + ALIGNMENT \<le> consumer_cursor bs' j'" "consumer_cursor bs' j' \<le> producer_cursor bs"
    "producer_cursor bs \<le> consumer_cursor bs j + capacity j"
proof -
  obtain consumed published k stored where r: "read_start bs j = ReadFrame consumed published k"
    "read_frame bs (capacity k) consumed published = Inr (f, stored)"
    "bs' = store_release CONSUMED_OFFSET (consumed + stored) bs" "j' = k\<lparr>consumed_local := Some (consumed + stored)\<rparr>"
    using assms(1) by (auto simp: read_next_def read_commit_def split: read_phase.splits sum.splits prod.splits)
  note s = read_start_frame [OF r(1)] and q = read_frame_size [OF r(2)]
  have len: "CONSUMED_OFFSET + 8 \<le> length bs" "PUBLISHED_OFFSET + 8 \<le> length bs" "4096 \<le> length bs"
    using assms(2) by (simp_all add: offset_defs)
  show "length bs' = length bs" "capacity j' = capacity j" using s len by (simp_all add: r)
  show "producer_cursor bs' = producer_cursor bs"
    unfolding r(3) by (rule load_store_apart) (use len in \<open>auto simp: offset_defs\<close>)
  show "consumer_cursor bs j + ALIGNMENT \<le> consumer_cursor bs' j'" "consumer_cursor bs' j' \<le> producer_cursor bs"
    "producer_cursor bs \<le> consumer_cursor bs j + capacity j"
    using s(4,5) q unfolding s(1,2) [symmetric] by (simp_all add: r(4) consumer_cursor_def)
qed

lemma replay_ends:
  assumes "JOURNAL_HEADER_BYTES \<le> length bs" "producer_cursor bs - consumer_cursor bs j < n * ALIGNMENT"
  shows "fst (replay n dec bs j m) \<noteq> Inr True"
  using assms
proof (induction n arbitrary: bs j m)
  case (Suc n)
  show ?case
  proof (cases "\<exists>f bs' j'. read_next bs j = (Inr (Some f), bs', j')")
    case True
    then obtain f bs' j' where r: "read_next bs j = (Inr (Some f), bs', j')" by blast
    note p = read_next_frame [OF r Suc(2)]
    have "producer_cursor bs' - consumer_cursor bs' j' < n * ALIGNMENT"
      using p(3,4,5) Suc(3) by simp
    then show ?thesis using Suc(1) [of bs' j'] p(1) Suc(2) by (auto simp: r split: sum.split)
  next
    case False
    then show ?thesis by (cases "read_next bs j") (auto split: sum.split option.split)
  qed
qed simp

text \<open>Draining the journal into a mirror always ends within the fuel given to it.\<close>

lemma replay_all_ends:
  assumes "JOURNAL_HEADER_BYTES \<le> length bs"
  shows "replay_all dec bs j m = replay (Suc (capacity j div ALIGNMENT)) dec bs j m"
proof -
  have "fst (replay (Suc (capacity j div ALIGNMENT)) dec bs j m) \<noteq> Inr True"
  proof (cases "\<exists>f bs' j'. read_next bs j = (Inr (Some f), bs', j')")
    case True
    then obtain f bs' j' where r: "read_next bs j = (Inr (Some f), bs', j')" by blast
    note p = read_next_frame [OF r assms]
    have "capacity j < Suc (capacity j div ALIGNMENT) * ALIGNMENT"
      using div_mult_mod_eq [of "capacity j" ALIGNMENT] mod_less_divisor [of ALIGNMENT "capacity j"]
      by (simp add: ALIGNMENT_def)
    then show ?thesis using p(6) by (intro replay_ends [OF assms]) linarith
  next
    case False
    then show ?thesis by (cases "read_next bs j") (auto split: sum.split option.split)
  qed
  then show ?thesis
    by (cases "replay (Suc (capacity j div ALIGNMENT)) dec bs j m") (auto simp: replay_all_def split: sum.split bool.split)
qed

subsection \<open>Every mirror a Guard holds is well formed\<close>

definition rs_ok :: "recovery_state \<Rightarrow> bool" where
  "rs_ok s = (case rs_mirror s of None \<Rightarrow> True | Some m \<Rightarrow> mirror_ok m)"

lemma rs_ok_frame [simp]:
  "rs_ok (s\<lparr>rs_file := f\<rparr>) = rs_ok s" "rs_ok (s\<lparr>rs_journal := j\<rparr>) = rs_ok s" "rs_ok (s\<lparr>rs_pools := p\<rparr>) = rs_ok s"
  "rs_ok (s\<lparr>rs_g3_records := g\<rparr>) = rs_ok s" "rs_ok (s\<lparr>rs_attached := a\<rparr>) = rs_ok s"
  by (simp_all add: rs_ok_def)

lemma rs_ok_mirror [simp]: "rs_ok (s\<lparr>rs_mirror := None\<rparr>)" "rs_ok (s\<lparr>rs_mirror := Some m\<rparr>) = mirror_ok m"
  by (simp_all add: rs_ok_def)

lemma replay_ok: "mirror_ok m \<Longrightarrow> replay n dec bs j m = (r, bs', j', m') \<Longrightarrow> mirror_ok m'"
proof (induction n arbitrary: bs j m)
  case (Suc n)
  obtain x bs1 j1 where r: "read_next bs j = (x, bs1, j1)" by (metis prod_cases3)
  show ?case
  proof (cases "\<exists>f m1. x = Inr (Some f) \<and> mirror_apply dec f m = Inr m1")
    case True
    then obtain f m1 where f: "x = Inr (Some f)" "mirror_apply dec f m = Inr m1" by blast
    then have "replay n dec bs1 j1 m1 = (r, bs', j', m')" using Suc(3) r by simp
    then show ?thesis by (rule Suc(1) [OF mirror_apply_ok [OF Suc(2) f(2)]])
  next
    case False
    then have "m' = m" using Suc(3) r by (auto split: sum.splits option.splits)
    then show ?thesis using Suc(2) by simp
  qed
qed simp

lemma replay_all_ok:
  assumes "mirror_ok m" "replay_all dec bs j m = (r, bs', j', m')"
  shows "mirror_ok m'"
proof -
  obtain q where "replay (Suc (capacity j div ALIGNMENT)) dec bs j m = (q, bs', j', m')"
    using assms(2) unfolding replay_all_def
    by (cases "replay (Suc (capacity j div ALIGNMENT)) dec bs j m") (auto simp del: replay.simps split: sum.splits bool.splits)
  then show ?thesis by (rule replay_ok [OF assms(1)])
qed

lemma keeps_with_journal [keeps_rules]: "(\<And>s f j. I s \<Longrightarrow> I (s\<lparr>rs_file := f, rs_journal := j\<rparr>)) \<Longrightarrow> keeps I (with_journal g)"
  unfolding with_journal_def by (auto intro!: keeps_read_any keeps_raise keeps_then keeps_mod keeps_ret split: option.splits prod.splits)

lemma mirror_journal_ok:
  assumes "mirror_ok m" "\<And>dec bs j r bs' j' m'. loop dec bs j m = (r, bs', j', m') \<Longrightarrow> mirror_ok m'"
  shows "keeps rs_ok (mirror_journal loop env m)"
proof -
  have "triple rs_ok (with_journal (\<lambda>j bs. case loop (re_dec env) bs j m of (r, bs', j', m') \<Rightarrow> ((r, m'), bs', j')))
      (\<lambda>(r, m') s. mirror_ok m') (\<lambda>_. rs_ok)"
    unfolding triple_iff with_journal_def
    by (auto simp: readS_def raiseS_def thenS_def bindS_def modS_def retS_def dest: assms(2) split: option.splits prod.splits)
  then show ?thesis
    unfolding mirror_journal_def keeps_def
    by (rule triple_bind) (auto intro!: triple_then [where R = rs_ok] triple_mod triple_lift)
qed

lemma keeps_drop_recovery [keeps_rules]: "keeps rs_ok drop_recovery"
  by (auto simp: drop_recovery_def intro!: keeps_mod)

lemma keeps_write_handback [keeps_rules]: "keeps rs_ok (write_handback env records)"
  unfolding write_handback_def
  by (auto intro!: keeps_read_any keeps_then keeps_mod keeps_lift split: prod.split)

lemma keeps_rs_release_region [keeps_rules]: "keeps rs_ok (rs_release_region env)"
  unfolding rs_release_region_def
  by (auto intro!: keeps_read_any keeps_then keeps_mod keeps_lift split: prod.split)

lemma keeps_rs_configure: "keeps rs_ok (rs_configure env ls)"
proof -
  have read: "triple rs_ok (case read_handback os sha ep dec spec dig pools bs of
        (r, bs') \<Rightarrow> thenS (modS (\<lambda>s. s\<lparr>rs_file := bs'\<rparr>)) (liftR r))
      (\<lambda>m s. rs_ok s \<and> mirror_ok m) (\<lambda>_. rs_ok)" for os sha ep dec spec dig pools bs
    using read_handback_ok [of os sha ep dec spec dig pools bs]
    by (cases "read_handback os sha ep dec spec dig pools bs") (auto intro!: triple_then [where R = rs_ok] triple_mod triple_lift)
  show ?thesis
    unfolding rs_configure_def keeps_def
  proof (rule triple_read, goal_cases)
    case (1 s)
    have m: "triple (\<lambda>t. t = s \<and> rs_ok t) (case rs_mirror s of Some m \<Rightarrow> retS m | None \<Rightarrow>
        (case read_handback (re_os env) (re_sha256 env) (re_enc_pools env) (re_dec env) (rs_spec s) (rs_digest s) pools (rs_file s) of
           (r, bs) \<Rightarrow> thenS (modS (\<lambda>s. s\<lparr>rs_file := bs\<rparr>)) (liftR r)))
      (\<lambda>m s. rs_ok s \<and> mirror_ok m) (\<lambda>_. rs_ok)" for pools
    proof (cases "rs_mirror s")
      case None
      show ?thesis unfolding None option.case by (rule triple_pre [OF read]) simp
    next
      case (Some m)
      then show ?thesis using 1 by (auto simp: rs_ok_def [of s] intro!: triple_ret)
    qed
    show ?case
      by (auto intro!: triple_if triple_raise triple_bind [where R = "\<lambda>_ t. t = s \<and> rs_ok t"] triple_lift
          triple_bind [OF m] triple_mod)
  qed
qed

lemma keeps_start_primary: "keeps rs_ok start_primary"
  unfolding start_primary_def
  by (auto intro!: keeps_then keeps_mod keeps_with_journal simp: rs_ok_def split: option.splits)

lemma keeps_rs_poll: "keeps rs_ok (rs_poll env)"
  unfolding rs_poll_def
proof (rule keeps_read_any, goal_cases)
  case (1 s)
  then show ?case
    by (cases "rs_mirror s")
      (auto simp: rs_ok_def [of s] intro!: keeps_ret keeps_catch mirror_journal_ok keeps_if keeps_then keeps_drop_recovery
        keeps_raise intro: replay_ok)
qed

lemma keeps_invalidate_journal: "keeps rs_ok invalidate_journal"
  unfolding invalidate_journal_def by (auto intro!: keeps_read_any keeps_if keeps_ret keeps_with_journal)

text \<open>Records that may be installed in a core.\<close>

definition table_ok :: "records \<Rightarrow> bool" where
  "table_ok records \<longleftrightarrow> dict_wf records \<and> list_all (clean_record \<circ> snd) records"

lemma table_ok_Nil [simp]: "table_ok []"
  by (simp add: table_ok_def)

lemma take_mirror_ok: "triple rs_ok take_mirror (\<lambda>records s. rs_ok s \<and> table_ok records) (\<lambda>_. rs_ok)"
  unfolding take_mirror_def
  by (rule triple_read)
    (auto simp: take_records_def rs_ok_def table_ok_def mirror_ok_def intro!: triple_raise triple_ret
      triple_then [where R = rs_ok] triple_mod split: option.splits)

lemma take_for_promotion_ok:
  "triple rs_ok (take_for_promotion env) (\<lambda>records s. rs_ok s \<and> table_ok records) (\<lambda>_. rs_ok)"
  unfolding take_for_promotion_def
proof (rule triple_read, goal_cases)
  case (1 s)
  have j: "triple rs_ok (catchS (thenS (mirror_journal replay_all env m) take_mirror)
      (\<lambda>e. if recovery_error e then thenS drop_recovery (retS []) else raiseS e))
      (\<lambda>records s. rs_ok s \<and> table_ok records) (\<lambda>_. rs_ok)" if "mirror_ok m" for m
  proof (rule triple_catch [where R = "\<lambda>_. rs_ok"])
    show "triple rs_ok (thenS (mirror_journal replay_all env m) take_mirror) (\<lambda>records s. rs_ok s \<and> table_ok records) (\<lambda>_. rs_ok)"
      by (rule triple_then [OF keepsD [OF mirror_journal_ok [OF that]] take_mirror_ok]) (rule replay_all_ok [OF that])
  qed (auto intro!: triple_if triple_then [OF keepsD [OF keeps_drop_recovery]] triple_ret triple_raise)
  have "triple (\<lambda>t. t = s \<and> rs_ok t) (case rs_mirror s of None \<Rightarrow> retS [] | Some m \<Rightarrow>
        catchS (thenS (mirror_journal replay_all env m) take_mirror)
          (\<lambda>e. if recovery_error e then thenS drop_recovery (retS []) else raiseS e))
      (\<lambda>records s. rs_ok s \<and> table_ok records) (\<lambda>_. rs_ok)"
    using 1 by (cases "rs_mirror s") (auto simp: rs_ok_def [of s] intro!: triple_ret triple_pre [OF j])
  then show ?case
    by (rule triple_bind) (auto intro!: triple_then [where R = "\<lambda>s. rs_ok s \<and> table_ok _"] triple_mod triple_ret)
qed

lemma table_ok_without_g3: "table_ok records \<Longrightarrow> table_ok (without_g3 records)"
  by (auto simp: table_ok_def without_g3_def dict_wf_def list_all_iff clean_record_def comp_def case_prod_beta
      intro!: distinct_map_filter)

lemma without_g3_no_g3: "list_all (\<lambda>(k, rec). g3 rec = None) (without_g3 records)"
  by (auto simp: without_g3_def list_all_iff)

lemma prepare_to_serve_ok:
  "triple (\<lambda>s. rs_ok s \<and> table_ok records) (prepare_to_serve records) (\<lambda>t s. rs_ok s \<and> table_ok t) (\<lambda>_. rs_ok)"
  unfolding prepare_to_serve_def
  by (auto intro!: triple_then [where R = "\<lambda>s. rs_ok s \<and> table_ok records"] triple_mod triple_ret table_ok_without_g3)

lemma dict_wf_with_g3: "dict_wf records \<Longrightarrow> dict_wf (with_g3 g3_records records)"
  unfolding with_g3_def by (induction g3_records arbitrary: records) (auto simp: case_prod_beta)

lemma keeps_rs_hand_back: "dict_wf table \<Longrightarrow> keeps rs_ok (rs_hand_back env table)"
  unfolding rs_hand_back_def
  by (auto simp: Let_def rs_ok_def [of "_\<lparr>rs_mirror := map_option _ _\<rparr>"] mirror_adopt_ok dict_wf_with_g3
      intro!: keeps_read_any keeps_then keeps_catch keeps_write_handback keeps_mod keeps_if keeps_drop_recovery keeps_raise
      split: option.splits)

lemma keeps_take_mirror: "keeps rs_ok take_mirror"
  unfolding keeps_def by (rule triple_weaken [OF take_mirror_ok]) auto

lemma keeps_rs_release: "keeps rs_ok (rs_release env)"
  unfolding rs_release_def
proof (rule keeps_read_any, goal_cases)
  case (1 s)
  then show ?case
    by (cases "rs_mirror s")
      (auto simp: rs_ok_def [of s] intro!: keeps_raise keeps_then keeps_catch mirror_journal_ok keeps_bind keeps_take_mirror
        keeps_write_handback keeps_if keeps_drop_recovery keeps_mod intro: replay_all_ok)
qed

lemma keeps_rs_close: "keeps rs_ok (rs_close env)"
  unfolding rs_close_def by (auto simp: rs_ok_def intro!: keeps_read_any keeps_if keeps_ret keeps_then keeps_lift keeps_mod)

lemma keeps_rs_prepare: "keeps rs_ok (rs_prepare env)"
  unfolding rs_prepare_def by (auto intro!: keeps_bind keeps_lift keeps_mod)

subsection \<open>What the service grants the client accepts\<close>

lemma descriptors_from_grant:
  assumes "descriptors_from start szs ls = Inr pools" "length szs = length ls" "list_all (\<lambda>n. n mod page = 0) szs"
  shows "grant_pools_from page start pools ls = Inr (start + sum_list szs) \<and> length pools = length ls"
  using assms
proof (induction start szs ls arbitrary: pools rule: descriptors_from.induct)
  case (1 start sz szs name block ls)
  obtain d ds where d: "pool_descriptor name sz block start = Inr d" "descriptors_from (start + sz) szs ls = Inr ds"
    "pools = d # ds"
    using 1(2) by (auto simp: bindR_eq_Inr)
  have f: "pd_name d = name" "pd_size_bytes d = sz" "pd_block_size_bytes d = block" "pd_offset_bytes d = start"
    using d(1) by (auto simp: pool_descriptor_def bindR_eq_Inr)
  show ?case using 1(1) [OF d(2)] 1(3,4) by (simp add: d(3) f add.assoc)
qed auto

text \<open>
  C16. Service and client agree about the layout of a pool group: whatever layouts a claim asks for, if
  the Guard can describe its pools by them, and its mapping is the journal and the page-aligned pools
  after it, then the client accepts the grant and takes exactly these pools.
\<close>

theorem guard_grant_accepted:
  assumes "descriptors_from (int (journal_bytes spec)) szs (tier_pool_layouts tier) = Inr pools"
    and "length szs = length (tier_pool_layouts tier)" and "list_all (\<lambda>n. n mod page = 0) szs"
    and "int (mapping_bytes spec) = int (journal_bytes spec) + sum_list szs"
  shows "grant_layout page \<lparr>grant_guard_index = i, grant_spec = spec, grant_tier = tier, grant_pools = pools,
      dead_incarnations = dead, heartbeat_enabled = beats\<rparr> i tier = Inr (spec, pools)"
  using descriptors_from_grant [OF assms(1-3)] assms(4) by (simp add: grant_layout_def)

theorem guard_grant_accepted_witness:
  "grant_layout 4096 \<lparr>grant_guard_index = 3, grant_spec = sample_spec, grant_tier = sample_tier, grant_pools = sample_pools,
      dead_incarnations = [], heartbeat_enabled = False\<rparr> 3 sample_tier = Inr (sample_spec, sample_pools)"
proof (rule guard_grant_accepted [where szs = "[4096, 12288]"])
  show "descriptors_from (int (journal_bytes sample_spec)) [4096, 12288] (tier_pool_layouts sample_tier) = Inr sample_pools"
    by (simp add: sample_spec_def sample_tier_def sample_pools_def pool_descriptor_def compute_pool_geometry_def Let_def)
qed (simp_all add: sample_spec_def sample_tier_def)

subsection \<open>A drain ends\<close>

lemma read_next_fuel: "fst (read_next bs j) \<noteq> Inl OutOfFuel"
  by (auto simp: read_next_def read_start_def read_at_def Let_def invalidate_def
      split: read_phase.splits sum.splits prod.splits option.splits if_splits)

lemma mirror_apply_fuel: "mirror_apply dec f m \<noteq> Inl OutOfFuel"
  by (cases f) (auto simp: mirror_apply_def split: sum.split)

lemma replay_fuel: "fst (replay n dec bs j m) \<noteq> Inl OutOfFuel"
proof (induction n arbitrary: bs j m)
  case (Suc n)
  obtain x bs1 j1 where r: "read_next bs j = (x, bs1, j1)" by (metis prod_cases3)
  have "x \<noteq> Inl OutOfFuel" using read_next_fuel [of bs j] r by simp
  then show ?case
    using Suc mirror_apply_fuel [of dec _ m] by (auto simp: r split: sum.splits option.splits)
qed simp

text \<open>
  C17. Draining a journal into a mirror ends, whatever the dead primary left in the shared file: the
  steps given to the loop are always enough, so a promotion is never stuck on a corrupt ring.
\<close>

theorem journal_drain_ends:
  assumes "JOURNAL_HEADER_BYTES \<le> length bs"
  shows "\<exists>r bs' j' m'. replay_all dec bs j m = (r, bs', j', m') \<and> r \<noteq> Inl OutOfFuel \<and> r \<noteq> Inr True"
proof -
  let ?n = "Suc (capacity j div ALIGNMENT)"
  obtain r bs' j' m' where e: "replay_all dec bs j m = (r, bs', j', m')" by (metis prod_cases4)
  have eq: "replay ?n dec bs j m = (r, bs', j', m')" using e replay_all_ends [OF assms] by simp
  have "r \<noteq> Inl OutOfFuel" using replay_fuel [of ?n dec bs j m] unfolding eq by simp
  moreover have "r \<noteq> Inr True" using e eq unfolding replay_all_def eq by auto
  ultimately show ?thesis using e by blast
qed

theorem journal_drain_ends_witness:
  "\<exists>r bs' j' m'. replay_all sample_dec (replicate 4160 255) (journal_init 4160) (mirror_init [''k'']) = (r, bs', j', m') \<and>
    r \<noteq> Inl OutOfFuel \<and> r \<noteq> Inr True"
  by (rule journal_drain_ends) (simp add: offset_defs)

subsection \<open>Handing a pool over\<close>

lemma read_back_table:
  assumes "dict_wf records"
    and "write_recovery_snapshot os sha256 spec (canonical_pool_terms enc_pools digest pools spec)
      (recovery_frames enc records) bs = (Inr (), bs')"
    and "codec_ok enc dec (snd ` set (recoverable_blocks records))" and "digest_ok sha256"
    and "\<And>a b. map_error os a b = None"
    and "list_all (\<lambda>(k, b). wire_ok (map pd_name pools) b) (recoverable_blocks records)"
    and "length (concat (map put_frame (recovery_frames enc records))) < 2 ^ 64"
  shows "read_handback os sha256 enc_pools dec spec digest pools bs' =
    (Inr \<lparr>mirror_pool_names = map pd_name pools,
       mirror_records = map (\<lambda>(k, b). (k, block_to_record b)) (recoverable_blocks records)\<rparr>, bs')"
proof -
  have "read_recovery_snapshot os sha256 spec (canonical_pool_terms enc_pools digest pools spec) bs' =
      (recovery_frames enc records, None)"
    by (rule snapshot_roundtrip [OF assms(2) written_frames_ok [OF assms(2)] assms(7,4,5)])
  then show ?thesis using replay_frames [OF assms(3,1,6)] by (simp add: read_handback_def Let_def)
qed

lemma mirror_abs_rebuilt:
  assumes "list_all (is_recoverable \<circ> snd) records"
  shows "mirror_abs \<lparr>mirror_pool_names = names, mirror_records = map (\<lambda>(k, b). (k, block_to_record b)) (recoverable_blocks records)\<rparr> =
    (\<lambda>k. map_option project_recovery_record (map_of records k))"
proof -
  have all: "filter (\<lambda>(k, rec). is_recoverable rec) records = records"
    using assms by (auto simp: list_all_iff intro!: filter_True)
  have "map_option project_recovery_record (map_of (map (\<lambda>(k, b). (k, block_to_record b)) (projected xs)) k) =
    map_option project_recovery_record (map_of xs k)" for xs k
    by (induction xs) auto
  then show ?thesis unfolding mirror_abs_def mirror.simps all by blast
qed

text \<open>
  C15. A clean handover loses nothing. When a primary gives its lease back, the Guard mirrors what is
  left in the journal and writes a handback; the claimant that is granted the pool next, under the same
  layout, reads a table with exactly the blocks that the mirror had once the journal was drained.
\<close>

theorem lease_handover_lossless:
  assumes "rs_ok s" and "rs_mirror s = Some m" and "rs_journal s = Some j"
    and "replay_all (re_dec env) (rs_file s) j m = (Inr False, bs, j', m')"
    and "write_recovery_snapshot (re_os env) (re_sha256 env) (rs_spec s)
      (canonical_pool_terms (re_enc_pools env) (rs_digest s) (rs_pools s) (rs_spec s))
      (recovery_frames (re_enc env) (mirror_records m')) bs = (Inr (), bs')"
    and "codec_ok (re_enc env) (re_dec env) (snd ` set (recoverable_blocks (mirror_records m')))"
    and "digest_ok (re_sha256 env)" and "\<And>a b. map_error (re_os env) a b = None"
    and "list_all (\<lambda>(k, b). wire_ok (map pd_name (rs_pools s)) b) (recoverable_blocks (mirror_records m'))"
    and "length (concat (map put_frame (recovery_frames (re_enc env) (mirror_records m')))) < 2 ^ 64"
    and "length ls = length (rs_pool_sizes s)"
    and "descriptors_from (int (journal_bytes (rs_spec s))) (rs_pool_sizes s) ls = Inr (rs_pools s)"
  shows "\<exists>s1 s2 m2. rs_release env s = (Inr (), s1) \<and> rs_configure env ls s1 = (Inr (), s2) \<and>
    rs_mirror s2 = Some m2 \<and> mirror_abs m2 = mirror_abs m'"
proof -
  have "mirror_ok m" using assms(1,2) by (simp add: rs_ok_def)
  then have ok: "mirror_ok m'" by (rule replay_all_ok [OF _ assms(4)])
  let ?s1 = "s\<lparr>rs_file := bs', rs_journal := Some j', rs_mirror := None\<rparr>"
  have r: "rs_release env s = (Inr (), ?s1)"
    using assms(2,3,4,5)
    by (simp add: rs_release_def readS_def catchS_def mirror_journal_def with_journal_def take_mirror_def take_records_def
        write_handback_def thenS_def bindS_def modS_def retS_def liftR_def)
  let ?m2 = "\<lparr>mirror_pool_names = map pd_name (rs_pools s),
    mirror_records = map (\<lambda>(k, b). (k, block_to_record b)) (recoverable_blocks (mirror_records m'))\<rparr>"
  have "read_handback (re_os env) (re_sha256 env) (re_enc_pools env) (re_dec env) (rs_spec s) (rs_digest s) (rs_pools s) bs' =
      (Inr ?m2, bs')"
    by (rule read_back_table [OF _ assms(5-10)]) (use ok in \<open>simp add: mirror_ok_def\<close>)
  then have "rs_configure env ls ?s1 = (Inr (), ?s1\<lparr>rs_file := bs', rs_pools := rs_pools s, rs_mirror := Some ?m2\<rparr>)"
    using assms(11,12)
    by (simp add: rs_configure_def readS_def thenS_def bindS_def modS_def retS_def liftR_def)
  moreover have "mirror_abs ?m2 = mirror_abs m'"
    using mirror_abs_rebuilt [of "mirror_records m'"] ok by (simp only: mirror_ok_def) (simp add: mirror_abs_def)
  ultimately show ?thesis using r by fastforce
qed

definition lease_spec :: KVCRPoolSpec where
  "lease_spec = small_spec\<lparr>mapping_bytes := 4168, journal_bytes := 4160\<rparr>"

definition lease_env :: recovery_env where
  "lease_env = \<lparr>re_os = sample_os, re_sha256 = (\<lambda>_. replicate 32 5), re_enc_pools = (\<lambda>_. []), re_enc = (\<lambda>_. [9]),
     re_dec = sample_dec, re_attach = Inl EOFError, re_unmap = Inr ()\<rparr>"

definition lease_mirror :: mirror where
  "lease_mirror = \<lparr>mirror_pool_names = [''k''], mirror_records = [([7], ready_record)]\<rparr>"

definition lease_state :: recovery_state where
  "lease_state = \<lparr>rs_spec = lease_spec, rs_digest = ''d'', rs_pool_sizes = [8],
     rs_pools = [\<lparr>pd_name = ''k'', pd_size_bytes = 8, pd_block_size_bytes = 4, pd_offset_bytes = 4160\<rparr>],
     rs_attached = True, rs_journal = Some (journal_init 4160), rs_mirror = Some lease_mirror, rs_g3_records = [],
     rs_file = replicate 4168 0\<rparr>"

lemma load_zeros: "load_acquire off (replicate n 0) = 0"
  by (simp add: load_acquire_def slice_def le_value_zeros)

lemma lease_drained: "replay_all (re_dec lease_env) (rs_file lease_state) (journal_init 4160) lease_mirror =
    (Inr False, replicate 4168 0, (journal_init 4160)\<lparr>consumed_local := Some 0\<rparr>, lease_mirror)"
  by (simp add: replay_all_def lease_state_def read_next_def read_start_def read_at_def journal_init_def is_invalid_def
      load_zeros offset_defs valid_cursors_def Let_def)

lemma lease_blocks: "recoverable_blocks (mirror_records lease_mirror) = [([7], ready_block)]"
proof -
  have "is_recoverable ready_record"
    by (simp add: is_recoverable_def ready_record_def make_residency_READY new_record_def)
  then show ?thesis by (simp add: lease_mirror_def ready_record_project)
qed

theorem lease_handover_lossless_witness:
  "\<exists>s1 s2 m2. rs_release lease_env lease_state = (Inr (), s1) \<and> rs_configure lease_env [(''k'', 4)] s1 = (Inr (), s2) \<and>
    rs_mirror s2 = Some m2 \<and> mirror_abs m2 = mirror_abs lease_mirror"
proof -
  let ?w = "write_recovery_snapshot sample_os (\<lambda>_. replicate 32 5) lease_spec
    (canonical_pool_terms (\<lambda>_. []) ''d'' (rs_pools lease_state) lease_spec) (recovery_frames (\<lambda>_. [9]) (mirror_records lease_mirror))
    (replicate 4168 0)"
  have fr: "recovery_frames (\<lambda>_. [9]) (mirror_records lease_mirror) = [(RECORD_BLOCK, [7], [9])]"
    unfolding recovery_frames_blocks lease_blocks by simp
  have "fst ?w = Inr ()"
    by (rule write_snapshot_granted) (simp_all add: fr sample_os_def frame_ok_def frame_size_def frame_consts)
  then obtain bs' where w: "?w = (Inr (), bs')" by (cases ?w) simp
  show ?thesis
  proof (rule lease_handover_lossless [OF _ _ _ lease_drained])
    show "rs_ok lease_state"
      by (simp add: rs_ok_def lease_state_def lease_mirror_def mirror_ok_def dict_wf_def clean_record_def ready_record_def
          is_recoverable_def make_residency_READY)
  qed (use w lease_blocks fr in \<open>simp_all add: lease_state_def lease_env_def codec_ok_def sample_dec_def digest_ok_def sample_os_def
      wire_ok_def block_valid_def ready_block_def partition_label_def put_frame_layout frame_consts lease_spec_def
      pool_descriptor_def compute_pool_geometry_def Let_def\<close>)
qed

end
