(* ===== verification/KVCR_Guard.thy ===== *)
theory KVCR_Guard
  imports KVCR_Lease
begin

text \<open>
  The Guard of one pool group (\<open>_Guard\<close>, \<open>service/guard.py\<close>): the actor that grants the pool to a
  primary, mirrors its journal, takes over when the primary dies, and hands back to the next one.

  A caller's thread reserves a transition under the phase lock and queues a command; the actor runs
  commands one at a time and, between them, looks at the holder and polls. The core of a Guard is the
  core of \<open>KVCR_Core\<close> with the policy \<open>LRUPolicy\<close>. Whether its progress thread is registered, starts and
  comes to rest, and what sockets, descriptors and signals answer, are arguments (\<open>guard_env\<close>). Using
  \<open>None\<close> as an object is \<open>TypeError\<close> here, also where Python has \<open>AttributeError\<close>. Logging is left out.
\<close>

subsection \<open>State\<close>

datatype Phase = UNCONFIGURED | IDLE | STANDBY | PRIMARY | PHASE_FAILED | CLOSED | CLAIMING | RELEASING | PROMOTING

datatype command =
    ClaimCmd lease TierConfig "string \<times> nat"
  | ReleaseCmd lease
  | AbortCmd lease
  | CloseCmd

datatype thread = NotStarted | Running | Ended

text \<open>
  What the Guard did to the world outside its state, in order: leases granted, pidfds closed, holders
  that were sent \<open>SIGKILL\<close> or were gone already, and failures reported to the service.
\<close>

datatype guard_event = GrantedTo lease | LeaseClosed lease | Fenced lease | Escalated exn

record guard =
  g_owner :: bool
  g_lease :: pool_lease
  g_dead :: "string list"
  g_control :: bool
  g_configured :: "TierConfig option"
  g_recovery :: recovery_state
  g_core :: "unit core option"
  g_orphans :: "unit core list"
  g_commands :: "command list"
  g_thread :: thread
  g_started :: bool
  g_closed :: bool
  g_serving :: bool
  g_resumable :: bool
  g_phase :: Phase
  g_reserved :: "Phase option"
  g_closing :: bool
  g_failure :: "exn option"
  g_last_heartbeat :: "time option"
  g_heartbeat_timeout :: "time option"
  g_startup_timeout :: "int option"
  g_fence_failed :: "lease option"
  g_events :: "guard_event list"

text \<open>
  The answers to one operation. \<open>ge_close\<close> is how closing a core ends, as \<open>core_close\<close> takes it: whether
  the progress thread is at rest, its error, and the error of the hint backend. \<open>ge_pidfd\<close> is what polling
  the holder's pidfd gives: no event, or an event with or without \<open>POLLIN\<close>. \<open>ge_kill\<close> is the error of
  \<open>pidfd_send_signal\<close>, \<open>ESRCH\<close> for \<open>ProcessLookupError\<close>. \<open>ge_channel\<close> covers the second duplicate of the
  listener and the channel built on it.
\<close>

record guard_env =
  ge_recovery :: recovery_env
  ge_now :: time
  ge_refusing :: bool
  ge_closing_meanwhile :: bool
  ge_create_server :: "unit res"
  ge_dup :: "unit res"
  ge_channel :: "unit res"
  ge_listener_close :: "unit res"
  ge_control_close :: "unit res"
  ge_new_control_close :: "unit res"
  ge_base_address :: int
  ge_agent :: string
  ge_seed :: int
  ge_prepare :: "unit res"
  ge_prepare_ready :: "unit core \<Rightarrow> bool"
  ge_core_failure :: "exn option"
  ge_start :: "unit res"
  ge_notified :: "unit res"
  ge_items :: "main_item list"
  ge_close :: "unit core \<Rightarrow> bool \<times> exn option \<times> exn option"
  ge_pidfd :: "bool option res"
  ge_kill :: "string option"
  ge_owner_close :: "unit res"

type_synonym 'a gx = "(guard, 'a) sx"

text \<open>A heartbeat timeout is a finite number here, so the code's check against infinity always holds.\<close>

definition MIN_HEARTBEAT_TIMEOUT :: time where "MIN_HEARTBEAT_TIMEOUT = 20 * (1 / 20)"

definition guard_init ::
  "KVCRPoolSpec \<Rightarrow> string \<Rightarrow> int list \<Rightarrow> bool \<Rightarrow> time option \<Rightarrow> int option \<Rightarrow> bytes \<Rightarrow> guard res" where
  "guard_init spec digest sizes owner heartbeat startup file =
     (if (case heartbeat of None \<Rightarrow> False | Some t \<Rightarrow> t < MIN_HEARTBEAT_TIMEOUT)
      then Inl (ValueError ''KVCR Guard heartbeat timeout must be at least 1 s'')
      else Inr \<lparr>g_owner = owner, g_lease = lease_init, g_dead = [], g_control = False, g_configured = None,
        g_recovery = recovery_init spec digest sizes file, g_core = None, g_orphans = [], g_commands = [],
        g_thread = NotStarted, g_started = False, g_closed = False, g_serving = False, g_resumable = False,
        g_phase = UNCONFIGURED, g_reserved = None, g_closing = False, g_failure = None, g_last_heartbeat = None,
        g_heartbeat_timeout = heartbeat, g_startup_timeout = startup, g_fence_failed = None, g_events = []\<rparr>)"

abbreviation emitG :: "guard_event \<Rightarrow> unit gx" where
  "emitG e \<equiv> modS (\<lambda>g. g\<lparr>g_events := g_events g @ [e]\<rparr>)"

abbreviation set_phase :: "Phase \<Rightarrow> unit gx" where
  "set_phase ph \<equiv> modS (\<lambda>g. g\<lparr>g_phase := ph\<rparr>)"

text \<open>An operation on a part of the Guard.\<close>

definition on_recovery :: "(recovery_state, 'a) sx \<Rightarrow> 'a gx" where
  "on_recovery m = (\<lambda>g. case m (g_recovery g) of (r, s) \<Rightarrow> (r, g\<lparr>g_recovery := s\<rparr>))"

definition on_lease :: "(pool_lease, 'a) sx \<Rightarrow> 'a gx" where
  "on_lease m = (\<lambda>g. case m (g_lease g) of (r, p) \<Rightarrow> (r, g\<lparr>g_lease := p\<rparr>))"

definition on_core :: "(unit, 'a) act \<Rightarrow> 'a gx" where
  "on_core m = (\<lambda>g. case g_core g of
     None \<Rightarrow> (Inl (TypeError ''NoneType''), g)
   | Some c \<Rightarrow> (case m c of (r, c') \<Rightarrow> (r, g\<lparr>g_core := Some c'\<rparr>)))"

text \<open>\<open>core.close()\<close>.\<close>

definition close_core_act :: "guard_env \<Rightarrow> (unit, unit) act" where
  "close_core_act env = readS (\<lambda>c.
     case ge_close env c of (quiescent, progress_error, hint_error) \<Rightarrow>
       core_close (ge_notified env) quiescent progress_error
         (case hint_error of None \<Rightarrow> retS () | Some e \<Rightarrow> raiseS e))"

subsection \<open>Failure\<close>

definition escalate :: "exn \<Rightarrow> unit gx" where
  "escalate e = emitG (Escalated e)"

definition guard_fail :: "exn \<Rightarrow> unit gx" where
  "guard_fail e = thenS (modS (\<lambda>g. g\<lparr>g_failure := Some e, g_phase := PHASE_FAILED\<rparr>)) (escalate e)"

definition close_control :: "guard_env \<Rightarrow> unit gx" where
  "close_control env = readS (\<lambda>g.
     whenS (g_control g) (thenS (liftR (ge_control_close env)) (modS (\<lambda>g. g\<lparr>g_control := False\<rparr>))))"

text \<open>Closing what the Guard answered on is best effort; a channel closed here stays set.\<close>

definition record_background_failure :: "guard_env \<Rightarrow> exn \<Rightarrow> unit gx" where
  "record_background_failure env e =
     thenS (modS (\<lambda>g. g\<lparr>g_failure := Some e, g_phase := PHASE_FAILED\<rparr>))
     (thenS (readS (\<lambda>g. whenS (g_core g \<noteq> None) (suppressed (on_core (close_core_act env)))))
       (escalate e))"

subsection \<open>Serving\<close>

definition guard_config :: "guard_env \<Rightarrow> TierConfig \<Rightarrow> int option \<Rightarrow> KVCRConfig" where
  "guard_config env tier startup =
     \<lparr>nixl_agent_name = ge_agent env, cfg_pool_layouts = tier_pool_layouts tier, operation_timeout_ms = 1000,
      abandon_timeout_ms = 5000, capacity_low_watermark_percent = 0, startup_timeout_seconds = startup\<rparr>"

definition guard_bindings :: "bool \<Rightarrow> unit bindings" where
  "guard_bindings control =
     \<lparr>framework_control = control, inventory_sink = False, capacity_needed_callback = False,
      bound_policy = LRUPolicy, key_adapter = None\<rparr>"

definition guard_backends :: "guard_env \<Rightarrow> TierConfig \<Rightarrow> PoolDescriptor list \<Rightarrow> backend_configs" where
  "guard_backends env tier pools =
     \<lparr>framework_regions = [],
      local_dram_options = Some (map (\<lambda>p. (pd_name p, ge_base_address env + pd_offset_bytes p, pd_size_bytes p)) pools,
        remote_fw_dram_backend tier),
      g3_options = None, eager_connect = True, opportunistic = False\<rparr>"

definition prepare_core :: "guard_env \<Rightarrow> unit gx" where
  "prepare_core env = readS (\<lambda>g.
     let pools = rs_pools (g_recovery g) in
     case g_configured g of
       None \<Rightarrow> raiseS (TypeError ''NoneType'')
     | Some tier \<Rightarrow>
         if pools \<noteq> [] \<and> \<not> rs_attached (g_recovery g) then raiseS (TypeError ''NoneType'')
         else bindS (liftR (core_init (guard_config env tier (g_startup_timeout g)) (guard_bindings (g_control g))
             (guard_backends env tier pools) () (ge_now env) (ge_seed env))) (\<lambda>c.
           thenS (modS (\<lambda>g. g\<lparr>g_core := Some c\<rparr>)) (liftR (ge_prepare env))))"

text \<open>
  The records of a core as one dict, in which a key occurs once. The residencies they hold are objects
  of the store.
\<close>

definition core_records :: "unit core \<Rightarrow> records" where
  "core_records c = AList.clearjunk (map (\<lambda>(k, rec). (k, deref_record (res_store c) rec)) (block_record_map c))"

text \<open>
  The core also gets a reference to the set of dead incarnations, for the transport of remote reads, which
  is not part of the model of a core.
\<close>

definition guard_serve :: "guard_env \<Rightarrow> records \<Rightarrow> unit gx" where
  "guard_serve env table =
     bindS (on_recovery (prepare_to_serve table)) (\<lambda>records. readS (\<lambda>g.
       if g_core g = None then raiseS (RecoveryMirrorError ''Guard transport was not prepared'')
       else
         thenS (on_core (install_recovery_records records))
         (thenS (on_recovery (rs_release_region (ge_recovery env)))
         (thenS (liftR (ge_start env))
           (modS (\<lambda>g. g\<lparr>g_serving := True\<rparr>))))))"

definition guard_promote :: "guard_env \<Rightarrow> unit gx" where
  "guard_promote env =
     thenS (modS (\<lambda>g. g\<lparr>g_resumable := False\<rparr>)) (readS (\<lambda>g.
       case g_failure g of
         Some e \<Rightarrow> raiseS e
       | None \<Rightarrow> bindS (on_recovery (take_for_promotion (ge_recovery env))) (guard_serve env)))"

definition guard_hand_back :: "guard_env \<Rightarrow> unit gx" where
  "guard_hand_back env = readS (\<lambda>g.
     if g_core g = None \<or> rs_mirror (g_recovery g) = None
     then raiseS (RecoveryMirrorError ''a serving Guard has no state to hand back'')
     else
       bindS (on_core (thenS (close_core_act env) (getS core_records))) (\<lambda>table.
         thenS (on_recovery (rs_hand_back (ge_recovery env) table))
           (modS (\<lambda>g. g\<lparr>g_core := None, g_serving := False\<rparr>))))"

subsection \<open>Ending a lease\<close>

definition release_core :: "guard_env \<Rightarrow> unit core \<Rightarrow> unit gx" where
  "release_core env c =
     thenS (if ge_prepare_ready env c
            then thenS (on_core (close_core_act env)) (modS (\<lambda>g. g\<lparr>g_control := False\<rparr>))
            else modS (\<lambda>g. g\<lparr>g_orphans := g_orphans g @ [c]\<rparr>))
       (modS (\<lambda>g. g\<lparr>g_core := None\<rparr>))"

definition guard_release :: "guard_env \<Rightarrow> unit gx" where
  "guard_release env =
     thenS (modS (\<lambda>g. g\<lparr>g_resumable := False\<rparr>)) (readS (\<lambda>g.
       case g_failure g of
         Some e \<Rightarrow> raiseS e
       | None \<Rightarrow>
           thenS (if g_serving g
                  then thenS (guard_hand_back env) (on_recovery (modS (\<lambda>s. s\<lparr>rs_mirror := None\<rparr>)))
                  else case g_core g of None \<Rightarrow> retS () | Some c \<Rightarrow> release_core env c)
           (thenS (readS (\<lambda>g. whenS (rs_mirror (g_recovery g) \<noteq> None) (on_recovery (rs_release (ge_recovery env)))))
             (close_control env))))"

text \<open>The \<open>finally\<close> block: closing a pidfd only logs a failure.\<close>

definition end_holder :: "lease \<Rightarrow> guard \<Rightarrow> guard" where
  "end_holder l g = g\<lparr>g_events := g_events g @ [LeaseClosed l], g_lease := clear_if_current l (g_lease g)\<rparr>"

definition stand_down :: "guard_env \<Rightarrow> lease \<Rightarrow> unit gx" where
  "stand_down env l =
     thenS (finallyS (exceptS (guard_release env) (\<lambda>e. thenS (guard_fail e) (raiseS e))) (end_holder l))
       (set_phase IDLE)"

definition promote_for :: "guard_env \<Rightarrow> lease \<Rightarrow> unit gx" where
  "promote_for env l =
     thenS (finallyS (readS (\<lambda>g. whenS (\<not> g_serving g) (guard_promote env))) (end_holder l))
       (set_phase STANDBY)"

definition guard_abort :: "guard_env \<Rightarrow> lease \<Rightarrow> unit gx" where
  "guard_abort env l = readS (\<lambda>g.
     if g_resumable g \<and> \<not> g_serving g \<and> rs_mirror (g_recovery g) \<noteq> None
     then exceptS (promote_for env l) (\<lambda>e. thenS (guard_fail e) (raiseS e))
     else stand_down env l)"

subsection \<open>Claims\<close>

definition refuse_incompatible :: "TierConfig \<Rightarrow> unit gx" where
  "refuse_incompatible tier = readS (\<lambda>g.
     whenS (g_configured g \<noteq> None \<and> g_configured g \<noteq> Some tier)
       (raiseS (RecoveryMirrorError ''KVCR pool was claimed with another tier configuration'')))"

definition adopt_checks :: "guard_env \<Rightarrow> TierConfig \<Rightarrow> unit gx" where
  "adopt_checks env tier =
     exceptS
       (thenS (readS (\<lambda>g. case g_failure g of Some e \<Rightarrow> raiseS e | None \<Rightarrow> retS ()))
       (thenS (refuse_incompatible tier)
       (thenS (on_recovery (rs_configure (ge_recovery env) (tier_pool_layouts tier)))
         (modS (\<lambda>g. g\<lparr>g_configured := Some tier\<rparr>)))))
       (\<lambda>e. thenS (liftR (ge_new_control_close env)) (raiseS e))"

definition adopt_moves :: "guard_env \<Rightarrow> unit gx" where
  "adopt_moves env =
     exceptS
       (thenS (readS (\<lambda>g. whenS (g_serving g)
           (thenS (guard_hand_back env) (modS (\<lambda>g. g\<lparr>g_resumable := True\<rparr>)))))
       (thenS (on_recovery start_primary)
       (thenS (readS (\<lambda>g. whenS (g_control g) (liftR (ge_control_close env))))
       (thenS (modS (\<lambda>g. g\<lparr>g_control := True\<rparr>))
         (prepare_core env)))))
       (\<lambda>e. thenS (liftR (ge_new_control_close env)) (thenS (record_background_failure env e) (raiseS e)))"

definition guard_adopt :: "guard_env \<Rightarrow> TierConfig \<Rightarrow> unit gx" where
  "guard_adopt env tier = thenS (adopt_checks env tier) (adopt_moves env)"

fun claim_error :: "exn \<Rightarrow> exn" where
  "claim_error (ValueError m) = KVCRServiceError m"
| "claim_error (RecoveryMirrorError m) = KVCRServiceError m"
| "claim_error e = e"

text \<open>What a grant carries, besides the descriptor of the listener.\<close>

type_synonym grant = "KVCRPoolSpec \<times> PoolDescriptor list \<times> lease"

text \<open>What \<open>begin_close\<close> of another thread does to a Guard whose thread runs.\<close>

definition request_close :: "guard \<Rightarrow> guard" where
  "request_close g =
     g\<lparr>g_closing := True, g_commands := (if g_closing g then g_commands g else g_commands g @ [CloseCmd])\<rparr>"

text \<open>The commit: from here on the lease exists, unless the service is closing, possibly since this claim began.\<close>

definition claim_commit :: "guard_env \<Rightarrow> lease \<Rightarrow> grant gx" where
  "claim_commit env l =
     thenS (modS (\<lambda>g. if ge_closing_meanwhile env then request_close g else g)) (readS (\<lambda>g.
       if \<not> g_closing g \<and> \<not> ge_refusing env then
         thenS (modS (\<lambda>g. g\<lparr>g_lease := (g_lease g)\<lparr>current := Some l\<rparr>, g_last_heartbeat := None, g_phase := PRIMARY,
             g_events := g_events g @ [GrantedTo l]\<rparr>))
           (retS (rs_spec (g_recovery g), rs_pools (g_recovery g), l))
       else
         thenS (guard_release env) (thenS (set_phase IDLE) (raiseS (KVCRServiceError ''KVCR pool registry is closed'')))))"

definition forget_listener :: "guard_env \<Rightarrow> unit gx" where
  "forget_listener env = (\<lambda>g.
     case unbind (ge_listener_close env) (g_lease g) of (unbind_error, p) \<Rightarrow>
       (case unbind_error of None \<Rightarrow> retS () | Some x \<Rightarrow> escalate x) (g\<lparr>g_lease := p\<rparr>))"

definition guard_claim :: "guard_env \<Rightarrow> lease \<Rightarrow> TierConfig \<Rightarrow> string \<times> nat \<Rightarrow> grant gx" where
  "guard_claim env l tier address =
     bindS (on_lease (lease_bind (ge_create_server env) address)) (\<lambda>bound_here.
       exceptS
         (thenS (liftR (ge_dup env)) (thenS (liftR (ge_channel env))
           (thenS (guard_adopt env tier) (claim_commit env l))))
         (\<lambda>e. thenS (whenS bound_here (forget_listener env)) (raiseS (claim_error e))))"

subsection \<open>Watching the holder\<close>

definition heartbeat :: "time \<Rightarrow> lease \<Rightarrow> guard \<Rightarrow> guard" where
  "heartbeat t l g =
     (if g_heartbeat_timeout g = None \<or> \<not> is_current l (g_lease g) \<or> g_serving g \<or> g_reserved g = Some PROMOTING
      then g else g\<lparr>g_last_heartbeat := Some t\<rparr>)"

text \<open>Whether the pool is safe to take over.\<close>

definition fence_missing_primary :: "guard_env \<Rightarrow> lease \<Rightarrow> bool gx" where
  "fence_missing_primary env l =
     (if ge_kill env = None \<or> ge_kill env = Some ''ESRCH'' then thenS (emitG (Fenced l)) (retS True)
      else thenS (modS (\<lambda>g. g\<lparr>g_fence_failed := Some l\<rparr>)) (retS False))"

definition heartbeat_missed :: "time \<Rightarrow> guard \<Rightarrow> bool" where
  "heartbeat_missed t g =
     (case (g_heartbeat_timeout g, g_last_heartbeat g) of
        (Some timeout, Some beat) \<Rightarrow> \<not> t - beat < timeout
      | _ \<Rightarrow> False)"

definition take_over :: "guard_env \<Rightarrow> lease \<Rightarrow> bool option \<Rightarrow> unit gx" where
  "take_over env l flags =
     (case flags of
        Some pollin \<Rightarrow>
          if \<not> pollin then raiseS (OSError ''pidfd poll returned without POLLIN'')
          else
            thenS (modS (\<lambda>g. g\<lparr>g_dead := (case incarnation l of None \<Rightarrow> g_dead g | Some i \<Rightarrow> add_end i (g_dead g))\<rparr>))
              (promote_for env l)
      | None \<Rightarrow>
          bindS (fence_missing_primary env l) (\<lambda>fenced.
            whenS fenced (thenS (guard_promote env) (modS (\<lambda>g. g\<lparr>g_last_heartbeat := None\<rparr>)))))"

text \<open>
  The lock is given up while the pidfd is polled. The poll changes nothing of the Guard and only the
  actor changes the phase and the lease, so the checks after it are the ones that decide.
\<close>

definition observe_holder :: "guard_env \<Rightarrow> unit gx" where
  "observe_holder env = readS (\<lambda>g.
     if g_phase g \<noteq> PRIMARY \<or> g_reserved g \<noteq> None \<or> g_closing g then retS ()
     else case current (g_lease g) of
       None \<Rightarrow> raiseS (TypeError ''NoneType'')
     | Some l \<Rightarrow> bindS (liftR (ge_pidfd env)) (\<lambda>flags.
         if flags = None \<and> \<not> heartbeat_missed (ge_now env) g then retS ()
         else
           thenS (modS (\<lambda>g. g\<lparr>g_reserved := Some PROMOTING\<rparr>))
             (finallyS (exceptS (take_over env l flags) guard_fail) (\<lambda>g. g\<lparr>g_reserved := None\<rparr>))))"

subsection \<open>Polling\<close>

text \<open>Orphaned cores are closed once they are registered; one that will not close stays listed.\<close>

fun close_orphans :: "guard_env \<Rightarrow> unit core list \<Rightarrow> unit res \<times> unit core list" where
  "close_orphans env [] = (Inr (), [])"
| "close_orphans env (c # cs) =
     (if ge_prepare_ready env c then
        (case close_core_act env c of
           (Inl e, c') \<Rightarrow> (Inl e, c' # cs)
         | (Inr _, _) \<Rightarrow> close_orphans env cs)
      else (case close_orphans env cs of (r, rest) \<Rightarrow> (r, c # rest)))"

definition poll_orphans :: "guard_env \<Rightarrow> unit gx" where
  "poll_orphans env = (\<lambda>g. case close_orphans env (g_orphans g) of (r, rest) \<Rightarrow> (r, g\<lparr>g_orphans := rest\<rparr>))"

definition poll_body :: "guard_env \<Rightarrow> bool gx" where
  "poll_body env =
     thenS (poll_orphans env) (readS (\<lambda>g.
       if g_serving g then thenS (on_core (poll_completed (ge_notified env) (ge_items env))) (retS False)
       else
         thenS (if g_core g \<noteq> None then (case ge_core_failure env of None \<Rightarrow> retS () | Some e \<Rightarrow> raiseS e) else retS ())
           (on_recovery (rs_poll (ge_recovery env)))))"

fun is_mirror_error :: "exn \<Rightarrow> bool" where
  "is_mirror_error (RecoveryMirrorError _) = True"
| "is_mirror_error _ = False"

definition guard_poll :: "guard_env \<Rightarrow> bool gx" where
  "guard_poll env = readS (\<lambda>g.
     if g_failure g \<noteq> None then retS False
     else exceptS (poll_body env) (\<lambda>e.
       thenS (whenS (is_mirror_error e) (on_recovery invalidate_journal))
         (thenS (record_background_failure env e) (retS False))))"

subsection \<open>Shutdown\<close>

text \<open>A core that fails to close but is at rest may be left; one that is not keeps the pool mapped.\<close>

definition close_core :: "guard_env \<Rightarrow> (unit, unit) act" where
  "close_core env = exceptS (close_core_act env) (\<lambda>e. readS (\<lambda>c. if \<not> fst (ge_close env c) then raiseS e else retS ()))"

abbreviation first_failure :: "exn option \<Rightarrow> exn option \<Rightarrow> exn option" where
  "first_failure failure error \<equiv> (if failure = None then error else failure)"

definition failure_of :: "'a res \<Rightarrow> exn option" where
  "failure_of r = (case r of Inl e \<Rightarrow> Some e | Inr _ \<Rightarrow> None)"

fun close_cores :: "guard_env \<Rightarrow> unit core list \<Rightarrow> exn option \<times> unit core list" where
  "close_cores env [] = (None, [])"
| "close_cores env (c # cs) =
     (case close_core env c of (r, c') \<Rightarrow>
        (case close_cores env cs of (failure, rest) \<Rightarrow>
           (first_failure (failure_of r) failure, (if failure_of r = None then rest else c' # rest))))"

definition stop_cores :: "guard_env \<Rightarrow> exn option gx" where
  "stop_cores env = (\<lambda>g.
     case close_cores env (g_orphans g) of (failure, rest) \<Rightarrow>
       (case g_core g of
          None \<Rightarrow> (Inr failure, g\<lparr>g_orphans := rest\<rparr>)
        | Some c \<Rightarrow>
            (case close_core env c of (r, c') \<Rightarrow>
               (Inr (first_failure failure (failure_of r)), g\<lparr>g_orphans := rest, g_core := Some c'\<rparr>))))"

text \<open>Runs a part of the shutdown and keeps the first failure.\<close>

definition attempt :: "unit gx \<Rightarrow> exn option \<Rightarrow> exn option gx" where
  "attempt m failure = (\<lambda>g. case m g of (r, g') \<Rightarrow> (Inr (first_failure failure (failure_of r)), g'))"

definition raise_failure :: "exn option \<Rightarrow> unit gx" where
  "raise_failure failure = (case failure of None \<Rightarrow> retS () | Some e \<Rightarrow> raiseS e)"

definition close_lease :: "guard_env \<Rightarrow> unit gx" where
  "close_lease env =
     thenS (modS (\<lambda>g. case current (g_lease g) of None \<Rightarrow> g | Some l \<Rightarrow> g\<lparr>g_events := g_events g @ [LeaseClosed l]\<rparr>))
       (on_lease (lease_close (ge_listener_close env)))"

definition close_resources :: "guard_env \<Rightarrow> unit gx" where
  "close_resources env =
     bindS (stop_cores env) (\<lambda>failure.
     thenS (raise_failure failure)
     (bindS (attempt (close_control env) None) (\<lambda>failure.
      bindS (attempt (on_recovery (rs_close (ge_recovery env))) failure) (\<lambda>failure.
      bindS (attempt (close_lease env) failure) raise_failure))))"

definition guard_close :: "guard_env \<Rightarrow> unit gx" where
  "guard_close env =
     thenS (close_resources env) (thenS (modS (\<lambda>g. g\<lparr>g_closed := True\<rparr>)) (set_phase CLOSED))"

definition begin_close :: "guard_env \<Rightarrow> unit gx" where
  "begin_close env = readS (\<lambda>g.
     if g_thread g \<noteq> Running then
       thenS (modS (\<lambda>g. g\<lparr>g_closing := True\<rparr>))
         (whenS (\<not> g_closed g) (thenS (close_resources env) (modS (\<lambda>g. g\<lparr>g_closed := True\<rparr>))))
     else modS request_close)"

text \<open>True means that the thread did not stop in time.\<close>

definition finish_close :: "bool gx" where
  "finish_close = readS (\<lambda>g.
     case g_thread g of
       NotStarted \<Rightarrow> retS False
     | Running \<Rightarrow> retS True
     | Ended \<Rightarrow> (case g_failure g of Some e \<Rightarrow> if \<not> g_closed g then raiseS e else retS False | None \<Rightarrow> retS False))"

definition reclaim_pool :: "guard_env \<Rightarrow> unit gx" where
  "reclaim_pool env = readS (\<lambda>g.
     if \<not> g_owner g \<or> rs_attached (g_recovery g) then retS ()
     else thenS (liftR (ge_owner_close env)) (modS (\<lambda>g. g\<lparr>g_owner := False\<rparr>)))"

text \<open>\<open>close()\<close>; \<open>meanwhile\<close> is what the actor does while it is joined.\<close>

definition guard_shutdown :: "guard_env \<Rightarrow> (guard \<Rightarrow> guard) \<Rightarrow> unit gx" where
  "guard_shutdown env meanwhile =
     thenS (exceptS
         (thenS (begin_close env) (thenS (modS meanwhile)
           (bindS finish_close (\<lambda>wedged.
              whenS wedged (raiseS (TimeoutError ''KVCR Guard lifecycle thread did not stop''))))))
         (\<lambda>e. thenS (readS (\<lambda>g. whenS (g_thread g \<noteq> Running) (suppressed (reclaim_pool env)))) (raiseS e)))
       (readS (\<lambda>g. whenS (g_thread g \<noteq> Running) (reclaim_pool env)))"

subsection \<open>Callers\<close>

definition guard_start :: "guard_env \<Rightarrow> unit gx" where
  "guard_start env = readS (\<lambda>g.
     if g_started g then raiseS (RuntimeError ''Guard preparation was already attempted'')
     else thenS (modS (\<lambda>g. g\<lparr>g_started := True\<rparr>))
       (thenS (on_recovery (rs_prepare (ge_recovery env))) (modS (\<lambda>g. g\<lparr>g_thread := Running\<rparr>))))"

definition reserve_claim :: "guard_env \<Rightarrow> unit gx" where
  "reserve_claim env = readS (\<lambda>g.
     if g_closing g then raiseS (KVCRServiceError ''KVCR pool registry is closed'')
     else case g_failure g of
       Some e \<Rightarrow> raiseS e
     | None \<Rightarrow>
         if g_reserved g \<noteq> None then raiseS (KVCRServiceError ''KVCR Guard is busy'')
         else if g_phase g = PRIMARY then
           bindS (liftR (ge_pidfd env)) (\<lambda>flags. raiseS (KVCRServiceError
             (if flags = None then ''KVCR Guard is held by another worker'' else ''KVCR Guard is busy'')))
         else if g_phase g = PHASE_FAILED \<or> g_phase g = CLOSED
         then raiseS (KVCRServiceError ''KVCR pool registry is closed'')
         else modS (\<lambda>g. g\<lparr>g_reserved := Some CLAIMING\<rparr>))"

definition submit :: "command \<Rightarrow> unit gx" where
  "submit c = modS (\<lambda>g. g\<lparr>g_commands := g_commands g @ [c]\<rparr>)"

definition request_claim :: "guard_env \<Rightarrow> lease \<Rightarrow> TierConfig \<Rightarrow> string \<times> nat \<Rightarrow> unit gx" where
  "request_claim env l tier address = thenS (reserve_claim env) (submit (ClaimCmd l tier address))"

definition end_lease :: "lease \<Rightarrow> command \<Rightarrow> unit gx" where
  "end_lease l c = readS (\<lambda>g.
     if g_closing g \<or> \<not> is_current l (g_lease g) then retS ()
     else if g_reserved g = None
     then thenS (modS (\<lambda>g. g\<lparr>g_reserved := Some RELEASING\<rparr>)) (submit c)
     else if g_reserved g = Some PROMOTING then submit c
     else raiseS (KVCRServiceError ''KVCR Guard is busy''))"

definition request_release :: "lease \<Rightarrow> unit gx" where
  "request_release l = end_lease l (ReleaseCmd l)"

definition abort_grant :: "lease \<Rightarrow> unit gx" where
  "abort_grant l = end_lease l (AbortCmd l)"

subsection \<open>The actor\<close>

fun run_command :: "guard_env \<Rightarrow> command \<Rightarrow> grant option gx" where
  "run_command env (ClaimCmd l tier address) = bindS (guard_claim env l tier address) (\<lambda>grant. retS (Some grant))"
| "run_command env (ReleaseCmd l) = thenS (stand_down env l) (retS None)"
| "run_command env (AbortCmd l) = thenS (guard_abort env l) (retS None)"
| "run_command env CloseCmd = thenS (guard_close env) (retS None)"

fun ends_lease :: "command \<Rightarrow> lease option" where
  "ends_lease (ReleaseCmd l) = Some l"
| "ends_lease (AbortCmd l) = Some l"
| "ends_lease _ = None"

text \<open>One command, with what its future is answered. A failed close is final.\<close>

definition dispatch :: "guard_env \<Rightarrow> command \<Rightarrow> grant option gx" where
  "dispatch env c = readS (\<lambda>g.
     if (case ends_lease c of None \<Rightarrow> False | Some l \<Rightarrow> \<not> is_current l (g_lease g)) then retS None
     else
       thenS (whenS (ends_lease c \<noteq> None) (modS (\<lambda>g. g\<lparr>g_reserved := Some RELEASING\<rparr>)))
         (exceptS (finallyS (run_command env c) (\<lambda>g. g\<lparr>g_reserved := None\<rparr>))
           (\<lambda>e. thenS (whenS (c = CloseCmd) (modS (\<lambda>g. g\<lparr>g_failure := Some e, g_phase := PHASE_FAILED\<rparr>))) (raiseS e))))"

text \<open>However the thread ends, nothing queued may wait forever.\<close>

definition end_thread :: "guard \<Rightarrow> guard" where
  "end_thread g = g\<lparr>g_closing := True, g_commands := [], g_thread := Ended\<rparr>"

definition idle_turn :: "guard_env \<Rightarrow> guard \<Rightarrow> guard" where
  "idle_turn env g =
     (case thenS (observe_holder env) (guard_poll env) g of
        (Inr _, g') \<Rightarrow> g'
      | (Inl e, g') \<Rightarrow> end_thread (snd (record_background_failure env e g')))"

definition actor_turn :: "guard_env \<Rightarrow> guard \<Rightarrow> guard" where
  "actor_turn env g =
     (case g_commands g of
        [] \<Rightarrow> idle_turn env g
      | c # cs \<Rightarrow>
          (let g' = snd (dispatch env c (g\<lparr>g_commands := cs\<rparr>)) in if c = CloseCmd then end_thread g' else g'))"

end
