(* ===== verification/KVCR_GuardInv.thy ===== *)
theory KVCR_GuardInv
  imports KVCR_Guard
begin

text \<open>
  What holds of a Guard however its callers, its actor, the primary that shares its pool and the progress
  thread of its core interleave: at most one lease is open, the Guard serves beside an open lease only
  after it fenced the holder, the tiers are those of the first claim, and its core is well formed.
\<close>

subsection \<open>Steps\<close>

text \<open>
  An operation is one step. A caller that ends a lease while the actor promotes queues its command
  without a reservation (\<open>late\<close>, allowed at any time here). The primary and its journal write the shared
  file (\<open>shared\<close>); the core runs on its own thread between the calls of the actor (\<open>runs\<close>).
\<close>

inductive guard_step :: "guard \<Rightarrow> guard \<Rightarrow> bool" where
  starts: "guard_step g (snd (guard_start env g))"
| claims: "guard_step g (snd (request_claim env l tier address g))"
| releases: "guard_step g (snd (request_release l g))"
| aborts: "guard_step g (snd (abort_grant l g))"
| late: "ends_lease c \<noteq> None \<Longrightarrow> guard_step g (snd (submit c g))"
| beats: "guard_step g (heartbeat t l g)"
| closes: "guard_step g (snd (begin_close env g))"
| turn: "g_thread g = Running \<Longrightarrow> guard_step g (actor_turn env g)"
| shared: "guard_step g (g\<lparr>g_recovery := (g_recovery g)\<lparr>rs_file := bs\<rparr>\<rparr>)"
| runs: "g_core g = Some c \<Longrightarrow> reaches c c' \<Longrightarrow> guard_step g (g\<lparr>g_core := Some c'\<rparr>)"

inductive guard_reaches :: "guard \<Rightarrow> guard \<Rightarrow> bool" where
  here: "guard_reaches g g"
| more: "guard_reaches g h \<Longrightarrow> guard_step h k \<Longrightarrow> guard_reaches g k"

subsection \<open>Rules\<close>

lemma triple_except:
  "triple P m Q R \<Longrightarrow> (\<And>e. triple (R e) (h e) Q E) \<Longrightarrow> triple P (exceptS m h) Q E"
  unfolding triple_iff exceptS_def by (auto split: prod.splits sum.splits)

lemma keeps_except [keeps_rules]: "keeps I m \<Longrightarrow> (\<And>e. keeps I (h e)) \<Longrightarrow> keeps I (exceptS m h)"
  unfolding keeps_def by (rule triple_except [where R = "\<lambda>_. I"])

lemma keeps_suppressed [keeps_rules]: "keeps I m \<Longrightarrow> keeps I (suppressed m)"
  by (simp add: keeps_iff suppressed_def)

lemma keeps_option: "(opt = None \<Longrightarrow> keeps I m) \<Longrightarrow> (\<And>x. opt = Some x \<Longrightarrow> keeps I (f x)) \<Longrightarrow>
    keeps I (case opt of None \<Rightarrow> m | Some x \<Rightarrow> f x)"
  by (cases opt) auto

lemma keeps_on_recovery: "(\<And>g s. I g \<Longrightarrow> I (g\<lparr>g_recovery := s\<rparr>)) \<Longrightarrow> keeps I (on_recovery m)"
  by (auto simp: keeps_iff on_recovery_def split: prod.split)

lemma keeps_on_core: "(\<And>g c. I g \<Longrightarrow> I (g\<lparr>g_core := c\<rparr>)) \<Longrightarrow> keeps I (on_core m)"
  by (auto simp: keeps_iff on_core_def split: prod.split option.split)

subsection \<open>What the parts leave alone\<close>

text \<open>The fields that the operations on the parts of a Guard do not touch.\<close>

definition control :: "guard \<Rightarrow> pool_lease \<times> command list \<times> thread \<times> bool \<times> Phase option \<times> guard_event list \<times> Phase
    \<times> exn option \<times> bool" where
  "control g = (g_lease g, g_commands g, g_thread g, g_closing g, g_reserved g, g_events g, g_phase g, g_failure g,
     g_closed g)"

lemma control_frame [simp]:
  "control (g\<lparr>g_recovery := a\<rparr>) = control g" "control (g\<lparr>g_core := b\<rparr>) = control g" "control (g\<lparr>g_orphans := c\<rparr>) = control g"
  "control (g\<lparr>g_serving := d\<rparr>) = control g" "control (g\<lparr>g_resumable := d\<rparr>) = control g" "control (g\<lparr>g_control := d\<rparr>) = control g"
  "control (g\<lparr>g_dead := e\<rparr>) = control g" "control (g\<lparr>g_last_heartbeat := f\<rparr>) = control g" "control (g\<lparr>g_fence_failed := h\<rparr>) = control g"
  "control (g\<lparr>g_started := d\<rparr>) = control g" "control (g\<lparr>g_configured := t\<rparr>) = control g"
  by (simp_all add: control_def)

lemmas control_rules = keeps_rules keeps_read_any keeps_mod keeps_option keeps_on_recovery keeps_on_core

lemma control_prepare_core: "keeps (\<lambda>g. P (control g)) (prepare_core env)"
  unfolding prepare_core_def Let_def by (auto intro!: control_rules)

lemma control_promote: "keeps (\<lambda>g. P (control g)) (guard_promote env)"
  unfolding guard_promote_def guard_serve_def by (auto intro!: control_rules)

lemma control_hand_back: "keeps (\<lambda>g. P (control g)) (guard_hand_back env)"
  unfolding guard_hand_back_def by (auto intro!: control_rules)

lemma control_close_control: "keeps (\<lambda>g. P (control g)) (close_control env)"
  unfolding close_control_def by (auto intro!: control_rules)

lemma control_release: "keeps (\<lambda>g. P (control g)) (guard_release env)"
  unfolding guard_release_def release_core_def by (auto intro!: control_rules control_hand_back control_close_control)

lemma control_poll_body: "keeps (\<lambda>g. P (control g)) (poll_body env)"
proof -
  have "keeps (\<lambda>g. P (control g)) (poll_orphans env)"
    by (auto simp: keeps_iff poll_orphans_def split: prod.split)
  then show ?thesis unfolding poll_body_def by (auto intro!: control_rules)
qed

subsection \<open>The parts stay well formed\<close>

definition cores_ok :: "guard \<Rightarrow> bool" where
  "cores_ok g \<longleftrightarrow> list_all (pools_ok no_g3) (g_orphans g) \<and> (\<forall>c. g_core g = Some c \<longrightarrow> pools_ok no_g3 c)"

text \<open>A Guard whose parts are well formed, its cores only if \<open>b\<close>.\<close>

definition parts_ok :: "bool \<Rightarrow> guard \<Rightarrow> bool" where
  "parts_ok b g \<longleftrightarrow> rs_ok (g_recovery g) \<and> (b \<longrightarrow> cores_ok g)"

lemma parts_frame [simp]:
  "parts_ok b (g\<lparr>g_control := d\<rparr>) = parts_ok b g" "parts_ok b (g\<lparr>g_resumable := d\<rparr>) = parts_ok b g"
  "parts_ok b (g\<lparr>g_serving := d\<rparr>) = parts_ok b g" "parts_ok b (g\<lparr>g_phase := a\<rparr>) = parts_ok b g"
  "parts_ok b (g\<lparr>g_failure := f\<rparr>) = parts_ok b g" "parts_ok b (g\<lparr>g_events := es\<rparr>) = parts_ok b g"
  "parts_ok b (g\<lparr>g_configured := t\<rparr>) = parts_ok b g" "parts_ok b (g\<lparr>g_lease := p\<rparr>) = parts_ok b g"
  "parts_ok b (g\<lparr>g_last_heartbeat := h\<rparr>) = parts_ok b g" "parts_ok b (g\<lparr>g_closing := d\<rparr>) = parts_ok b g"
  "parts_ok b (g\<lparr>g_commands := cs\<rparr>) = parts_ok b g" "parts_ok b (g\<lparr>g_reserved := q\<rparr>) = parts_ok b g"
  "parts_ok b (g\<lparr>g_dead := ds\<rparr>) = parts_ok b g" "parts_ok b (g\<lparr>g_fence_failed := l\<rparr>) = parts_ok b g"
  "parts_ok b (g\<lparr>g_closed := d\<rparr>) = parts_ok b g" "parts_ok b (g\<lparr>g_started := d\<rparr>) = parts_ok b g"
  "parts_ok b (g\<lparr>g_thread := th\<rparr>) = parts_ok b g"
  by (simp_all add: parts_ok_def cores_ok_def)

lemma parts_core [simp]:
  "parts_ok b g \<Longrightarrow> parts_ok b (g\<lparr>g_core := None\<rparr>)"
  "parts_ok b g \<Longrightarrow> (b \<Longrightarrow> pools_ok no_g3 c) \<Longrightarrow> parts_ok b (g\<lparr>g_core := Some c\<rparr>)"
  by (simp_all add: parts_ok_def cores_ok_def)

lemma parts_weaken: "parts_ok b g \<Longrightarrow> parts_ok False g"
  by (simp add: parts_ok_def)

lemma parts_on_recovery: "keeps rs_ok m \<Longrightarrow> keeps (parts_ok b) (on_recovery m)"
  by (simp add: keeps_iff on_recovery_def parts_ok_def cores_ok_def case_prod_beta)

lemma parts_on_core: "keeps (pools_ok no_g3) m \<Longrightarrow> keeps (parts_ok b) (on_core m)"
  by (simp add: keeps_iff on_core_def parts_ok_def cores_ok_def case_prod_beta split: option.split)

lemma keeps_close_core_act: "keeps (pools_ok no_g3) (close_core_act env)"
  unfolding close_core_act_def
  by (auto intro!: keeps_read_any keeps_core_close keeps_ret keeps_raise split: prod.split option.split)

lemmas parts_rules = keeps_rules keeps_read_any keeps_mod keeps_option parts_on_recovery parts_on_core keeps_close_core_act

lemma parts_prepare_core: "keeps (parts_ok b) (prepare_core env)"
proof -
  have "keeps (parts_ok b) (bindS (liftR (core_init c bi (guard_backends env tier pools) () t0 seed)) (\<lambda>c.
      thenS (modS (\<lambda>g. g\<lparr>g_core := Some c\<rparr>)) (liftR r)))" for c bi tier pools t0 seed and r :: "unit res"
  proof (cases "core_init c bi (guard_backends env tier pools) () t0 seed")
    case (Inl e)
    then show ?thesis by (simp add: keeps_iff liftR_def bindS_def raiseS_def)
  next
    case (Inr s)
    have ok: "pools_ok no_g3 s" by (rule core_init_ok [OF Inr]) (simp add: guard_backends_def)
    have eq: "bindS (liftR (Inr s)) f = f s" for f :: "unit core \<Rightarrow> unit gx"
      by (simp add: liftR_def bindS_def retS_def)
    show ?thesis unfolding Inr eq by (intro keeps_then keeps_mod keeps_lift) (simp add: ok)
  qed
  then show ?thesis unfolding prepare_core_def Let_def by (auto intro!: keeps_read_any keeps_option keeps_if keeps_raise)
qed

lemma core_records_dict: "dict_wf (core_records c)"
  by (simp add: core_records_def dict_wf_def distinct_clearjunk)

lemma parts_hand_back: "keeps (parts_ok b) (guard_hand_back env)"
proof -
  have "triple (parts_ok b) (on_core (thenS (close_core_act env) (getS core_records)))
      (\<lambda>t g. parts_ok b g \<and> dict_wf t) (\<lambda>_. parts_ok b)"
  proof -
    have "keeps (parts_ok b) (on_core (thenS (close_core_act env) (getS core_records)))"
      by (auto intro!: parts_rules)
    moreover have "dict_wf t" if "on_core (thenS (close_core_act env) (getS core_records)) g = (Inr t, g')" for t g g'
      using that core_records_dict
      by (auto simp: on_core_def thenS_def bindS_def getS_def split: option.splits prod.splits sum.splits)
    ultimately show ?thesis unfolding keeps_def triple_iff by blast
  qed
  moreover have "triple (\<lambda>g. parts_ok b g \<and> dict_wf t) (thenS (on_recovery (rs_hand_back (ge_recovery env) t))
      (modS (\<lambda>g. g\<lparr>g_core := None, g_serving := False\<rparr>))) (\<lambda>_. parts_ok b) (\<lambda>_. parts_ok b)" for t
  proof (cases "dict_wf t")
    case True
    have "keeps (parts_ok b) (thenS (on_recovery (rs_hand_back (ge_recovery env) t))
        (modS (\<lambda>g. g\<lparr>g_core := None, g_serving := False\<rparr>)))"
      by (auto intro!: keeps_then parts_on_recovery keeps_rs_hand_back True keeps_mod)
    then show ?thesis unfolding keeps_def by (rule triple_pre) simp
  qed (simp add: triple_iff)
  ultimately have "keeps (parts_ok b) (bindS (on_core (thenS (close_core_act env) (getS core_records))) (\<lambda>table.
      thenS (on_recovery (rs_hand_back (ge_recovery env) table)) (modS (\<lambda>g. g\<lparr>g_core := None, g_serving := False\<rparr>))))"
    unfolding keeps_def by (rule triple_bind)
  then show ?thesis unfolding guard_hand_back_def by (auto intro!: keeps_read_any keeps_if keeps_raise)
qed

lemma parts_close_control: "keeps (parts_ok b) (close_control env)"
  unfolding close_control_def by (auto intro!: parts_rules)

lemma parts_release_core: "g_core g = Some c \<Longrightarrow> parts_ok b g \<Longrightarrow> parts_ok b (snd (release_core env c g))"
proof (cases "ge_prepare_ready env c")
  case True
  assume "parts_ok b g"
  moreover have "keeps (parts_ok b) (release_core env c)"
    unfolding release_core_def using True by (auto intro!: parts_rules)
  ultimately show ?thesis by (simp add: keeps_iff)
next
  case False
  assume "g_core g = Some c" "parts_ok b g"
  then show ?thesis
    using False by (simp add: release_core_def thenS_def bindS_def modS_def parts_ok_def cores_ok_def)
qed

lemma parts_release: "keeps (parts_ok b) (guard_release env)"
proof -
  have core: "keeps (parts_ok b) (readS (\<lambda>g. if g_serving g
      then thenS (guard_hand_back env) (on_recovery (modS (\<lambda>s. s\<lparr>rs_mirror := None\<rparr>)))
      else case g_core g of None \<Rightarrow> retS () | Some c \<Rightarrow> release_core env c))"
  proof (rule keeps_read, goal_cases)
    case (1 g)
    have "keeps (parts_ok b) (thenS (guard_hand_back env) (on_recovery (modS (\<lambda>s. s\<lparr>rs_mirror := None\<rparr>))))"
      by (auto intro!: keeps_then parts_hand_back parts_on_recovery keeps_mod)
    then show ?case using 1 by (auto simp: keeps_iff retS_def parts_release_core split: option.split)
  qed
  let ?rest = "thenS (readS (\<lambda>g. whenS (rs_mirror (g_recovery g) \<noteq> None) (on_recovery (rs_release (ge_recovery env)))))
    (close_control env)"
  have rest: "keeps (parts_ok b) ?rest" by (auto intro!: parts_rules keeps_rs_release parts_close_control)
  have eq: "guard_release env = thenS (modS (\<lambda>g. g\<lparr>g_resumable := False\<rparr>)) (readS (\<lambda>g.
      case g_failure g of Some e \<Rightarrow> raiseS e | None \<Rightarrow> thenS (readS (\<lambda>g. if g_serving g
        then thenS (guard_hand_back env) (on_recovery (modS (\<lambda>s. s\<lparr>rs_mirror := None\<rparr>)))
        else case g_core g of None \<Rightarrow> retS () | Some c \<Rightarrow> release_core env c)) ?rest))"
    by (auto simp: guard_release_def fun_eq_iff readS_def thenS_def bindS_def modS_def split: option.split prod.split sum.split)
  show ?thesis unfolding eq by (auto intro!: keeps_then keeps_mod keeps_read_any keeps_option keeps_raise core rest)
qed

lemma parts_on_recovery_result:
  assumes "triple P m (\<lambda>x s. rs_ok s \<and> S x) (\<lambda>_. rs_ok)" and "\<And>s. rs_ok s \<Longrightarrow> P s"
  shows "triple (parts_ok True) (on_recovery m) (\<lambda>x g. parts_ok True g \<and> S x) (\<lambda>_. parts_ok False)"
proof (rule tripleI)
  fix g
  assume g: "parts_ok True g"
  obtain r s where m: "m (g_recovery g) = (r, s)" by fastforce
  have P: "P (g_recovery g)" using assms(2) g by (simp add: parts_ok_def)
  show "case on_recovery m g of (Inl e, g') \<Rightarrow> parts_ok False g' | (Inr x, g') \<Rightarrow> parts_ok True g' \<and> S x"
    using triple_Inl [OF assms(1) P] triple_Inr [OF assms(1) P] g m
    by (cases r) (auto simp: on_recovery_def parts_ok_def cores_ok_def)
qed

lemma parts_install:
  assumes "table_ok t"
  shows "triple (parts_ok True) (on_core (install_recovery_records t)) (\<lambda>_. parts_ok True) (\<lambda>_. parts_ok False)"
proof (rule tripleI)
  fix g
  assume g: "parts_ok True g"
  show "case on_core (install_recovery_records t) g of (Inl e, g') \<Rightarrow> parts_ok False g' | (Inr x, g') \<Rightarrow> parts_ok True g'"
  proof (cases "g_core g")
    case None
    then show ?thesis using parts_weaken [OF g] by (simp add: on_core_def)
  next
    case (Some c)
    obtain r c' where i: "install_recovery_records t c = (r, c')" by fastforce
    have "pools_ok no_g3 c" using g Some by (simp add: parts_ok_def cores_ok_def)
    then have "r = Inr () \<Longrightarrow> pools_ok no_g3 c'" using install_ok [of c t c'] assms i by (simp add: table_ok_def)
    then show ?thesis using g Some i by (cases r) (auto simp: on_core_def parts_ok_def cores_ok_def)
  qed
qed

text \<open>A promotion that fails may leave a core half filled; the Guard then records the failure.\<close>

lemma parts_serve:
  assumes "table_ok t"
  shows "triple (parts_ok True) (guard_serve env t) (\<lambda>_. parts_ok True) (\<lambda>_. parts_ok False)"
  unfolding guard_serve_def
proof (rule triple_bind [OF parts_on_recovery_result [OF prepare_to_serve_ok [of t]]], goal_cases)
  case (2 x)
  have rest: "keeps (parts_ok True) (thenS (on_recovery (rs_release_region (ge_recovery env)))
      (thenS (liftR (ge_start env)) (modS (\<lambda>g. g\<lparr>g_serving := True\<rparr>))))"
    by (intro keeps_then parts_on_recovery keeps_rs_release_region keeps_lift keeps_mod) simp
  have "triple (\<lambda>g. g = g0 \<and> parts_ok True g \<and> table_ok x) (thenS (on_core (install_recovery_records x))
      (thenS (on_recovery (rs_release_region (ge_recovery env))) (thenS (liftR (ge_start env))
        (modS (\<lambda>g. g\<lparr>g_serving := True\<rparr>))))) (\<lambda>_. parts_ok True) (\<lambda>_. parts_ok False)" for g0
  proof (cases "table_ok x")
    case True
    show ?thesis
      by (rule triple_then [OF triple_pre [OF parts_install [OF True]] triple_weaken [OF keepsD [OF rest]]])
        (auto intro: parts_weaken)
  qed (simp add: triple_iff)
  then show ?case by (intro triple_read triple_if triple_raise) (auto intro: parts_weaken)
qed (simp add: assms)

lemma parts_promote: "triple (parts_ok True) (guard_promote env) (\<lambda>_. parts_ok True) (\<lambda>_. parts_ok False)"
proof -
  have serve: "triple (\<lambda>g. parts_ok True g \<and> table_ok t) (guard_serve env t) (\<lambda>_. parts_ok True) (\<lambda>_. parts_ok False)" for t
    by (cases "table_ok t") (use parts_serve [of t env] in \<open>simp_all add: triple_iff\<close>)
  have take: "triple (parts_ok True) (on_recovery (take_for_promotion (ge_recovery env)))
      (\<lambda>x g. parts_ok True g \<and> table_ok x) (\<lambda>_. parts_ok False)"
    by (rule parts_on_recovery_result [OF take_for_promotion_ok])
  have "triple (\<lambda>g. g = g0 \<and> parts_ok True g) (case g_failure g0 of Some e \<Rightarrow> raiseS e
      | None \<Rightarrow> bindS (on_recovery (take_for_promotion (ge_recovery env))) (guard_serve env))
      (\<lambda>_. parts_ok True) (\<lambda>_. parts_ok False)" for g0
    by (cases "g_failure g0") (auto intro!: triple_raise triple_bind [OF triple_pre [OF take]] serve intro: parts_weaken)
  then show ?thesis unfolding guard_promote_def
    by (intro triple_then [OF triple_mod [where Q = "\<lambda>_. parts_ok True"] triple_read]) simp_all
qed

subsection \<open>Leases, phases and queued claims\<close>

text \<open>
  The holder of the pool after a sequence of events: \<open>None\<close> if a lease was granted while another was
  open, otherwise the open lease, if any.
\<close>

fun holder_step :: "lease option option \<Rightarrow> guard_event \<Rightarrow> lease option option" where
  "holder_step (Some None) (GrantedTo l) = Some (Some l)"
| "holder_step (Some (Some k)) (GrantedTo l) = None"
| "holder_step (Some (Some k)) (LeaseClosed l) = (if lease_id k = lease_id l then Some None else Some (Some k))"
| "holder_step h _ = h"

definition holder :: "guard_event list \<Rightarrow> lease option option" where
  "holder es = foldl holder_step (Some None) es"

lemma holder_simps [simp]:
  "holder [] = Some None" "holder (es @ [Escalated e]) = holder es" "holder (es @ [Fenced l]) = holder es"
  by (simp_all add: holder_def)

lemma holder_granted: "holder es = Some None \<Longrightarrow> holder (es @ [GrantedTo l]) = Some (Some l)"
  by (simp add: holder_def)

lemma holder_closed:
  "holder es = Some (current p) \<Longrightarrow> holder (es @ [LeaseClosed l]) = Some (current (clear_if_current l p))"
  by (cases "current p") (auto simp: holder_def clear_if_current_def is_current_def)

definition lease_ok :: "guard \<Rightarrow> bool" where
  "lease_ok g \<longleftrightarrow> holder (g_events g) = Some (current (g_lease g)) \<and>
     (g_serving g \<longrightarrow> (\<forall>l. current (g_lease g) = Some l \<longrightarrow> Fenced l \<in> set (g_events g)))"

definition phase_ok :: "guard \<Rightarrow> bool" where
  "phase_ok g \<longleftrightarrow> (g_failure g = None \<longrightarrow> (g_phase g = PRIMARY \<longleftrightarrow> current (g_lease g) \<noteq> None))"

text \<open>What holds while the actor runs a command: the claims it has taken are off the queue.\<close>

definition body_ok :: "guard \<Rightarrow> bool" where
  "body_ok g \<longleftrightarrow> lease_ok g \<and> phase_ok g \<and> parts_ok (g_failure g = None) g"

definition calm :: "'a gx \<Rightarrow> bool" where
  "calm m \<longleftrightarrow> (\<forall>P. keeps (\<lambda>g. P (control g)) m) \<and> (\<forall>b. keeps (\<lambda>g. g_serving g \<longrightarrow> b) m) \<and> (\<forall>b. keeps (parts_ok b) m)"

lemma calm_body: "calm m \<Longrightarrow> keeps (\<lambda>g. body_ok g \<and> Z (control g)) m"
  unfolding keeps_iff
proof (intro allI impI)
  fix g
  assume m: "calm m" and g: "body_ok g \<and> Z (control g)"
  have "keeps (\<lambda>h. control h = control g) m"
    using m unfolding calm_def by (elim conjE allE [where x = "\<lambda>c. c = control g"])
  moreover have "keeps (\<lambda>h. g_serving h \<longrightarrow> g_serving g) m" "keeps (parts_ok (g_failure g = None)) m"
    using m unfolding calm_def by blast+
  ultimately have "control (snd (m g)) = control g" "g_serving (snd (m g)) \<longrightarrow> g_serving g"
    "parts_ok (g_failure g = None) (snd (m g))"
    using g unfolding keeps_iff body_ok_def by blast+
  then show "body_ok (snd (m g)) \<and> Z (control (snd (m g)))"
    using g by (auto simp: body_ok_def lease_ok_def phase_ok_def control_def)
qed

lemma calm_triple: "calm m \<Longrightarrow> triple (\<lambda>g. body_ok g \<and> Z (control g)) m (\<lambda>_ g. body_ok g \<and> Z (control g)) (\<lambda>_ g. body_ok g \<and> Z (control g))"
  using calm_body keepsD by blast

lemma serving_hand_back: "keeps (\<lambda>g. g_serving g \<longrightarrow> b) (guard_hand_back env)"
  unfolding guard_hand_back_def by (auto intro!: control_rules)

lemma calm_hand_back: "calm (guard_hand_back env)"
  by (simp add: calm_def control_hand_back serving_hand_back parts_hand_back)

lemma calmI:
  "(\<And>P. keeps (\<lambda>g. P (control g)) m) \<Longrightarrow> (\<And>b. keeps (\<lambda>g. g_serving g \<longrightarrow> b) m) \<Longrightarrow> (\<And>b. keeps (parts_ok b) m) \<Longrightarrow> calm m"
  by (simp add: calm_def)

lemma serving_close_control: "keeps (\<lambda>g. g_serving g \<longrightarrow> b) (close_control env)"
  unfolding close_control_def by (auto intro!: control_rules)

lemma serving_release: "keeps (\<lambda>g. g_serving g \<longrightarrow> b) (guard_release env)"
  unfolding guard_release_def release_core_def by (auto intro!: control_rules serving_hand_back serving_close_control)

lemma serving_prepare_core: "keeps (\<lambda>g. g_serving g \<longrightarrow> b) (prepare_core env)"
  unfolding prepare_core_def Let_def by (auto intro!: control_rules)

lemma calm_close_control: "calm (close_control env)"
  by (intro calmI control_close_control serving_close_control parts_close_control)

lemma calm_release: "calm (guard_release env)"
  by (intro calmI control_release serving_release parts_release)

lemma calm_prepare_core: "calm (prepare_core env)"
  by (intro calmI control_prepare_core serving_prepare_core parts_prepare_core)

lemma calm_on_recovery: "keeps rs_ok m \<Longrightarrow> calm (on_recovery m)"
  by (intro calmI keeps_on_recovery parts_on_recovery) simp_all

lemma calm_on_core: "keeps (pools_ok no_g3) m \<Longrightarrow> calm (on_core m)"
  by (intro calmI keeps_on_core parts_on_core) simp_all

lemma calm_lift: "calm (liftR r)"
  by (simp add: calm_def keeps_lift)

lemma calm_then: "calm m \<Longrightarrow> calm n \<Longrightarrow> calm (thenS m n)"
  by (simp add: calm_def keeps_then)

lemma calm_control [simp]: "calm (modS (\<lambda>g. g\<lparr>g_control := b\<rparr>))" "calm (modS (\<lambda>g. g\<lparr>g_resumable := b\<rparr>))" "calm (modS (\<lambda>g. g\<lparr>g_configured := t\<rparr>))"
  by (simp_all add: calm_def keeps_iff modS_def)

lemma calm_read: "(\<And>g. calm (f g)) \<Longrightarrow> calm (readS f)"
  by (intro calmI keeps_read_any) (simp_all add: calm_def)

lemma calm_when: "(b \<Longrightarrow> calm m) \<Longrightarrow> calm (whenS b m)"
  by (simp add: calm_def keeps_when)

lemma calm_raise: "calm (raiseS e)"
  by (simp add: calm_def keeps_raise)

lemmas calm_rules = calm_then calm_read calm_when calm_lift calm_raise calm_on_recovery calm_on_core

text \<open>A recorded failure keeps what holds of the leases; nothing is promised of the cores any more.\<close>

definition body_weak :: "guard \<Rightarrow> bool" where
  "body_weak g \<longleftrightarrow> lease_ok g \<and> parts_ok False g"

lemma body_weaken: "body_ok g \<Longrightarrow> body_weak g"
  by (auto simp: body_ok_def body_weak_def intro: parts_weaken)

lemma body_frame [simp]:
  "body_ok (g\<lparr>g_reserved := q\<rparr>) = body_ok g" "body_ok (g\<lparr>g_last_heartbeat := h\<rparr>) = body_ok g"
  "body_ok (g\<lparr>g_commands := cs\<rparr>) = body_ok g" "body_ok (g\<lparr>g_closing := b\<rparr>) = body_ok g"
  "body_ok (g\<lparr>g_thread := th\<rparr>) = body_ok g" "body_ok (g\<lparr>g_closed := b\<rparr>) = body_ok g"
  "body_ok (g\<lparr>g_started := b\<rparr>) = body_ok g"
  by (simp_all add: body_ok_def lease_ok_def phase_ok_def)

lemma fail_body: "triple body_weak (guard_fail e) (\<lambda>_ g. body_ok g \<and> g_failure g \<noteq> None) E"
  unfolding guard_fail_def escalate_def triple_iff
  by (auto simp: thenS_def bindS_def modS_def body_weak_def body_ok_def lease_ok_def phase_ok_def)

lemma background_body:
  "triple body_weak (record_background_failure env e) (\<lambda>_ g. body_ok g \<and> g_failure g \<noteq> None) E"
proof -
  have step: "keeps (\<lambda>g. body_ok g \<and> (\<lambda>c. fst (snd (snd (snd (snd (snd (snd (snd c))))))) \<noteq> None) (control g))
      (readS (\<lambda>g. whenS (g_core g \<noteq> None) (suppressed (on_core (close_core_act env)))))"
    by (intro keeps_read_any keeps_when keeps_suppressed calm_body calm_on_core keeps_close_core_act)
  then have step: "triple (\<lambda>g. body_ok g \<and> g_failure g \<noteq> None)
      (readS (\<lambda>g. whenS (g_core g \<noteq> None) (suppressed (on_core (close_core_act env)))))
      (\<lambda>_ g. body_ok g \<and> g_failure g \<noteq> None) E"
    unfolding keeps_iff triple_iff
    by (auto simp: control_def readS_def whenS_def suppressed_def retS_def split: if_splits)
  show ?thesis unfolding record_background_failure_def escalate_def
    by (rule triple_then [OF triple_mod triple_then [OF step triple_mod]])
      (auto simp: body_weak_def body_ok_def lease_ok_def phase_ok_def)
qed

subsection \<open>Ending a lease\<close>

abbreviation held_by :: "lease \<Rightarrow> guard \<Rightarrow> bool" where
  "held_by l g \<equiv> is_current l (g_lease g)"

lemma end_holder_simps [simp]:
  "parts_ok b (end_holder l g) = parts_ok b g" "g_failure (end_holder l g) = g_failure g"
  "g_serving (end_holder l g) = g_serving g" "g_phase (end_holder l g) = g_phase g"
  by (simp_all add: end_holder_def)

text \<open>Only the open lease matters for serving, so a Guard without one may do either.\<close>

lemma end_holder_lease:
  assumes "holder (g_events g) = Some (current (g_lease g))" "held_by l g"
  shows "lease_ok (end_holder l g)" "current (g_lease (end_holder l g)) = None"
  using assms holder_closed [OF assms(1)] by (simp_all add: lease_ok_def end_holder_def clear_if_current_def)

lemma lease_holder: "lease_ok g \<Longrightarrow> holder (g_events g) = Some (current (g_lease g))"
  by (simp add: lease_ok_def)

lemma end_holder_weak: "body_weak g \<Longrightarrow> held_by l g \<Longrightarrow> body_weak (end_holder l g)"
  by (simp add: body_weak_def end_holder_lease lease_holder)

lemma end_holder_ok: "body_ok g \<Longrightarrow> held_by l g \<Longrightarrow> ph \<noteq> PRIMARY \<Longrightarrow> body_ok ((end_holder l g)\<lparr>g_phase := ph\<rparr>)"
  using end_holder_lease [of g l] by (auto simp: body_ok_def phase_ok_def lease_ok_def)

lemma end_holder_failed: "body_ok g \<Longrightarrow> held_by l g \<Longrightarrow> g_failure g \<noteq> None \<Longrightarrow> body_ok (end_holder l g)"
  using end_holder_lease [of g l] by (auto simp: body_ok_def phase_ok_def lease_ok_def)

lemma fail_raise:
  "triple body_weak (thenS (guard_fail e) (raiseS e)) Q (\<lambda>_ g. body_ok g \<and> g_failure g \<noteq> None)"
  by (rule triple_then [OF fail_body triple_raise]) simp

lemma fail_raise_held:
  "triple (\<lambda>g. body_weak g \<and> held_by l g) (thenS (guard_fail e) (raiseS e)) Q (\<lambda>_ g. body_ok g \<and> held_by l g \<and> g_failure g \<noteq> None)"
  unfolding guard_fail_def escalate_def triple_iff
  by (auto simp: thenS_def bindS_def modS_def raiseS_def body_weak_def body_ok_def lease_ok_def phase_ok_def)

lemma release_held:
  "triple (\<lambda>g. body_ok g \<and> held_by l g) (guard_release env) (\<lambda>_ g. body_ok g \<and> held_by l g) (\<lambda>_ g. body_ok g \<and> held_by l g)"
  using calm_triple [OF calm_release, where Z = "\<lambda>c. is_current l (fst c)"] by (simp add: control_def)

lemma stand_down_body: "triple (\<lambda>g. body_ok g \<and> held_by l g) (stand_down env l) (\<lambda>_. body_ok) (\<lambda>_. body_ok)"
proof -
  have "triple (\<lambda>g. body_ok g \<and> held_by l g) (exceptS (guard_release env) (\<lambda>e. thenS (guard_fail e) (raiseS e)))
      (\<lambda>_ g. body_ok g \<and> held_by l g) (\<lambda>_ g. body_ok g \<and> held_by l g \<and> g_failure g \<noteq> None)"
    by (rule triple_except [OF release_held triple_pre [OF fail_raise_held]]) (auto intro: body_weaken)
  then have "triple (\<lambda>g. body_ok g \<and> held_by l g)
      (finallyS (exceptS (guard_release env) (\<lambda>e. thenS (guard_fail e) (raiseS e))) (end_holder l))
      (\<lambda>_ g. body_ok (g\<lparr>g_phase := IDLE\<rparr>)) (\<lambda>_. body_ok)"
    by (intro triple_finally) (erule triple_weaken, simp_all add: end_holder_ok end_holder_failed)
  then show ?thesis unfolding stand_down_def by (rule triple_then) (rule triple_mod)
qed

lemma promote_result:
  assumes "parts_ok (g_failure g = None) g" "guard_promote env g = (r, h)"
  shows "control h = control g" "parts_ok False h" "r = Inr () \<Longrightarrow> parts_ok True h"
proof -
  have "keeps (\<lambda>h. control h = control g) (guard_promote env)" using control_promote [of "\<lambda>c. c = control g" env] by simp
  then show "control h = control g" using assms(2) unfolding keeps_iff by (metis snd_conv)
  show "parts_ok False h" "r = Inr () \<Longrightarrow> parts_ok True h"
  proof -
    have "parts_ok False h \<and> (r = Inr () \<longrightarrow> parts_ok True h)"
    proof (cases "g_failure g")
      case None
      then have g: "parts_ok True g" using assms(1) by simp
      show ?thesis
        using triple_Inr [OF parts_promote g] triple_Inl [OF parts_promote g] assms(2)
        by (cases r) (auto intro: parts_weaken)
    next
      case (Some e)
      then have "r = Inl e \<and> h = g\<lparr>g_resumable := False\<rparr>"
        using assms(2) by (simp add: guard_promote_def thenS_def bindS_def modS_def readS_def raiseS_def)
      then show ?thesis using assms(1) by (simp add: parts_weaken)
    qed
    then show "parts_ok False h" "r = Inr () \<Longrightarrow> parts_ok True h" by simp_all
  qed
qed

lemma promote_for_body: "triple (\<lambda>g. body_ok g \<and> held_by l g) (promote_for env l) (\<lambda>_. body_ok) (\<lambda>_. body_weak)"
proof -
  let ?held = "\<lambda>b g. holder (g_events g) = Some (current (g_lease g)) \<and> held_by l g \<and> parts_ok b g"
  have "triple (\<lambda>g. body_ok g \<and> held_by l g) (readS (\<lambda>g. whenS (\<not> g_serving g) (guard_promote env)))
      (\<lambda>_ g. ?held (g_failure g = None) g) (\<lambda>_. ?held False)"
  proof (rule tripleI)
    fix g
    assume g: "body_ok g \<and> held_by l g"
    obtain r h where p: "guard_promote env g = (r, h)" by fastforce
    have ok: "parts_ok (g_failure g = None) g" using g by (simp add: body_ok_def)
    have "control h = control g" "parts_ok False h" "r = Inr () \<Longrightarrow> parts_ok True h" by (rule promote_result [OF ok p])+
    then have "?held False h" "r = Inr () \<Longrightarrow> ?held (g_failure h = None) h"
      using g by (auto simp: control_def body_ok_def lease_ok_def parts_ok_def)
    then show "case readS (\<lambda>g. whenS (\<not> g_serving g) (guard_promote env)) g of
        (Inl e, h) \<Rightarrow> ?held False h | (Inr x, h) \<Rightarrow> ?held (g_failure h = None) h"
      using g by (cases r) (auto simp: readS_def whenS_def retS_def p body_ok_def lease_ok_def)
  qed
  then have "triple (\<lambda>g. body_ok g \<and> held_by l g)
      (finallyS (readS (\<lambda>g. whenS (\<not> g_serving g) (guard_promote env))) (end_holder l))
      (\<lambda>_ g. lease_ok g \<and> current (g_lease g) = None \<and> parts_ok (g_failure g = None) g) (\<lambda>_. body_weak)"
    by (intro triple_finally) (erule triple_weaken, simp_all add: end_holder_lease body_weak_def)
  then show ?thesis unfolding promote_for_def
    by (rule triple_then) (rule triple_mod, auto simp: body_ok_def phase_ok_def lease_ok_def)
qed

lemma abort_body: "triple (\<lambda>g. body_ok g \<and> held_by l g) (guard_abort env l) (\<lambda>_. body_ok) (\<lambda>_. body_ok)"
proof -
  have "triple (\<lambda>g. body_ok g \<and> held_by l g) (exceptS (promote_for env l) (\<lambda>e. thenS (guard_fail e) (raiseS e)))
      (\<lambda>_. body_ok) (\<lambda>_. body_ok)"
    by (rule triple_except [OF promote_for_body triple_weaken [OF fail_raise]]) auto
  then show ?thesis unfolding guard_abort_def
    by (intro triple_read triple_if) (auto intro: triple_pre stand_down_body)
qed

subsection \<open>Watching the holder\<close>

lemma take_over_body:
  "triple (\<lambda>g. body_ok g \<and> current (g_lease g) = Some l) (take_over env l flags) (\<lambda>_. body_ok) (\<lambda>_. body_weak)"
proof (cases flags)
  case (Some pollin)
  have "triple (\<lambda>g. body_ok g \<and> current (g_lease g) = Some l)
      (thenS (modS (\<lambda>g. g\<lparr>g_dead := (case incarnation l of None \<Rightarrow> g_dead g | Some i \<Rightarrow> add_end i (g_dead g))\<rparr>)) (promote_for env l))
      (\<lambda>_. body_ok) (\<lambda>_. body_weak)"
    by (rule triple_then [OF triple_mod promote_for_body])
      (auto simp: body_ok_def lease_ok_def phase_ok_def is_current_def)
  then show ?thesis using Some by (auto simp: take_over_def intro!: triple_raise body_weaken)
next
  case None
  let ?fenced = "\<lambda>g. body_ok g \<and> current (g_lease g) = Some l \<and> Fenced l \<in> set (g_events g)"
  have fence: "triple (\<lambda>g. body_ok g \<and> current (g_lease g) = Some l) (fence_missing_primary env l)
      (\<lambda>b g. if b then ?fenced g else body_ok g) (\<lambda>_. body_weak)"
    unfolding fence_missing_primary_def triple_iff
    by (auto simp: thenS_def bindS_def modS_def retS_def body_ok_def lease_ok_def phase_ok_def)
  have promote: "triple ?fenced (guard_promote env) (\<lambda>_. body_ok) (\<lambda>_. body_weak)"
  proof (rule tripleI)
    fix g
    assume g: "?fenced g"
    obtain r h where p: "guard_promote env g = (r, h)" by fastforce
    have ok: "parts_ok (g_failure g = None) g" using g by (simp add: body_ok_def)
    have "control h = control g" "parts_ok False h" "r = Inr () \<Longrightarrow> parts_ok True h" by (rule promote_result [OF ok p])+
    then show "case guard_promote env g of (Inl e, h) \<Rightarrow> body_weak h | (Inr x, h) \<Rightarrow> body_ok h"
      using g by (cases r) (auto simp: p control_def body_ok_def body_weak_def lease_ok_def phase_ok_def parts_ok_def)
  qed
  have "triple (\<lambda>g. if b then ?fenced g else body_ok g)
      (whenS b (thenS (guard_promote env) (modS (\<lambda>g. g\<lparr>g_last_heartbeat := None\<rparr>)))) (\<lambda>_. body_ok) (\<lambda>_. body_weak)" for b
    by (cases b) (simp_all add: whenS_def triple_ret triple_then [OF promote] triple_mod)
  then show ?thesis unfolding take_over_def None option.case by (rule triple_bind [OF fence])
qed

lemma observe_body: "triple body_ok (observe_holder env) (\<lambda>_. body_ok) (\<lambda>_. body_ok)"
proof -
  have promotes: "triple (\<lambda>g. body_ok g \<and> current (g_lease g) = Some l)
      (thenS (modS (\<lambda>g. g\<lparr>g_reserved := Some PROMOTING\<rparr>))
        (finallyS (exceptS (take_over env l flags) guard_fail) (\<lambda>g. g\<lparr>g_reserved := None\<rparr>))) (\<lambda>_. body_ok) (\<lambda>_. body_ok)" for l flags
  proof -
    have body: "triple (\<lambda>g. body_ok g \<and> current (g_lease g) = Some l) (exceptS (take_over env l flags) guard_fail)
        (\<lambda>_ g. body_ok (g\<lparr>g_reserved := None\<rparr>)) (\<lambda>_ g. body_ok (g\<lparr>g_reserved := None\<rparr>))"
      by (rule triple_except [OF triple_weaken [OF take_over_body] triple_weaken [OF fail_body]]) auto
    have "triple (\<lambda>g. body_ok g \<and> current (g_lease g) = Some l)
        (finallyS (exceptS (take_over env l flags) guard_fail) (\<lambda>g. g\<lparr>g_reserved := None\<rparr>)) (\<lambda>_. body_ok) (\<lambda>_. body_ok)"
      by (rule triple_finally) (rule body)
    then show ?thesis by (rule triple_then [rotated]) (rule triple_mod, simp)
  qed
  have "triple (\<lambda>g. g = g0 \<and> body_ok g) (case current (g_lease g0) of None \<Rightarrow> raiseS (TypeError ''NoneType'')
     | Some l \<Rightarrow> bindS (liftR (ge_pidfd env)) (\<lambda>flags.
         if flags = None \<and> \<not> heartbeat_missed (ge_now env) g0 then retS ()
         else thenS (modS (\<lambda>g. g\<lparr>g_reserved := Some PROMOTING\<rparr>))
             (finallyS (exceptS (take_over env l flags) guard_fail) (\<lambda>g. g\<lparr>g_reserved := None\<rparr>)))) (\<lambda>_. body_ok) (\<lambda>_. body_ok)" for g0
  proof (cases "current (g_lease g0)")
    case (Some l)
    show ?thesis unfolding Some option.case
      by (rule triple_bind [OF triple_lift [where Q = "\<lambda>_ g. g = g0 \<and> body_ok g"]])
        (auto intro!: triple_if triple_ret triple_pre [OF promotes] simp: Some)
  qed (auto intro!: triple_raise)
  then show ?thesis unfolding observe_holder_def by (intro triple_read triple_if triple_ret) auto
qed

end
