(* ===== verification/KVCR_GuardRun.thy ===== *)
theory KVCR_GuardRun
  imports KVCR_GuardInv
begin

text \<open>
  The invariant of a Guard over all its steps, and what follows from it: exclusive leases, a single
  server, fixed tiers and well-formed cores.
\<close>

subsection \<open>Claims\<close>

text \<open>A claim runs on a Guard that nobody holds, unless it has failed.\<close>

abbreviation unheld :: "guard \<Rightarrow> bool" where
  "unheld g \<equiv> (g_failure g = None \<longrightarrow> current (g_lease g) = None)"

definition vacant :: "guard \<Rightarrow> bool" where
  "vacant g \<longleftrightarrow> body_ok g \<and> g_failure g = None \<and> current (g_lease g) = None"

lemma calm_unheld: "calm m \<Longrightarrow> keeps (\<lambda>g. body_ok g \<and> unheld g) m"
  using calm_body [where Z = "\<lambda>(p, cs, th, c, r, es, ph, f, d). f = None \<longrightarrow> current p = None"] by (simp add: control_def)

lemma calm_vacant: "calm m \<Longrightarrow> keeps vacant m"
  using calm_body [where Z = "\<lambda>(p, cs, th, c, r, es, ph, f, d). f = None \<and> current p = None"]
  unfolding vacant_def by (simp add: control_def)

lemma calm_vacant_quiet:
  assumes "calm m"
  shows "keeps (\<lambda>g. vacant g \<and> \<not> g_serving g) m"
proof -
  have "keeps vacant m" by (rule calm_vacant [OF assms])
  moreover have "keeps (\<lambda>g. g_serving g \<longrightarrow> False) m" using assms unfolding calm_def by blast
  ultimately show ?thesis unfolding keeps_iff by blast
qed

lemma vacant_unheld: "vacant g \<Longrightarrow> body_ok g \<and> unheld g"
  by (simp add: vacant_def)

lemma bind_unheld: "keeps (\<lambda>g. body_ok g \<and> unheld g) (on_lease (lease_bind r a))"
  unfolding keeps_iff on_lease_def lease_bind_def
  by (auto simp: readS_def raiseS_def retS_def thenS_def bindS_def modS_def body_ok_def lease_ok_def phase_ok_def
      split: sum.split)

lemma forget_unheld: "keeps (\<lambda>g. body_ok g \<and> unheld g) (forget_listener env)"
  unfolding keeps_iff forget_listener_def unbind_def escalate_def
  by (auto simp: retS_def modS_def body_ok_def lease_ok_def phase_ok_def split: option.split sum.split)

lemma checks_vacant: "triple (\<lambda>g. body_ok g \<and> unheld g) (adopt_checks env tier) (\<lambda>_. vacant) (\<lambda>_ g. body_ok g \<and> unheld g)"
proof -
  have start: "triple (\<lambda>g. body_ok g \<and> unheld g) (readS (\<lambda>g. case g_failure g of Some e \<Rightarrow> raiseS e | None \<Rightarrow> retS ()))
      (\<lambda>_. vacant) (\<lambda>_ g. body_ok g \<and> unheld g)"
    unfolding triple_iff by (auto simp: readS_def raiseS_def retS_def vacant_def split: option.splits)
  have "calm (thenS (refuse_incompatible tier) (thenS (on_recovery (rs_configure (ge_recovery env) (tier_pool_layouts tier)))
      (modS (\<lambda>g. g\<lparr>g_configured := Some tier\<rparr>))))"
    unfolding refuse_incompatible_def by (intro calm_rules keeps_rs_configure calm_control)
  then have rest: "triple vacant (thenS (refuse_incompatible tier)
      (thenS (on_recovery (rs_configure (ge_recovery env) (tier_pool_layouts tier)))
        (modS (\<lambda>g. g\<lparr>g_configured := Some tier\<rparr>)))) (\<lambda>_. vacant) (\<lambda>_ g. body_ok g \<and> unheld g)"
    by (rule triple_weaken [OF keepsD [OF calm_vacant]]) (auto dest: vacant_unheld)
  have "triple (\<lambda>g. body_ok g \<and> unheld g) (thenS (liftR (ge_new_control_close env)) (raiseS e)) (\<lambda>_. vacant)
      (\<lambda>_ g. body_ok g \<and> unheld g)" for e
    by (rule triple_then [OF keepsD [OF calm_unheld [OF calm_lift]] triple_raise])
  then show ?thesis unfolding adopt_checks_def by (rule triple_except [OF triple_then [OF start rest]])
qed

lemma background_unheld:
  "triple (\<lambda>g. body_ok g \<and> unheld g) (record_background_failure env e) (\<lambda>_ g. body_ok g \<and> unheld g) E"
  by (rule triple_weaken [OF background_body]) (auto intro: body_weaken)

lemma hand_back_quiet: "guard_hand_back env g = (Inr (), h) \<Longrightarrow> \<not> g_serving h"
  unfolding guard_hand_back_def
  by (auto simp: readS_def raiseS_def thenS_def bindS_def modS_def split: if_splits prod.splits sum.splits)

lemma moves_quiet: "triple vacant (adopt_moves env) (\<lambda>_ g. vacant g \<and> \<not> g_serving g) (\<lambda>_ g. body_ok g \<and> unheld g)"
proof -
  let ?quiet = "\<lambda>g. vacant g \<and> \<not> g_serving g"
  have "triple vacant (guard_hand_back env) (\<lambda>_. ?quiet) (\<lambda>_. vacant)"
  proof (rule tripleI)
    fix g
    assume g: "vacant g"
    obtain r h where e: "guard_hand_back env g = (r, h)" by fastforce
    have "vacant h" using keeps_result [OF calm_vacant [OF calm_hand_back] g, of env] e by simp
    then show "case guard_hand_back env g of (Inl e, h) \<Rightarrow> vacant h | (Inr x, h) \<Rightarrow> ?quiet h"
      using hand_back_quiet [of env g h] e by (cases r) simp_all
  qed
  then have handed: "triple vacant (thenS (guard_hand_back env) (modS (\<lambda>g. g\<lparr>g_resumable := True\<rparr>))) (\<lambda>_. ?quiet) (\<lambda>_. vacant)"
    by (rule triple_then) (rule triple_mod, auto simp: vacant_def body_ok_def lease_ok_def phase_ok_def)
  have start: "triple vacant (readS (\<lambda>g. whenS (g_serving g) (thenS (guard_hand_back env) (modS (\<lambda>g. g\<lparr>g_resumable := True\<rparr>)))))
      (\<lambda>_. ?quiet) (\<lambda>_. vacant)"
    by (intro triple_read triple_when triple_pre [OF handed]) auto
  have "calm (thenS (on_recovery start_primary) (thenS (readS (\<lambda>g. whenS (g_control g) (liftR (ge_control_close env))))
      (thenS (modS (\<lambda>g. g\<lparr>g_control := True\<rparr>)) (prepare_core env))))"
    by (intro calm_rules keeps_start_primary calm_control calm_prepare_core)
  then have rest: "triple ?quiet (thenS (on_recovery start_primary)
      (thenS (readS (\<lambda>g. whenS (g_control g) (liftR (ge_control_close env))))
      (thenS (modS (\<lambda>g. g\<lparr>g_control := True\<rparr>)) (prepare_core env)))) (\<lambda>_. ?quiet) (\<lambda>_. vacant)"
    by (rule triple_weaken [OF keepsD [OF calm_vacant_quiet]]) auto
  have "triple vacant (thenS (liftR (ge_new_control_close env)) (thenS (record_background_failure env e) (raiseS e)))
      (\<lambda>_. ?quiet) (\<lambda>_ g. body_ok g \<and> unheld g)" for e
    by (rule triple_then [OF triple_weaken [OF keepsD [OF calm_unheld [OF calm_lift]]] triple_then [OF background_unheld triple_raise]])
      (auto simp: vacant_def)
  then show ?thesis unfolding adopt_moves_def by (rule triple_except [OF triple_then [OF start rest]])
qed

lemma commit_body:
  "triple (\<lambda>g. vacant g \<and> \<not> g_serving g) (claim_commit env l) (\<lambda>_. body_ok) (\<lambda>_ g. body_ok g \<and> unheld g)"
proof -
  let ?quiet = "\<lambda>g. vacant g \<and> \<not> g_serving g"
  have closing: "triple ?quiet (modS (\<lambda>g. if ge_closing_meanwhile env then request_close g else g)) (\<lambda>_. ?quiet) E" for E
    by (rule triple_mod) (auto simp: request_close_def vacant_def)
  have grant: "triple ?quiet (thenS (modS (\<lambda>g. g\<lparr>g_lease := (g_lease g)\<lparr>current := Some l\<rparr>, g_last_heartbeat := None,
      g_phase := PRIMARY, g_events := g_events g @ [GrantedTo l]\<rparr>)) (retS x)) (\<lambda>_. body_ok) (\<lambda>_ g. body_ok g \<and> unheld g)" for x
    by (rule triple_then [OF triple_mod triple_ret])
      (auto simp: vacant_def body_ok_def lease_ok_def phase_ok_def intro: holder_granted)
  have refuse: "triple ?quiet (thenS (guard_release env) (thenS (set_phase IDLE) (raiseS x)))
      (\<lambda>_. body_ok) (\<lambda>_ g. body_ok g \<and> unheld g)" for x
    by (rule triple_then [OF triple_weaken [OF keepsD [OF calm_vacant [OF calm_release]]] triple_then [OF triple_mod triple_raise]])
      (auto simp: vacant_def body_ok_def lease_ok_def phase_ok_def)
  show ?thesis unfolding claim_commit_def
    by (intro triple_then [OF closing] triple_read triple_if triple_pre [OF grant] triple_pre [OF refuse]) simp_all
qed

lemma claim_body: "triple (\<lambda>g. body_ok g \<and> unheld g) (guard_claim env l tier a) (\<lambda>_. body_ok) (\<lambda>_. body_ok)"
proof -
  have adopt: "triple (\<lambda>g. body_ok g \<and> unheld g) (guard_adopt env tier) (\<lambda>_ g. vacant g \<and> \<not> g_serving g)
      (\<lambda>_ g. body_ok g \<and> unheld g)"
    unfolding guard_adopt_def by (rule triple_then [OF checks_vacant moves_quiet])
  have body: "triple (\<lambda>g. body_ok g \<and> unheld g) (thenS (liftR (ge_dup env)) (thenS (liftR (ge_channel env))
      (thenS (guard_adopt env tier) (claim_commit env l)))) (\<lambda>_. body_ok) (\<lambda>_ g. body_ok g \<and> unheld g)"
    by (intro triple_then [OF keepsD [OF calm_unheld [OF calm_lift]]] triple_then [OF adopt commit_body])
  have undo: "triple (\<lambda>g. body_ok g \<and> unheld g) (thenS (whenS b (forget_listener env)) (raiseS x)) (\<lambda>_. body_ok) (\<lambda>_. body_ok)"
    for b and x
    by (rule triple_then [OF triple_weaken [OF keepsD [OF keeps_when [OF forget_unheld]]] triple_raise]) auto
  show ?thesis unfolding guard_claim_def
    by (rule triple_bind [OF triple_weaken [OF keepsD [OF bind_unheld]] triple_except [OF body undo]]) auto
qed

subsection \<open>Polling and closing\<close>

lemma close_orphans_ok:
  "list_all (pools_ok no_g3) cs \<Longrightarrow> list_all (pools_ok no_g3) (snd (close_orphans env cs))"
proof (induction cs)
  case (Cons c cs)
  have "pools_ok no_g3 (snd (close_core_act env c))"
    using Cons(2) by (intro keeps_result [OF keeps_close_core_act]) simp
  then show ?case using Cons by (auto split: prod.split sum.split)
qed simp

lemma calm_poll_orphans: "calm (poll_orphans env)"
proof (rule calmI)
  show "keeps (parts_ok b) (poll_orphans env)" for b
    using close_orphans_ok [of _ env]
    by (simp add: keeps_iff poll_orphans_def parts_ok_def cores_ok_def case_prod_beta)
qed (simp_all add: keeps_iff poll_orphans_def case_prod_beta)

lemma calm_if: "(b \<Longrightarrow> calm m) \<Longrightarrow> (\<not> b \<Longrightarrow> calm n) \<Longrightarrow> calm (if b then m else n)"
  by simp

lemma calm_ret: "calm (retS x)"
  by (simp add: calm_def keeps_ret)

lemma calm_option: "calm m \<Longrightarrow> (\<And>x. calm (f x)) \<Longrightarrow> calm (case z of None \<Rightarrow> m | Some x \<Rightarrow> f x)"
  by (cases z) simp_all

lemma calm_poll_body: "calm (poll_body env)"
  unfolding poll_body_def
  by (intro calm_then calm_read calm_if calm_poll_orphans calm_on_core calm_on_recovery calm_ret calm_raise calm_option
      keeps_poll_completed keeps_rs_poll)

lemma poll_keeps_body: "triple body_ok (guard_poll env) (\<lambda>_. body_ok) (\<lambda>_. body_ok)"
proof -
  have body: "calm m \<Longrightarrow> triple body_ok m (\<lambda>_. body_ok) (\<lambda>_. body_ok)" for m :: "'a gx"
    using calm_triple [of m "\<lambda>_. True"] by simp
  have fails: "triple body_ok (thenS (record_background_failure env e) (retS False)) (\<lambda>_. body_ok) (\<lambda>_. body_ok)" for e
    by (rule triple_then [OF triple_weaken [OF background_body] triple_ret]) (auto intro: body_weaken)
  have inv: "calm (whenS (is_mirror_error e) (on_recovery invalidate_journal))" for e
    by (intro calm_when calm_on_recovery keeps_invalidate_journal)
  have "triple body_ok (exceptS (poll_body env) (\<lambda>e. thenS (whenS (is_mirror_error e) (on_recovery invalidate_journal))
      (thenS (record_background_failure env e) (retS False)))) (\<lambda>_. body_ok) (\<lambda>_. body_ok)"
    by (rule triple_except [OF keepsD [OF calm_body [OF calm_poll_body, where Z = "\<lambda>_. True", simplified]]
        triple_then [OF keepsD [OF calm_body [OF inv, where Z = "\<lambda>_. True", simplified]] fails]])
  then show ?thesis unfolding guard_poll_def by (intro triple_read triple_if triple_ret) (auto elim: triple_pre)
qed

lemma keeps_close_core: "keeps (pools_ok no_g3) (close_core env)"
  unfolding close_core_def by (intro keeps_except keeps_close_core_act keeps_read_any keeps_if keeps_raise keeps_ret)

lemma close_cores_ok: "list_all (pools_ok no_g3) cs \<Longrightarrow> list_all (pools_ok no_g3) (snd (close_cores env cs))"
proof (induction cs)
  case (Cons c cs)
  have "pools_ok no_g3 (snd (close_core env c))" using Cons(2) by (intro keeps_result [OF keeps_close_core]) simp
  then show ?case using Cons by (auto split: prod.split)
qed simp

lemma calm_stop_cores: "calm (stop_cores env)"
proof (rule calmI)
  show "keeps (parts_ok b) (stop_cores env)" for b
    using close_cores_ok [of _ env] keeps_result [OF keeps_close_core, of _ env]
    by (auto simp: keeps_iff stop_cores_def parts_ok_def cores_ok_def case_prod_beta split: option.split)
qed (simp_all add: keeps_iff stop_cores_def case_prod_beta split: option.split)

text \<open>Closing keeps the failure and the phase; the open lease, if any, is closed.\<close>

definition closing_ok :: "bool \<Rightarrow> (exn option \<Rightarrow> Phase \<Rightarrow> command list \<Rightarrow> thread \<Rightarrow> bool \<Rightarrow> Phase option \<Rightarrow> bool) \<Rightarrow> guard \<Rightarrow> bool" where
  "closing_ok b R g \<longleftrightarrow> lease_ok g \<and> parts_ok (g_failure g = None) g \<and>
     R (g_failure g) (g_phase g) (g_commands g) (g_thread g) (g_closed g) (g_reserved g) \<and> (b \<longrightarrow> current (g_lease g) = None)"

lemma calm_closing: "calm m \<Longrightarrow> keeps (closing_ok b R) m"
  unfolding keeps_iff
proof (intro allI impI)
  fix g
  assume m: "calm m" and g: "closing_ok b R g"
  have "keeps (\<lambda>h. control h = control g) m"
    using m unfolding calm_def by (elim conjE allE [where x = "\<lambda>c. c = control g"])
  moreover have "keeps (\<lambda>h. g_serving h \<longrightarrow> g_serving g) m" "keeps (parts_ok (g_failure g = None)) m"
    using m unfolding calm_def by blast+
  ultimately have "control (snd (m g)) = control g" "g_serving (snd (m g)) \<longrightarrow> g_serving g"
    "parts_ok (g_failure g = None) (snd (m g))"
    using g unfolding keeps_iff closing_ok_def by blast+
  then show "closing_ok b R (snd (m g))" using g by (auto simp: closing_ok_def lease_ok_def control_def)
qed

lemma keeps_attempt: "keeps I m \<Longrightarrow> keeps I (attempt m f)"
  by (simp add: keeps_iff attempt_def case_prod_beta)

lemma closing_lease: "keeps (closing_ok b R) (close_lease env)"
  unfolding keeps_iff close_lease_def on_lease_def lease_close_def
  by (auto simp: thenS_def bindS_def modS_def readS_def retS_def raiseS_def closing_ok_def lease_ok_def holder_def
      split: option.split sum.split)

lemma keeps_close_resources: "keeps (closing_ok b R) (close_resources env)"
  unfolding close_resources_def raise_failure_def
  by (intro keeps_bind keeps_then keeps_option keeps_ret keeps_raise keeps_attempt calm_closing calm_stop_cores
      calm_close_control calm_on_recovery keeps_rs_close closing_lease)

lemma close_lease_ends: "current (g_lease (snd (close_lease env g))) = None"
  by (auto simp: close_lease_def on_lease_def lease_close_def thenS_def bindS_def modS_def readS_def retS_def raiseS_def
      split: option.split sum.split)

lemma close_resources_ends: "triple P (close_resources env) (\<lambda>_ g. current (g_lease g) = None) (\<lambda>_ _. True)"
proof -
  have lease: "triple (\<lambda>_. True) (attempt (close_lease env) f) (\<lambda>_ g. current (g_lease g) = None) (\<lambda>_ _. True)" for f
    using close_lease_ends [of env] by (auto simp: triple_iff attempt_def case_prod_beta)
  have raises: "triple (\<lambda>g. current (g_lease g) = None) (raise_failure f) (\<lambda>_ g. current (g_lease g) = None) (\<lambda>_ _. True)" for f
    unfolding raise_failure_def by (cases f) (auto intro!: triple_ret triple_raise)
  show ?thesis unfolding close_resources_def
    by (intro triple_bind [OF lease raises] triple_bind [where R = "\<lambda>_ _. True"] triple_then [where R = "\<lambda>_. True"])
      (simp_all add: triple_iff)
qed

lemma close_body: "triple body_ok (guard_close env) (\<lambda>_ g. body_ok g \<and> g_closed g) (\<lambda>_. body_weak)"
proof -
  let ?R = "\<lambda>_ _ _ _ _ _. True"
  have "triple body_ok (close_resources env) (\<lambda>_. closing_ok True ?R) (\<lambda>_. body_weak)"
  proof (rule tripleI)
    fix g
    assume "body_ok g"
    then have g: "closing_ok False ?R g" by (simp add: closing_ok_def body_ok_def)
    obtain r h where e: "close_resources env g = (r, h)" by fastforce
    have h: "closing_ok False ?R h" using keeps_result [OF keeps_close_resources g, of env] e by simp
    have "r = Inr () \<Longrightarrow> current (g_lease h) = None"
      using triple_Inr [OF close_resources_ends [of "\<lambda>_. True" env] TrueI, of g "()" h] e by simp
    then show "case close_resources env g of (Inl e, h) \<Rightarrow> body_weak h | (Inr x, h) \<Rightarrow> closing_ok True ?R h"
      using h parts_weaken [of _ h] by (cases r) (auto simp: e closing_ok_def body_weak_def)
  qed
  then show ?thesis unfolding guard_close_def
    by (rule triple_then [OF _ triple_then [OF triple_mod triple_mod]])
      (auto simp: closing_ok_def body_ok_def lease_ok_def phase_ok_def)
qed

subsection \<open>The queue\<close>

fun is_claim :: "command \<Rightarrow> bool" where
  "is_claim (ClaimCmd _ _ _) = True"
| "is_claim _ = False"

abbreviation queued_claims :: "guard \<Rightarrow> command list" where
  "queued_claims g \<equiv> filter is_claim (g_commands g)"

text \<open>While the actor runs a command no claim is queued, unless the Guard has failed.\<close>

definition no_claims :: "guard \<Rightarrow> bool" where
  "no_claims g \<longleftrightarrow> (g_failure g = None \<longrightarrow> queued_claims g = []) \<and> g_thread g = Running"

lemma calm_no_claims: "calm m \<Longrightarrow> keeps no_claims m"
proof -
  assume "calm m"
  then have "keeps (\<lambda>g. (\<lambda>(p, cs, th, c, r, es, ph, f, d). (f = None \<longrightarrow> filter is_claim cs = []) \<and> th = Running) (control g)) m"
    unfolding calm_def by blast
  then show ?thesis by (simp add: control_def no_claims_def [abs_def])
qed

lemma promote_no_claims: "keeps no_claims (guard_promote env)"
  using control_promote [of "\<lambda>(p, cs, th, c, r, es, ph, f, d). (f = None \<longrightarrow> filter is_claim cs = []) \<and> th = Running" env]
  by (simp add: control_def no_claims_def [abs_def])

lemma mod_no_claims:
  "(\<And>g. g_commands (f g) = g_commands g \<and> g_thread (f g) = g_thread g \<and> (g_failure (f g) = None \<longrightarrow> g_failure g = None)) \<Longrightarrow>
    keeps no_claims (modS f)"
  by (auto simp: keeps_iff modS_def no_claims_def)

lemma fail_no_claims: "keeps no_claims (guard_fail e)"
  unfolding guard_fail_def escalate_def by (intro keeps_then mod_no_claims) simp_all

lemma background_no_claims: "keeps no_claims (record_background_failure env e)"
  unfolding record_background_failure_def escalate_def
  by (intro keeps_then keeps_read_any keeps_when keeps_suppressed calm_no_claims calm_on_core keeps_close_core_act mod_no_claims) simp_all

lemma stand_down_no_claims: "keeps no_claims (stand_down env l)"
  unfolding stand_down_def
  by (intro keeps_then keeps_finally keeps_except calm_no_claims [OF calm_release] fail_no_claims keeps_raise mod_no_claims)
    (simp_all add: no_claims_def end_holder_def)

lemma promote_for_no_claims: "keeps no_claims (promote_for env l)"
  unfolding promote_for_def
  by (intro keeps_then keeps_finally keeps_read_any keeps_when promote_no_claims mod_no_claims)
    (simp_all add: no_claims_def end_holder_def)

lemma abort_no_claims: "keeps no_claims (guard_abort env l)"
  unfolding guard_abort_def
  by (intro keeps_read_any keeps_if keeps_except keeps_then promote_for_no_claims fail_no_claims keeps_raise stand_down_no_claims)

lemma on_lease_no_claims: "keeps no_claims (on_lease m)"
  by (simp add: keeps_iff on_lease_def no_claims_def case_prod_beta)

lemma adopt_no_claims: "keeps no_claims (guard_adopt env tier)"
  unfolding guard_adopt_def adopt_checks_def adopt_moves_def refuse_incompatible_def
  by (intro keeps_then keeps_except keeps_read_any keeps_option keeps_raise keeps_ret keeps_when keeps_lift background_no_claims
      calm_no_claims [OF calm_hand_back] calm_no_claims [OF calm_prepare_core] calm_no_claims [OF calm_on_recovery]
      keeps_rs_configure keeps_start_primary mod_no_claims) simp_all

lemma commit_no_claims: "keeps no_claims (claim_commit env l)"
proof -
  have closing: "keeps no_claims (modS (\<lambda>g. if ge_closing_meanwhile env then request_close g else g))"
    by (auto simp: keeps_iff modS_def request_close_def no_claims_def)
  show ?thesis unfolding claim_commit_def
    by (rule keeps_then [OF closing]) (intro keeps_then keeps_read_any keeps_if keeps_ret keeps_raise calm_no_claims [OF calm_release] mod_no_claims; simp)
qed

lemma claim_no_claims: "keeps no_claims (guard_claim env l tier a)"
proof -
  have "keeps no_claims (forget_listener env)"
    by (auto simp: keeps_iff forget_listener_def unbind_def escalate_def retS_def modS_def no_claims_def
        split: option.split sum.split)
  then show ?thesis unfolding guard_claim_def
    by (intro keeps_bind keeps_except keeps_then keeps_when keeps_lift keeps_raise on_lease_no_claims adopt_no_claims commit_no_claims)
qed

lemma observe_no_claims: "keeps no_claims (observe_holder env)"
proof -
  have "keeps no_claims (take_over env l flags)" for l flags
    unfolding take_over_def fence_missing_primary_def
    by (intro keeps_option keeps_if keeps_raise keeps_then keeps_bind keeps_ret keeps_when mod_no_claims promote_for_no_claims
        promote_no_claims) simp_all
  then show ?thesis unfolding observe_holder_def
    by (intro keeps_read_any keeps_if keeps_ret keeps_option keeps_raise keeps_bind keeps_lift keeps_then keeps_finally
        keeps_except fail_no_claims mod_no_claims) (simp_all add: no_claims_def)
qed

lemma poll_no_claims: "keeps no_claims (guard_poll env)"
  unfolding guard_poll_def
  by (intro keeps_read_any keeps_if keeps_ret keeps_except keeps_then keeps_when background_no_claims
      calm_no_claims [OF calm_poll_body] calm_no_claims [OF calm_on_recovery] keeps_invalidate_journal)

subsection \<open>The invariant\<close>

definition queue_ok :: "guard \<Rightarrow> bool" where
  "queue_ok g \<longleftrightarrow> (g_failure g = None \<longrightarrow> length (queued_claims g) \<le> 1 \<and>
     (queued_claims g \<noteq> [] \<longrightarrow> g_reserved g = Some CLAIMING \<and> g_phase g \<noteq> PRIMARY))"

definition thread_ok :: "guard \<Rightarrow> bool" where
  "thread_ok g \<longleftrightarrow> (g_thread g = NotStarted \<longrightarrow> current (g_lease g) = None) \<and>
     (g_thread g = Ended \<longrightarrow> g_closed g \<or> g_failure g \<noteq> None)"

definition guard_ok :: "guard \<Rightarrow> bool" where
  "guard_ok g \<longleftrightarrow> body_ok g \<and> queue_ok g \<and> thread_ok g"

lemma guard_init_ok: "guard_init spec digest sizes owner timeout startup bs = Inr g \<Longrightarrow> guard_ok g"
  by (auto simp: guard_init_def guard_ok_def body_ok_def lease_ok_def phase_ok_def parts_ok_def cores_ok_def rs_ok_def
      recovery_init_def lease_init_def queue_ok_def thread_ok_def split: if_splits)

lemma after_command: "body_ok g \<Longrightarrow> no_claims g \<Longrightarrow> guard_ok (g\<lparr>g_reserved := None\<rparr>)"
  by (simp add: guard_ok_def queue_ok_def thread_ok_def no_claims_def)

text \<open>Any other command than a close, run to its end.\<close>

lemma finish_command:
  assumes "triple P m (\<lambda>_. body_ok) (\<lambda>_. body_ok)" "keeps no_claims m" "P g" "no_claims g"
  shows "guard_ok ((snd (m g))\<lparr>g_reserved := None\<rparr>)"
proof -
  obtain r h where e: "m g = (r, h)" by fastforce
  have "body_ok h" using triple_Inr [OF assms(1,3)] triple_Inl [OF assms(1,3)] e by (cases r) auto
  moreover have "no_claims h" using keeps_result [OF assms(2,4)] e by simp
  ultimately show ?thesis using e by (simp add: after_command)
qed

lemma dispatch_run:
  assumes "ends_lease c = None \<or> (\<exists>l. ends_lease c = Some l \<and> held_by l g)" "c \<noteq> CloseCmd"
  shows "\<exists>q. snd (dispatch env c g) = (snd (run_command env c (g\<lparr>g_reserved := q\<rparr>)))\<lparr>g_reserved := None\<rparr>"
proof (cases "ends_lease c")
  case None
  then have "snd (dispatch env c g) = (snd (run_command env c (g\<lparr>g_reserved := g_reserved g\<rparr>)))\<lparr>g_reserved := None\<rparr>"
    using assms(2) by (simp add: dispatch_def readS_def whenS_def thenS_def bindS_def retS_def exceptS_def finallyS_def
        raiseS_def case_prod_beta split: sum.split)
  then show ?thesis by blast
next
  case (Some l)
  then have "snd (dispatch env c g) = (snd (run_command env c (g\<lparr>g_reserved := Some RELEASING\<rparr>)))\<lparr>g_reserved := None\<rparr>"
    using assms by (simp add: dispatch_def readS_def whenS_def thenS_def bindS_def retS_def modS_def exceptS_def finallyS_def
        raiseS_def case_prod_beta split: sum.split)
  then show ?thesis by blast
qed

lemma snd_then_ret [simp]: "snd (thenS m (retS x) g) = snd (m g)" "snd (bindS m (\<lambda>y. retS (f y)) g) = snd (m g)"
  by (simp_all add: thenS_def bindS_def retS_def case_prod_beta split: sum.split)

lemma no_claims_reserved [simp]: "no_claims (g\<lparr>g_reserved := q\<rparr>) = no_claims g"
  by (simp add: no_claims_def)

lemma turn_claim:
  assumes ok: "guard_ok g" and run: "g_thread g = Running" and cmd: "g_commands g = ClaimCmd l tier a # cs"
  shows "guard_ok (snd (dispatch env (ClaimCmd l tier a) (g\<lparr>g_commands := cs\<rparr>)))"
proof -
  let ?g = "g\<lparr>g_commands := cs\<rparr>"
  obtain q where d: "snd (dispatch env (ClaimCmd l tier a) ?g) = (snd (guard_claim env l tier a (?g\<lparr>g_reserved := q\<rparr>)))\<lparr>g_reserved := None\<rparr>"
    using dispatch_run [of "ClaimCmd l tier a" ?g env] by auto
  have "body_ok (?g\<lparr>g_reserved := q\<rparr>) \<and> unheld (?g\<lparr>g_reserved := q\<rparr>)" "no_claims (?g\<lparr>g_reserved := q\<rparr>)"
    using ok run cmd by (auto simp: guard_ok_def queue_ok_def body_ok_def phase_ok_def no_claims_def lease_ok_def)
  then show ?thesis unfolding d by (rule finish_command [OF claim_body claim_no_claims])
qed

lemma turn_ends:
  assumes ok: "guard_ok g" and run: "g_thread g = Running" and cmd: "g_commands g = c # cs"
    and ends: "ends_lease c = Some l" "held_by l g"
    and body: "triple (\<lambda>g. body_ok g \<and> held_by l g) m (\<lambda>_. body_ok) (\<lambda>_. body_ok)" "keeps no_claims m"
    and m: "\<And>g. snd (run_command env c g) = snd (m g)"
  shows "guard_ok (snd (dispatch env c (g\<lparr>g_commands := cs\<rparr>)))"
proof -
  let ?g = "g\<lparr>g_commands := cs\<rparr>"
  have "c \<noteq> CloseCmd" using ends(1) by auto
  then obtain q where d: "snd (dispatch env c ?g) = (snd (m (?g\<lparr>g_reserved := q\<rparr>)))\<lparr>g_reserved := None\<rparr>"
    using dispatch_run [of c ?g env] ends unfolding m by auto
  have "g_failure g = None \<Longrightarrow> g_phase g = PRIMARY"
    using ok ends(2) by (auto simp: guard_ok_def body_ok_def phase_ok_def is_current_def)
  then have "body_ok (?g\<lparr>g_reserved := q\<rparr>) \<and> held_by l (?g\<lparr>g_reserved := q\<rparr>)" "no_claims (?g\<lparr>g_reserved := q\<rparr>)"
    using ok run cmd ends(2) by (auto simp: guard_ok_def queue_ok_def no_claims_def split: if_splits)
  then show ?thesis unfolding d by (rule finish_command [OF body])
qed

lemma turn_stale:
  assumes "guard_ok g" "g_commands g = c # cs" "ends_lease c = Some l" "\<not> held_by l g"
  shows "guard_ok (snd (dispatch env c (g\<lparr>g_commands := cs\<rparr>)))"
proof -
  have "snd (dispatch env c (g\<lparr>g_commands := cs\<rparr>)) = g\<lparr>g_commands := cs\<rparr>"
    using assms(3,4) by (simp add: dispatch_def readS_def retS_def)
  moreover have "\<not> is_claim c" using assms(3) by (cases c) auto
  ultimately show ?thesis using assms(1,2) by (simp add: guard_ok_def queue_ok_def thread_ok_def)
qed

lemma turn_close:
  assumes "guard_ok g"
  shows "guard_ok (end_thread (snd (dispatch env CloseCmd (g\<lparr>g_commands := cs\<rparr>))))"
proof -
  let ?g = "g\<lparr>g_commands := cs\<rparr>"
  obtain r h where e: "guard_close env ?g = (r, h)" by fastforce
  have g: "body_ok ?g" using assms by (simp add: guard_ok_def)
  have h: "r = Inr () \<Longrightarrow> body_ok h \<and> g_closed h" "\<And>x. r = Inl x \<Longrightarrow> body_weak h"
    using triple_Inr [OF close_body g] triple_Inl [OF close_body g] e by auto
  have d: "snd (dispatch env CloseCmd ?g) = (case r of Inr _ \<Rightarrow> h\<lparr>g_reserved := None\<rparr>
      | Inl x \<Rightarrow> h\<lparr>g_reserved := None, g_failure := Some x, g_phase := PHASE_FAILED\<rparr>)"
    by (cases r) (simp_all add: dispatch_def e readS_def whenS_def thenS_def bindS_def retS_def modS_def exceptS_def finallyS_def raiseS_def)
  show ?thesis
  proof (cases r)
    case (Inl x)
    then show ?thesis using h(2) unfolding d
      by (simp add: end_thread_def guard_ok_def queue_ok_def thread_ok_def body_weak_def body_ok_def lease_ok_def phase_ok_def)
  next
    case (Inr u)
    then show ?thesis using h(1) unfolding d by (simp add: end_thread_def guard_ok_def queue_ok_def thread_ok_def)
  qed
qed

lemma turn_idle:
  assumes ok: "guard_ok g" and run: "g_thread g = Running" and cmd: "g_commands g = []"
  shows "guard_ok (idle_turn env g)"
proof -
  let ?m = "thenS (observe_holder env) (guard_poll env)"
  have m: "triple body_ok ?m (\<lambda>_. body_ok) (\<lambda>_. body_ok)" by (rule triple_then [OF observe_body poll_keeps_body])
  have "keeps no_claims ?m" by (intro keeps_then observe_no_claims poll_no_claims)
  moreover have g: "body_ok g" "no_claims g" using ok run cmd by (simp_all add: guard_ok_def no_claims_def)
  moreover obtain r h where e: "?m g = (r, h)" by fastforce
  ultimately have h: "no_claims h" "body_ok h"
    using keeps_result [of no_claims ?m g] triple_Inr [OF m g(1)] triple_Inl [OF m g(1)] by (auto, cases r, auto)
  show ?thesis
  proof (cases r)
    case (Inl x)
    obtain r' k where f: "record_background_failure env x h = (r', k)" by fastforce
    have "body_ok k \<and> g_failure k \<noteq> None"
      using triple_Inr [OF background_body [where E = "\<lambda>_ g. body_ok g \<and> g_failure g \<noteq> None"] body_weaken [OF h(2)]]
        triple_Inl [OF background_body [where E = "\<lambda>_ g. body_ok g \<and> g_failure g \<noteq> None"] body_weaken [OF h(2)]] f
      by (cases r') auto
    then show ?thesis using Inl
      by (simp add: idle_turn_def e f end_thread_def guard_ok_def queue_ok_def thread_ok_def)
  next
    case (Inr u)
    then show ?thesis using h by (simp add: idle_turn_def e guard_ok_def queue_ok_def thread_ok_def no_claims_def)
  qed
qed

lemma turn_ok:
  assumes "guard_ok g" "g_thread g = Running"
  shows "guard_ok (actor_turn env g)"
proof (cases "g_commands g")
  case Nil
  then show ?thesis using turn_idle [OF assms Nil] by (simp add: actor_turn_def)
next
  case (Cons c cs)
  have "guard_ok (if c = CloseCmd then end_thread (snd (dispatch env c (g\<lparr>g_commands := cs\<rparr>))) else snd (dispatch env c (g\<lparr>g_commands := cs\<rparr>)))"
  proof (cases c)
    case (ClaimCmd l tier a)
    then show ?thesis using turn_claim [OF assms, of l tier a cs env] Cons by simp
  next
    case (ReleaseCmd l)
    then show ?thesis
      using turn_ends [OF assms Cons _ _ stand_down_body stand_down_no_claims, of l env env] turn_stale [OF assms(1) Cons, of l env]
      by (cases "held_by l g") simp_all
  next
    case (AbortCmd l)
    then show ?thesis
      using turn_ends [OF assms Cons _ _ abort_body abort_no_claims, of l env env] turn_stale [OF assms(1) Cons, of l env]
      by (cases "held_by l g") simp_all
  next
    case CloseCmd
    then show ?thesis using turn_close [OF assms(1)] by simp
  qed
  then show ?thesis using Cons by (simp add: actor_turn_def Let_def)
qed

subsection \<open>Every step keeps the invariant\<close>

lemma start_ok: "guard_ok g \<Longrightarrow> guard_ok (snd (guard_start env g))"
proof -
  assume g: "guard_ok g"
  obtain r s where e: "rs_prepare (ge_recovery env) (g_recovery g) = (r, s)" by fastforce
  have "rs_ok s" if "rs_ok (g_recovery g)" using keeps_result [OF keeps_rs_prepare that, of "ge_recovery env"] e by simp
  then show ?thesis using g
    by (cases r) (auto simp: guard_start_def on_recovery_def readS_def raiseS_def thenS_def bindS_def modS_def e guard_ok_def
        body_ok_def lease_ok_def phase_ok_def parts_ok_def cores_ok_def queue_ok_def thread_ok_def)
qed

lemma submit_ok: "guard_ok g \<Longrightarrow> ends_lease c \<noteq> None \<Longrightarrow> guard_ok (snd (submit c g))"
  by (cases c) (simp_all add: submit_def modS_def guard_ok_def queue_ok_def thread_ok_def)

lemma reserve_ok:
  assumes "guard_ok g" "g_failure g = None" "g_reserved g = None" "g_phase g \<noteq> PRIMARY"
  shows "guard_ok (g\<lparr>g_reserved := Some CLAIMING, g_commands := g_commands g @ [ClaimCmd l tier a]\<rparr>)"
proof -
  have "queued_claims g = []" using assms by (auto simp: guard_ok_def queue_ok_def)
  then show ?thesis using assms by (simp add: guard_ok_def queue_ok_def thread_ok_def)
qed

lemma request_cases:
  "snd (request_claim env l tier a g) = g \<or>
   g_failure g = None \<and> g_reserved g = None \<and> g_phase g \<noteq> PRIMARY \<and>
     snd (request_claim env l tier a g) = g\<lparr>g_reserved := Some CLAIMING, g_commands := g_commands g @ [ClaimCmd l tier a]\<rparr>"
  by (auto simp: request_claim_def reserve_claim_def submit_def readS_def raiseS_def thenS_def bindS_def modS_def liftR_def
      retS_def split: option.split sum.split)

lemma request_ok: "guard_ok g \<Longrightarrow> guard_ok (snd (request_claim env l tier a g))"
  using request_cases [of env l tier a g] reserve_ok [of g l tier a] by auto

lemma end_lease_ok:
  assumes "guard_ok g" "ends_lease c = Some l"
  shows "guard_ok (snd (end_lease l c g))"
proof -
  have "guard_ok (g\<lparr>g_reserved := Some RELEASING\<rparr>)" if "held_by l g"
  proof -
    have "g_failure g = None \<Longrightarrow> queued_claims g = []"
      using assms(1) that by (auto simp: guard_ok_def body_ok_def phase_ok_def queue_ok_def is_current_def)
    then show ?thesis using assms(1) by (simp add: guard_ok_def queue_ok_def thread_ok_def)
  qed
  then show ?thesis using assms submit_ok [of g c] submit_ok [of "g\<lparr>g_reserved := Some RELEASING\<rparr>" c]
    by (simp add: end_lease_def readS_def raiseS_def retS_def thenS_def bindS_def modS_def submit_def)
qed

lemma heartbeat_ok: "guard_ok g \<Longrightarrow> guard_ok (heartbeat t l g)"
  by (simp add: heartbeat_def guard_ok_def queue_ok_def thread_ok_def)

lemma begin_close_ok:
  assumes g: "guard_ok g"
  shows "guard_ok (snd (begin_close env g))"
proof (cases "g_thread g = Running \<or> g_closed g")
  case True
  then show ?thesis using g
    by (auto simp: begin_close_def readS_def modS_def whenS_def retS_def thenS_def bindS_def request_close_def guard_ok_def queue_ok_def
        thread_ok_def)
next
  case False
  let ?R = "\<lambda>f ph cs th cl q. f = g_failure g \<and> ph = g_phase g \<and> cs = g_commands g \<and> th = g_thread g \<and> cl = g_closed g \<and> q = g_reserved g"
  let ?b = "g_failure g = None \<or> g_thread g = NotStarted"
  have cur: "?b \<Longrightarrow> current (g_lease g) = None" using g False by (cases "g_thread g") (auto simp: guard_ok_def thread_ok_def)
  have start: "closing_ok ?b ?R (g\<lparr>g_closing := True\<rparr>)"
    using g cur by (auto simp: closing_ok_def guard_ok_def body_ok_def lease_ok_def)
  obtain r h where e: "close_resources env (g\<lparr>g_closing := True\<rparr>) = (r, h)" by fastforce
  have h: "closing_ok ?b ?R h" using keeps_result [OF keeps_close_resources start, of env] e by simp
  have "phase_ok h" using h g cur by (auto simp: closing_ok_def guard_ok_def body_ok_def phase_ok_def)
  then have "body_ok h" using h unfolding closing_ok_def body_ok_def by argo
  moreover have "queue_ok h" "thread_ok h" using h g cur by (auto simp: closing_ok_def guard_ok_def queue_ok_def thread_ok_def)
  ultimately have "guard_ok h" by (simp add: guard_ok_def)
  moreover from this have "guard_ok (h\<lparr>g_closed := True\<rparr>)" by (auto simp: guard_ok_def queue_ok_def thread_ok_def)
  ultimately show ?thesis using False e
    by (cases r) (simp_all add: begin_close_def readS_def modS_def whenS_def thenS_def bindS_def)
qed

lemma step_ok: "guard_step g h \<Longrightarrow> guard_ok g \<Longrightarrow> guard_ok h"
proof (induction rule: guard_step.induct)
  case (shared g bs)
  then show ?case by (auto simp: guard_ok_def body_ok_def lease_ok_def phase_ok_def parts_ok_def cores_ok_def queue_ok_def thread_ok_def)
next
  case (runs g c c')
  then show ?case
    using reaches_ok [of c c']
    by (auto simp: guard_ok_def body_ok_def lease_ok_def phase_ok_def parts_ok_def cores_ok_def queue_ok_def thread_ok_def)
qed (simp_all add: start_ok request_ok end_lease_ok submit_ok heartbeat_ok begin_close_ok turn_ok request_release_def abort_grant_def)

lemma reachable_ok: "guard_reaches g h \<Longrightarrow> guard_ok g \<Longrightarrow> guard_ok h"
  by (induction rule: guard_reaches.induct) (auto intro: step_ok)

subsection \<open>The tiers of the first claim\<close>

abbreviation chose :: "TierConfig \<Rightarrow> guard \<Rightarrow> bool" where
  "chose t g \<equiv> g_configured g = Some t"

lemma tiers_hand_back: "keeps (chose t) (guard_hand_back env)"
  unfolding guard_hand_back_def by (auto intro!: control_rules)

lemma tiers_release: "keeps (chose t) (guard_release env)"
  unfolding guard_release_def release_core_def close_control_def by (auto intro!: control_rules tiers_hand_back)

lemma tiers_promote: "keeps (chose t) (guard_promote env)"
  unfolding guard_promote_def guard_serve_def by (auto intro!: control_rules)

lemma tiers_fail: "keeps (chose t) (guard_fail e)" "keeps (chose t) (record_background_failure env e)"
  unfolding guard_fail_def escalate_def record_background_failure_def by (auto intro!: control_rules)

lemma tiers_stand_down: "keeps (chose t) (stand_down env l)"
  unfolding stand_down_def
  by (intro keeps_then keeps_finally keeps_except tiers_release tiers_fail keeps_raise keeps_mod) (simp_all add: end_holder_def)

lemma tiers_promote_for: "keeps (chose t) (promote_for env l)"
  unfolding promote_for_def
  by (intro keeps_then keeps_finally keeps_read_any keeps_when tiers_promote keeps_mod) (simp_all add: end_holder_def)

lemma tiers_abort: "keeps (chose t) (guard_abort env l)"
  unfolding guard_abort_def
  by (intro keeps_read_any keeps_if keeps_except keeps_then tiers_promote_for tiers_fail keeps_raise tiers_stand_down)

text \<open>A claim with other tiers is refused before it sets anything.\<close>

lemma tiers_checks: "keeps (chose t) (adopt_checks env tier)"
proof (cases "tier = t")
  case True
  then show ?thesis unfolding adopt_checks_def refuse_incompatible_def by (auto intro!: control_rules)
next
  case False
  then show ?thesis
    by (auto simp: keeps_iff adopt_checks_def refuse_incompatible_def exceptS_def thenS_def bindS_def readS_def whenS_def raiseS_def
        retS_def liftR_def split: option.split sum.split)
qed

lemma tiers_moves: "keeps (chose t) (adopt_moves env)"
  unfolding adopt_moves_def prepare_core_def Let_def by (auto intro!: control_rules tiers_hand_back tiers_fail)

lemma tiers_on_lease: "keeps (chose t) (on_lease m)"
  by (simp add: keeps_iff on_lease_def case_prod_beta)

lemma tiers_claim: "keeps (chose t) (guard_claim env l tier a)"
proof -
  have "keeps (chose t) (forget_listener env)"
    by (auto simp: keeps_iff forget_listener_def unbind_def escalate_def retS_def modS_def split: option.split sum.split)
  moreover have "keeps (chose t) (claim_commit env l)"
    unfolding claim_commit_def request_close_def by (auto intro!: control_rules tiers_release)
  ultimately show ?thesis unfolding guard_claim_def guard_adopt_def
    by (intro keeps_bind keeps_except keeps_then keeps_when keeps_lift keeps_raise tiers_on_lease tiers_checks tiers_moves)
qed

lemma tiers_close_resources: "keeps (chose t) (close_resources env)"
proof -
  have "keeps (chose t) (stop_cores env)" by (simp add: keeps_iff stop_cores_def case_prod_beta split: option.split)
  moreover have "keeps (chose t) (close_lease env)"
    unfolding close_lease_def by (intro keeps_then keeps_mod tiers_on_lease) (simp split: option.split)
  moreover have "keeps (chose t) (close_control env)" unfolding close_control_def by (auto intro!: control_rules)
  ultimately show ?thesis unfolding close_resources_def raise_failure_def
    by (intro keeps_bind keeps_then keeps_option keeps_ret keeps_raise keeps_attempt keeps_on_recovery) simp_all
qed

lemma tiers_command: "keeps (chose t) (run_command env c)"
  by (cases c) (auto simp: guard_close_def intro!: keeps_bind keeps_then keeps_ret keeps_mod tiers_claim tiers_stand_down tiers_abort
      tiers_close_resources)

lemma tiers_dispatch: "keeps (chose t) (dispatch env c)"
  unfolding dispatch_def
  by (intro keeps_read_any keeps_if keeps_ret keeps_then keeps_when keeps_mod keeps_except keeps_finally tiers_command keeps_raise) simp_all

lemma tiers_idle: "keeps (chose t) (thenS (observe_holder env) (guard_poll env))"
proof -
  have "keeps (chose t) (take_over env l flags)" for l flags
    unfolding take_over_def fence_missing_primary_def
    by (intro keeps_option keeps_if keeps_raise keeps_then keeps_bind keeps_ret keeps_when keeps_mod tiers_promote_for tiers_promote) simp_all
  then have "keeps (chose t) (observe_holder env)" unfolding observe_holder_def
    by (intro keeps_read_any keeps_if keeps_ret keeps_option keeps_raise keeps_bind keeps_lift keeps_then keeps_finally
        keeps_except tiers_fail keeps_mod) simp_all
  moreover have "keeps (chose t) (poll_orphans env)" by (simp add: keeps_iff poll_orphans_def case_prod_beta)
  then have "keeps (chose t) (guard_poll env)" unfolding guard_poll_def poll_body_def
    by (auto intro!: control_rules tiers_fail)
  ultimately show ?thesis by (rule keeps_then)
qed

lemma tiers_turn: "chose t g \<Longrightarrow> chose t (actor_turn env g)"
proof (cases "g_commands g")
  case Nil
  assume g: "chose t g"
  obtain r h where e: "thenS (observe_holder env) (guard_poll env) g = (r, h)" by fastforce
  have h: "chose t h" using keeps_result [OF tiers_idle g, of env] e by simp
  show ?thesis
    using h keeps_result [OF tiers_fail(2) h, of env] by (cases r) (auto simp: actor_turn_def Nil idle_turn_def e end_thread_def)
next
  case (Cons c cs)
  assume "chose t g"
  then have "chose t (snd (dispatch env c (g\<lparr>g_commands := cs\<rparr>)))" by (intro keeps_result [OF tiers_dispatch]) simp
  then show ?thesis by (auto simp: actor_turn_def Cons Let_def end_thread_def)
qed

lemma tiers_submit: "chose t g \<Longrightarrow> chose t (snd (submit c g))"
  by (simp add: submit_def modS_def)

lemma tiers_end_lease: "chose t g \<Longrightarrow> chose t (snd (end_lease l c g))"
  by (simp add: end_lease_def submit_def readS_def raiseS_def retS_def thenS_def bindS_def modS_def)

lemma tiers_step: "guard_step g h \<Longrightarrow> chose t g \<Longrightarrow> chose t h"
proof (induction rule: guard_step.induct)
  case (starts g env)
  have "keeps (chose t) (guard_start env)" unfolding guard_start_def by (auto intro!: control_rules)
  then show ?case using starts by (rule keeps_result)
next
  case (claims g env l tier a)
  have "keeps (chose t) (request_claim env l tier a)"
    unfolding request_claim_def reserve_claim_def submit_def by (auto intro!: control_rules)
  then show ?case using claims by (rule keeps_result)
next
  case (closes g env)
  have "keeps (chose t) (begin_close env)"
    unfolding begin_close_def request_close_def by (auto intro!: control_rules tiers_close_resources)
  then show ?case using closes by (rule keeps_result)
qed (simp_all add: tiers_turn heartbeat_def request_release_def abort_grant_def tiers_end_lease tiers_submit)

lemma tiers_reachable: "guard_reaches g h \<Longrightarrow> chose t g \<Longrightarrow> chose t h"
  by (induction rule: guard_reaches.induct) (auto intro: tiers_step)

end
