(* ===== verification/KVCR_GuardSafety.thy ===== *)
theory KVCR_GuardSafety
  imports KVCR_GuardRun
begin

text \<open>
  The safety properties of a Guard, and a run in which a primary that stopped beating is fenced and the
  Guard serves its pool.
\<close>

subsection \<open>A run\<close>

definition guard_tier :: TierConfig where
  "guard_tier = \<lparr>tier_pool_layouts = [(''k'', 4)], tier_g3 = None, remote_fw_dram_backend = ''UCX''\<rparr>"

definition guard_lease :: lease where
  "guard_lease = \<lparr>lease_id = 1, incarnation = Some ''i''\<rparr>"

text \<open>Everything the Guard asks for is granted, and the holder's pidfd reports nothing.\<close>

definition quiet_env :: "time \<Rightarrow> guard_env" where
  "quiet_env t = \<lparr>ge_recovery = lease_env\<lparr>re_attach := Inr \<lparr>att_spec = lease_spec, att_mapped = True, att_fd_open = True\<rparr>\<rparr>, ge_now = t, ge_refusing = False,
     ge_closing_meanwhile = False, ge_create_server = Inr (), ge_dup = Inr (), ge_channel = Inr (), ge_listener_close = Inr (),
     ge_control_close = Inr (), ge_new_control_close = Inr (), ge_base_address = 65536, ge_agent = ''a'', ge_seed = 1,
     ge_prepare = Inr (), ge_prepare_ready = (\<lambda>_. True), ge_core_failure = None, ge_start = Inr (), ge_notified = Inr (),
     ge_items = [], ge_close = (\<lambda>_. (True, None, None)), ge_pidfd = Inr None, ge_kill = None, ge_owner_close = Inr ()\<rparr>"

lemma quiet_env_sel [simp]:
  "ge_recovery (quiet_env t) = lease_env\<lparr>re_attach := Inr \<lparr>att_spec = lease_spec, att_mapped = True, att_fd_open = True\<rparr>\<rparr>"
  "ge_now (quiet_env t) = t" "ge_refusing (quiet_env t) = False" "ge_closing_meanwhile (quiet_env t) = False"
  "ge_create_server (quiet_env t) = Inr ()" "ge_dup (quiet_env t) = Inr ()" "ge_channel (quiet_env t) = Inr ()"
  "ge_seed (quiet_env t) = 1" "ge_prepare (quiet_env t) = Inr ()" "ge_start (quiet_env t) = Inr ()"
  "ge_pidfd (quiet_env t) = Inr None" "ge_kill (quiet_env t) = None"
  by (simp_all add: quiet_env_def)

definition guard0 :: guard where
  "guard0 = projr (guard_init lease_spec ''d'' [8] True (Some 1) None (replicate 4168 0))"

definition guard1 :: guard where
  "guard1 = snd (request_claim (quiet_env 0) guard_lease guard_tier (''h'', 7) (snd (guard_start (quiet_env 0) guard0)))"

definition guard2 :: guard where
  "guard2 = actor_turn (quiet_env 0) guard1"

definition guard3 :: guard where
  "guard3 = actor_turn (quiet_env 1) (heartbeat 0 guard_lease guard2)"

lemma guard0_init: "guard_init lease_spec ''d'' [8] True (Some 1) None (replicate 4168 0) = Inr guard0"
  by (simp add: guard0_def guard_init_def MIN_HEARTBEAT_TIMEOUT_def)

lemma guard1_eq:
  "guard1 = guard0\<lparr>g_started := True, g_thread := Running, g_reserved := Some CLAIMING,
     g_commands := [ClaimCmd guard_lease guard_tier (''h'', 7)],
     g_recovery := (recovery_init lease_spec ''d'' [8] (replicate 4168 0))\<lparr>rs_attached := True, rs_journal := Some (journal_init 4160)\<rparr>\<rparr>"
  by (simp add: guard1_def guard0_def guard_init_def MIN_HEARTBEAT_TIMEOUT_def request_claim_def reserve_claim_def submit_def
      guard_start_def rs_prepare_def on_recovery_def quiet_env_def readS_def thenS_def bindS_def modS_def liftR_def retS_def
      recovery_init_def lease_spec_def)

abbreviation guard_pools :: "PoolDescriptor list" where
  "guard_pools \<equiv> [\<lparr>pd_name = ''k'', pd_size_bytes = 8, pd_block_size_bytes = 4, pd_offset_bytes = 4160\<rparr>]"

lemma guard_core: "\<exists>c. core_init (guard_config (quiet_env t) guard_tier None) (guard_bindings True)
    (guard_backends (quiet_env t) guard_tier guard_pools) () 0 1 = Inr c"
proof -
  have "\<not> isl (core_init \<lparr>nixl_agent_name = ''a'', cfg_pool_layouts = [(''k'', 4)], operation_timeout_ms = 1000,
      abandon_timeout_ms = 5000, capacity_low_watermark_percent = 0, startup_timeout_seconds = None\<rparr> (guard_bindings True)
    \<lparr>framework_regions = [], local_dram_options = Some ([(''k'', 69696, 8)], ''UCX''), g3_options = None,
      eager_connect = True, opportunistic = False\<rparr> () 0 1)"
    by code_simp
  then show ?thesis
    by (auto simp: guard_config_def guard_backends_def guard_tier_def quiet_env_def isl_def split: sum.splits)
      (metis obj_sumE)
qed

abbreviation attached :: recovery_state where
  "attached \<equiv> (recovery_init lease_spec ''d'' [8] (replicate 4168 0))\<lparr>rs_attached := True, rs_journal := Some (journal_init 4160)\<rparr>"

lemma guard_pools_eq: "descriptors_from 4160 [8] [(''k'', 4)] = Inr guard_pools"
  by (simp add: pool_descriptor_def compute_pool_geometry_def Let_def)

lemma guard_no_handback:
  "read_handback sample_os sha ep dec lease_spec dig guard_pools (replicate 4168 0) = (Inr (mirror_init [''k'']), replicate 4168 0)"
  by (simp add: read_handback_def read_recovery_snapshot_def mapped_snapshot_def region_offset_def memmap_align_def round_up_def
      sample_os_def lease_spec_def small_spec_def Let_def)

lemma guard_configure: "rs_configure (ge_recovery (quiet_env t)) (tier_pool_layouts guard_tier) attached =
    (Inr (), attached\<lparr>rs_pools := guard_pools, rs_mirror := Some (mirror_init [''k''])\<rparr>)"
  using guard_pools_eq guard_no_handback
  by (simp add: rs_configure_def quiet_env_def guard_tier_def lease_env_def recovery_init_def readS_def thenS_def bindS_def modS_def liftR_def
      retS_def lease_spec_def)

definition adopted :: recovery_state where
  "adopted = attached\<lparr>rs_pools := guard_pools, rs_mirror := Some (mirror_init [''k'']),
     rs_file := fst (reset (replicate 4168 0) (journal_init 4160)), rs_journal := Some (snd (reset (replicate 4168 0) (journal_init 4160)))\<rparr>"

lemma guard_start_primary:
  "start_primary (attached\<lparr>rs_pools := guard_pools, rs_mirror := Some (mirror_init [''k''])\<rparr>) = (Inr (), adopted)"
  by (simp add: start_primary_def with_journal_def adopted_def recovery_init_def readS_def thenS_def bindS_def modS_def retS_def
      case_prod_beta)

lemma guard2_eq: "\<exists>c. guard2 = guard0\<lparr>g_started := True, g_thread := Running, g_reserved := None, g_commands := [],
    g_recovery := adopted, g_configured := Some guard_tier, g_control := True, g_core := Some c, g_phase := PRIMARY,
    g_lease := \<lparr>current = Some guard_lease, listener = True, bind_address = Some (''h'', 7)\<rparr>, g_events := [GrantedTo guard_lease]\<rparr>"
proof -
  obtain c where c: "core_init (guard_config (quiet_env 0) guard_tier None) (guard_bindings True)
    (guard_backends (quiet_env 0) guard_tier guard_pools) () 0 1 = Inr c" using guard_core by blast
  let ?g = "guard1\<lparr>g_commands := [], g_lease := \<lparr>current = None, listener = True, bind_address = Some (''h'', 7)\<rparr>\<rparr>"
  have checks: "adopt_checks (quiet_env 0) guard_tier ?g =
      (Inr (), ?g\<lparr>g_recovery := attached\<lparr>rs_pools := guard_pools, rs_mirror := Some (mirror_init [''k''])\<rparr>, g_configured := Some guard_tier\<rparr>)"
    using guard_configure [of 0]
    by (simp add: adopt_checks_def refuse_incompatible_def on_recovery_def exceptS_def readS_def thenS_def bindS_def whenS_def modS_def
        retS_def guard1_eq guard0_def guard_init_def MIN_HEARTBEAT_TIMEOUT_def)
  let ?h = "?g\<lparr>g_recovery := adopted, g_configured := Some guard_tier, g_control := True, g_core := Some c\<rparr>"
  have moves: "adopt_moves (quiet_env 0) (?g\<lparr>g_recovery := attached\<lparr>rs_pools := guard_pools, rs_mirror := Some (mirror_init [''k''])\<rparr>,
      g_configured := Some guard_tier\<rparr>) = (Inr (), ?h)"
    using guard_start_primary c
    by (simp add: adopt_moves_def prepare_core_def on_recovery_def exceptS_def readS_def thenS_def bindS_def whenS_def modS_def liftR_def
        retS_def guard1_eq guard0_def guard_init_def MIN_HEARTBEAT_TIMEOUT_def adopted_def recovery_init_def Let_def)
  have bind: "on_lease (lease_bind (Inr ()) (''h'', 7)) (guard1\<lparr>g_commands := []\<rparr>) = (Inr True, ?g)"
    by (simp add: on_lease_def lease_bind_def readS_def thenS_def bindS_def modS_def retS_def guard1_eq guard0_def guard_init_def
        MIN_HEARTBEAT_TIMEOUT_def lease_init_def)
  have commit: "snd (claim_commit (quiet_env 0) guard_lease ?h) = ?h\<lparr>g_lease := (g_lease ?h)\<lparr>current := Some guard_lease\<rparr>,
      g_last_heartbeat := None, g_phase := PRIMARY, g_events := g_events ?h @ [GrantedTo guard_lease]\<rparr>"
    by (simp add: claim_commit_def readS_def thenS_def bindS_def modS_def retS_def guard1_eq guard0_def guard_init_def
        MIN_HEARTBEAT_TIMEOUT_def)
  obtain x k where k: "claim_commit (quiet_env 0) guard_lease ?h = (Inr x, k)"
    by (simp add: claim_commit_def readS_def thenS_def bindS_def modS_def retS_def guard1_eq guard0_def guard_init_def
        MIN_HEARTBEAT_TIMEOUT_def)
  have "snd (guard_claim (quiet_env 0) guard_lease guard_tier (''h'', 7) (guard1\<lparr>g_commands := []\<rparr>)) = k"
    using bind checks moves k
    by (simp add: guard_claim_def guard_adopt_def exceptS_def thenS_def bindS_def liftR_def retS_def)
  then have "guard2 = k\<lparr>g_reserved := None\<rparr>"
    by (simp add: guard2_def actor_turn_def guard1_eq dispatch_def readS_def whenS_def thenS_def bindS_def retS_def exceptS_def finallyS_def
        raiseS_def case_prod_beta split: sum.split)
  also have "k = snd (claim_commit (quiet_env 0) guard_lease ?h)" using k by simp
  finally show ?thesis unfolding commit
    by (intro exI [of _ c]) (simp add: guard1_eq guard0_def guard_init_def MIN_HEARTBEAT_TIMEOUT_def)
qed

lemma adopted_empty: "replay_all dec (rs_file adopted) (snd (reset (replicate 4168 0) (journal_init 4160))) m =
    (Inr False, rs_file adopted, snd (reset (replicate 4168 0) (journal_init 4160)), m)"
proof -
  let ?f = "rs_file adopted"
  have "load_acquire PUBLISHED_OFFSET ?f = 0" "load_acquire INVALID_OFFSET ?f = VALID"
    by (simp_all add: adopted_def reset_def offset_defs load_store_same load_store_apart VALID_def)
  then show ?thesis
    by (simp add: replay_all_def read_next_def read_start_def read_at_def reset_def journal_init_def is_invalid_def
        valid_cursors_def Let_def)
qed

lemma adopted_sel [simp]:
  "rs_journal adopted = Some (snd (reset (replicate 4168 0) (journal_init 4160)))" "rs_mirror adopted = Some (mirror_init [''k''])"
  "rs_pools adopted = guard_pools" "rs_spec adopted = lease_spec"
  by (simp_all add: adopted_def recovery_init_def)

lemma adopted_same: "adopted\<lparr>rs_file := rs_file adopted, rs_journal := rs_journal adopted\<rparr> = adopted" "adopted\<lparr>rs_mirror := rs_mirror adopted\<rparr> = adopted"
  by simp_all

lemma guard_replays: "mirror_journal replay_all env (mirror_init [''k'']) adopted = (Inr False, adopted)"
  using adopted_same
  by (simp add: mirror_journal_def with_journal_def readS_def thenS_def bindS_def modS_def retS_def liftR_def adopted_empty)

lemma guard_takes: "take_for_promotion env adopted = (Inr [], adopted)"
  using adopted_same(2)
  by (simp add: take_for_promotion_def take_mirror_def take_records_def catchS_def readS_def thenS_def
      bindS_def modS_def retS_def guard_replays mirror_init_def [symmetric]) (simp add: mirror_init_def)

lemma guard_installs: "\<exists>c'. install_recovery_records [] c = (Inr (), c')"
  by (simp add: install_recovery_records_def adopt_recovery_records_def readS_def retS_def)

lemma guard_region: "\<exists>s. rs_release_region (lease_env\<lparr>re_attach := x\<rparr>) (adopted\<lparr>rs_g3_records := []\<rparr>) = (Inr (), s)"
  by (simp add: rs_release_region_def release_snapshot_region_def truncate_file_def lease_env_def sample_os_def readS_def thenS_def
      bindS_def modS_def liftR_def retS_def)

lemma guard_promotes:
  assumes "g_failure g = None" "g_recovery g = adopted" "g_core g = Some c"
  shows "\<exists>h. guard_promote (quiet_env t) g = (Inr (), h) \<and> g_serving h \<and> g_lease h = g_lease g \<and> g_events h = g_events g"
proof -
  obtain c' where c: "install_recovery_records [] c = (Inr (), c')" using guard_installs by blast
  obtain s where s: "rs_release_region (ge_recovery (quiet_env t)) (adopted\<lparr>rs_g3_records := []\<rparr>) = (Inr (), s)"
    using guard_region by auto
  show ?thesis
    using assms c s guard_takes
    by (simp add: guard_promote_def guard_serve_def prepare_to_serve_def without_g3_def on_recovery_def on_core_def readS_def thenS_def
        bindS_def modS_def liftR_def retS_def)
qed

abbreviation serving_beside :: "pool_lease \<Rightarrow> guard \<Rightarrow> bool" where
  "serving_beside p g \<equiv> g_serving g \<and> g_lease g = p"

lemma background_serving: "keeps (serving_beside p) (record_background_failure env e)"
  unfolding record_background_failure_def escalate_def by (auto intro!: control_rules)

lemma poll_serving: "keeps (serving_beside p) (guard_poll env)"
proof -
  have "keeps (serving_beside p) (poll_orphans env)" by (simp add: keeps_iff poll_orphans_def case_prod_beta)
  then show ?thesis
    unfolding guard_poll_def poll_body_def by (auto intro!: control_rules background_serving)
qed

lemma idle_serving:
  assumes "observe_holder env g = (Inr (), h)" "serving_beside p h"
  shows "serving_beside p (idle_turn env g)"
proof -
  obtain r k where k: "guard_poll env h = (r, k)" by fastforce
  have s: "serving_beside p k" using keeps_result [OF poll_serving assms(2), of env] k by simp
  show ?thesis
    using s keeps_result [OF background_serving s, of env] assms(1) k
    by (cases r) (simp_all add: idle_turn_def thenS_def bindS_def end_thread_def)
qed

lemma guard3_serves: "g_serving guard3 \<and> current (g_lease guard3) = Some guard_lease"
proof -
  obtain c where g: "guard2 = guard0\<lparr>g_started := True, g_thread := Running, g_reserved := None, g_commands := [],
    g_recovery := adopted, g_configured := Some guard_tier, g_control := True, g_core := Some c, g_phase := PRIMARY,
    g_lease := \<lparr>current = Some guard_lease, listener = True, bind_address = Some (''h'', 7)\<rparr>, g_events := [GrantedTo guard_lease]\<rparr>"
    using guard2_eq by blast
  let ?b = "guard2\<lparr>g_last_heartbeat := Some 0\<rparr>"
  let ?f = "?b\<lparr>g_reserved := Some PROMOTING, g_events := [GrantedTo guard_lease, Fenced guard_lease]\<rparr>"
  have beat: "heartbeat 0 guard_lease guard2 = ?b"
    by (simp add: heartbeat_def g guard0_def guard_init_def MIN_HEARTBEAT_TIMEOUT_def is_current_def)
  obtain h where h: "guard_promote (quiet_env 1) ?f = (Inr (), h)" "g_serving h" "g_lease h = g_lease guard2"
    "g_events h = [GrantedTo guard_lease, Fenced guard_lease]"
    using guard_promotes [of ?f c 1] by (auto simp: g guard0_def guard_init_def MIN_HEARTBEAT_TIMEOUT_def)
  let ?h = "h\<lparr>g_last_heartbeat := None, g_reserved := None\<rparr>"
  have "observe_holder (quiet_env 1) ?b = (Inr (), ?h)"
    using h(1)
    by (simp add: observe_holder_def take_over_def fence_missing_primary_def heartbeat_missed_def readS_def thenS_def bindS_def modS_def
        liftR_def retS_def exceptS_def finallyS_def whenS_def g guard0_def guard_init_def MIN_HEARTBEAT_TIMEOUT_def)
  then have "serving_beside (g_lease guard2) (idle_turn (quiet_env 1) ?b)"
    by (rule idle_serving) (simp add: h)
  moreover have "guard3 = idle_turn (quiet_env 1) ?b"
    unfolding guard3_def beat actor_turn_def by (simp add: g)
  ultimately show ?thesis by (simp add: g)
qed

lemma guard_run: "guard_reaches guard0 guard2" "guard_reaches guard2 guard3" "g_configured guard2 = Some guard_tier"
    "current (g_lease guard2) = Some guard_lease" "g_failure guard2 = None"
    "\<exists>c. g_core guard2 = Some c"
proof -
  obtain c where g: "guard2 = guard0\<lparr>g_started := True, g_thread := Running, g_reserved := None, g_commands := [],
    g_recovery := adopted, g_configured := Some guard_tier, g_control := True, g_core := Some c, g_phase := PRIMARY,
    g_lease := \<lparr>current = Some guard_lease, listener = True, bind_address = Some (''h'', 7)\<rparr>, g_events := [GrantedTo guard_lease]\<rparr>"
    using guard2_eq by blast
  show "g_configured guard2 = Some guard_tier" "current (g_lease guard2) = Some guard_lease" "g_failure guard2 = None"
    "\<exists>c. g_core guard2 = Some c"
    by (simp_all add: g guard0_def guard_init_def MIN_HEARTBEAT_TIMEOUT_def)
  have "guard_reaches guard0 (snd (guard_start (quiet_env 0) guard0))"
    by (rule guard_reaches.more [OF guard_reaches.here guard_step.starts])
  then have "guard_reaches guard0 guard1" unfolding guard1_def by (rule guard_reaches.more [OF _ guard_step.claims])
  moreover have "guard_step guard1 guard2" unfolding guard2_def by (rule guard_step.turn) (simp add: guard1_eq)
  ultimately show "guard_reaches guard0 guard2" by (rule guard_reaches.more)
  have "guard_reaches guard2 (heartbeat 0 guard_lease guard2)"
    by (rule guard_reaches.more [OF guard_reaches.here guard_step.beats])
  moreover have "guard_step (heartbeat 0 guard_lease guard2) guard3"
    unfolding guard3_def by (rule guard_step.turn) (simp add: g heartbeat_def)
  ultimately show "guard_reaches guard2 guard3" by (rule guard_reaches.more)
qed

lemma guard_reaches_trans: "guard_reaches h k \<Longrightarrow> guard_reaches g h \<Longrightarrow> guard_reaches g k"
  by (induction rule: guard_reaches.induct) (auto intro: guard_reaches.more)

subsection \<open>The properties\<close>

text \<open>
  C9. A single server. A Guard that serves its pool while a lease is open has sent \<open>SIGKILL\<close> to the holder
  of that lease, or found it gone: however claims, releases, aborts, heartbeats, promotions, failures and
  shutdown interleave, it never serves beside a primary that it has neither fenced nor seen released or
  dead.
\<close>

theorem guard_single_server:
  assumes "guard_init spec digest sizes owner timeout startup bs = Inr g0" and "guard_reaches g0 g"
    and "g_serving g" and "current (g_lease g) = Some l"
  shows "Fenced l \<in> set (g_events g)"
  using reachable_ok [OF assms(2) guard_init_ok [OF assms(1)]] assms(3,4) by (simp add: guard_ok_def body_ok_def lease_ok_def)

theorem guard_single_server_witness:
  "g_serving guard3 \<and> current (g_lease guard3) = Some guard_lease \<and> Fenced guard_lease \<in> set (g_events guard3)"
  using guard_single_server [OF guard0_init guard_reaches_trans [OF guard_run(2,1)]] guard3_serves by blast

text \<open>
  C10. Leases are exclusive. Along every run of a Guard, no lease is granted while another is open, and
  the lease that the Guard takes for current is the one that was granted last and has not been closed.
\<close>

theorem guard_leases_exclusive:
  assumes "guard_init spec digest sizes owner timeout startup bs = Inr g0" and "guard_reaches g0 g"
  shows "holder (g_events g) = Some (current (g_lease g))"
  using reachable_ok [OF assms(2) guard_init_ok [OF assms(1)]] by (simp add: guard_ok_def body_ok_def lease_ok_def)

theorem guard_leases_exclusive_witness:
  "holder (g_events guard2) = Some (Some guard_lease)"
  using guard_leases_exclusive [OF guard0_init guard_run(1)] by (simp add: guard_run)

text \<open>
  C11. The core a Guard prepares, fills with the records it recovered and serves from satisfies the pool
  invariant of a core for as long as the Guard has not failed: every slot of its pools is free or owned by
  exactly one block, whatever the primary wrote to the shared file and whatever the core did on its own
  thread.
\<close>

theorem guard_core_well_formed:
  assumes "guard_init spec digest sizes owner timeout startup bs = Inr g0" and "guard_reaches g0 g"
    and "g_failure g = None" and "g_core g = Some c"
  shows "pools_ok no_g3 c"
  using reachable_ok [OF assms(2) guard_init_ok [OF assms(1)]] assms(3,4)
  by (simp add: guard_ok_def body_ok_def parts_ok_def cores_ok_def)

theorem guard_core_well_formed_witness:
  "\<exists>c. g_core guard2 = Some c \<and> pools_ok no_g3 c"
proof -
  obtain c where "g_core guard2 = Some c" using guard_run(6) by blast
  then show ?thesis using guard_core_well_formed [OF guard0_init guard_run(1) guard_run(5)] by blast
qed

text \<open>
  C12. The first claim that a Guard accepts fixes its tiers: nothing that happens later, a claim with other
  tiers included, changes them.
\<close>

theorem guard_tiers_fixed:
  assumes "guard_reaches g h" and "g_configured g = Some tier"
  shows "g_configured h = Some tier"
  by (rule tiers_reachable [OF assms])

theorem guard_tiers_fixed_witness:
  "g_configured guard3 = Some guard_tier"
  by (rule guard_tiers_fixed [OF guard_run(2,3)])

end
