(* ===== verification/KVCR_Server.thy ===== *)
theory KVCR_Server
  imports KVCR_GuardSafety "HOL-Library.List_Lexorder" "HOL-Library.Char_ord"
begin

text \<open>
  The service (\<open>service/server.py\<close>, \<open>service/health.py\<close>): the registry of the Guards, the thread that
  handles one connection, the health probes and the checks of the command line.

  A call into a Guard queues a command (\<open>KVCR_Guard\<close>); what its future is answered is an argument where
  the caller goes on with it. Sockets and descriptors are answers too; logging is left out.
\<close>

subsection \<open>The registry\<close>

record registry =
  r_guard_count :: nat
  r_guards :: "(nat, guard) dict"
  r_refusing :: bool

type_synonym 'a rx = "(registry, 'a) sx"

definition registry_guard :: "nat \<Rightarrow> registry \<Rightarrow> guard res" where
  "registry_guard i reg =
     (if \<not> i < r_guard_count reg then Inl (KVCRServiceError ''guard_index is out of range'')
      else case map_of (r_guards reg) i of
        None \<Rightarrow> Inl (KVCRServiceError ''no claimable KVCR Guard'')
      | Some g \<Rightarrow> Inr g)"

text \<open>A call of the Guard with an index.\<close>

definition on_guard :: "nat \<Rightarrow> 'a gx \<Rightarrow> 'a rx" where
  "on_guard i m = (\<lambda>reg. case registry_guard i reg of
     Inl e \<Rightarrow> (Inl e, reg)
   | Inr g \<Rightarrow> (case m g of (r, g') \<Rightarrow> (r, reg\<lparr>r_guards := AList.update i g' (r_guards reg)\<rparr>)))"

definition registry_claim :: "guard_env \<Rightarrow> nat \<Rightarrow> TierConfig \<Rightarrow> lease \<Rightarrow> string \<times> nat \<Rightarrow> unit rx" where
  "registry_claim env i tier l address = readS (\<lambda>reg.
     if r_refusing reg then raiseS (KVCRServiceError ''KVCR pool registry is closed'')
     else on_guard i (request_claim env l tier address))"

definition registry_release :: "nat \<Rightarrow> lease \<Rightarrow> unit rx" where
  "registry_release i l = on_guard i (request_release l)"

definition registry_heartbeat :: "time \<Rightarrow> nat \<Rightarrow> lease \<Rightarrow> unit rx" where
  "registry_heartbeat t i l = on_guard i (modS (heartbeat t l))"

definition registry_abort_grant :: "nat \<Rightarrow> lease \<Rightarrow> unit rx" where
  "registry_abort_grant i l = on_guard i (abort_grant l)"

text \<open>Waiting for the phase lock of each Guard changes nothing; the flag is what every commit reads.\<close>

definition refuse_claims :: "registry \<Rightarrow> registry" where
  "refuse_claims reg = reg\<lparr>r_refusing := True\<rparr>"

text \<open>Runs an operation on every Guard of a list of indices, keeping the first failure and the indices that failed.\<close>

fun each_guard :: "(nat \<Rightarrow> guard \<Rightarrow> unit res \<times> guard) \<Rightarrow> nat list \<Rightarrow> (nat, guard) dict \<Rightarrow>
    exn option \<times> nat list \<times> (nat, guard) dict" where
  "each_guard f [] gs = (None, [], gs)"
| "each_guard f (i # is) gs =
     (case map_of gs i of
        None \<Rightarrow> each_guard f is gs
      | Some g \<Rightarrow>
          (case f i g of (r, g') \<Rightarrow>
             (case each_guard f is (AList.update i g' gs) of (failure, bad, gs') \<Rightarrow>
                (first_failure (failure_of r) failure, (if failure_of r = None then bad else i # bad), gs'))))"

definition wedged_guards :: "(nat, guard) dict \<Rightarrow> nat list" where
  "wedged_guards gs = sort (map fst (filter (\<lambda>(i, g). fst (finish_close g) = Inr True) gs))"

text \<open>
  \<open>close()\<close>: every Guard is told, then all are waited for, then the pools of those that stopped are given
  back, then those that are not kept are forgotten. \<open>meanwhile\<close> is what the threads do until the deadline.
\<close>

definition registry_close :: "(nat \<Rightarrow> guard_env) \<Rightarrow> (nat \<Rightarrow> guard \<Rightarrow> guard) \<Rightarrow> unit rx" where
  "registry_close env meanwhile = (\<lambda>reg.
     case each_guard (\<lambda>i. begin_close (env i)) (map fst (r_guards reg)) (r_guards reg) of (failure1, _, gs1) \<Rightarrow>
     let gs2 = map (\<lambda>(i, g). (i, meanwhile i g)) gs1 in
     case each_guard (\<lambda>i. thenS finish_close (retS ())) (sort (map fst gs2)) gs2 of (failure2, failed2, gs3) \<Rightarrow>
     case each_guard (\<lambda>i. readS (\<lambda>g. if g_thread g = Running then retS () else reclaim_pool (env i))) (sort (map fst gs3)) gs3 of
       (failure3, failed3, gs4) \<Rightarrow>
     let wedged = wedged_guards gs2;
         failure = first_failure (first_failure failure1 failure2) failure3;
         kept = filter (\<lambda>(i, g). i \<in> set (wedged @ failed2 @ failed3)) gs4
     in ((case failure of
            Some e \<Rightarrow> Inl e
          | None \<Rightarrow> if wedged \<noteq> [] then Inl (TimeoutError ''timed out waiting for KVCR Guard transitions'') else Inr ()),
         reg\<lparr>r_refusing := True, r_guards := kept\<rparr>))"

subsection \<open>Building the registry\<close>

text \<open>Gives back every group built so far; one whose Guard will not close stays.\<close>

definition release_pools :: "(nat \<Rightarrow> guard_env) \<Rightarrow> (nat \<Rightarrow> guard \<Rightarrow> guard) \<Rightarrow> (nat, guard) dict \<Rightarrow> (nat, guard) dict" where
  "release_pools env meanwhile gs =
     concat (map (\<lambda>(i, g). case guard_shutdown (env i) (meanwhile i) g of
         (Inr _, _) \<Rightarrow> []
       | (Inl _, g') \<Rightarrow> [(i, g')]) gs)"

text \<open>
  The arguments of the registry and what the operating system answers: \<open>ri_allocate\<close> is the allocation of
  the pool file of a rank, its specification and its bytes.
\<close>

record registry_args =
  ra_pool_sizes :: "int list"
  ra_journal_bytes :: nat
  ra_digest :: string
  ra_heartbeat :: "time option"
  ra_startup :: "int option"

record registry_env =
  ri_pool_dir :: bool
  ri_allocate :: "nat \<Rightarrow> int \<Rightarrow> nat \<Rightarrow> (KVCRPoolSpec \<times> bytes) res"
  ri_guard :: "nat \<Rightarrow> guard_env"
  ri_meanwhile :: "nat \<Rightarrow> guard \<Rightarrow> guard"

text \<open>One rank: the error or nothing, the Guards, and whether the allocation of this rank was given back.\<close>

definition build_rank :: "registry_env \<Rightarrow> registry_args \<Rightarrow> nat \<Rightarrow> (nat, guard) dict \<Rightarrow> unit res \<times> (nat, guard) dict \<times> bool" where
  "build_rank env a i gs =
     (case ri_allocate env i (int (ra_journal_bytes a) + sum_list (ra_pool_sizes a)) (ra_journal_bytes a) of
        Inl e \<Rightarrow> (Inl e, gs, False)
      | Inr (spec, bs) \<Rightarrow>
          (case guard_init spec (ra_digest a) (ra_pool_sizes a) True (ra_heartbeat a) (ra_startup a) bs of
             Inl e \<Rightarrow> (Inl e, gs, True)
           | Inr g \<Rightarrow> (case guard_start (ri_guard env i) g of (r, g') \<Rightarrow> (r, gs @ [(i, g')], False))))"

fun build_ranks :: "registry_env \<Rightarrow> registry_args \<Rightarrow> nat list \<Rightarrow> (nat, guard) dict \<Rightarrow> unit res \<times> (nat, guard) dict" where
  "build_ranks env a [] gs = (Inr (), gs)"
| "build_ranks env a (i # is) gs =
     (case build_rank env a i gs of
        (Inl e, gs', _) \<Rightarrow> (Inl e, release_pools (ri_guard env) (ri_meanwhile env) gs')
      | (Inr _, gs', _) \<Rightarrow> build_ranks env a is gs')"

definition registry_init :: "registry_env \<Rightarrow> nat \<Rightarrow> registry_args \<Rightarrow> registry res \<times> (nat, guard) dict" where
  "registry_init env guard_count a =
     (if \<not> ri_pool_dir env then (Inl (ValueError ''KVCR pool directory does not exist''), [])
      else case build_ranks env a [0..<guard_count] [] of
        (Inl e, gs) \<Rightarrow> (Inl e, gs)
      | (Inr _, gs) \<Rightarrow> (Inr \<lparr>r_guard_count = guard_count, r_guards = gs, r_refusing = False\<rparr>, gs))"

subsection \<open>The server\<close>

record server =
  s_registry :: registry
  s_digest :: string
  s_fatal_error :: "exn option"
  s_last_progress :: "time option"
  s_closed :: bool

definition server_fail :: "exn \<Rightarrow> server \<Rightarrow> server" where
  "server_fail e s =
     s\<lparr>s_fatal_error := (case s_fatal_error s of None \<Rightarrow> Some e | Some x \<Rightarrow> Some x), s_registry := refuse_claims (s_registry s)\<rparr>"

text \<open>
  \<open>dispatch\<close> in two halves: what is queued, and what is sent once the future is answered with a grant and
  the descriptor of the listener. The Guard is the object of the registry as it is at that moment.
\<close>

definition dispatch_request :: "guard_env \<Rightarrow> claim \<Rightarrow> lease \<Rightarrow> (server, unit) sx" where
  "dispatch_request env request liveness = (\<lambda>s.
     if claim_digest request \<noteq> s_digest s
     then (Inl (KVCRServiceError ''KVCR compatibility digest does not match the service''), s)
     else case registry_claim env (claim_guard_index request) (claim_tier request)
         (liveness\<lparr>incarnation := claim_incarnation request\<rparr>) (control_host request, control_port request) (s_registry s) of
       (r, reg) \<Rightarrow> (r, s\<lparr>s_registry := reg\<rparr>))"

definition dispatch_reply :: "claim \<Rightarrow> guard \<Rightarrow> grant \<Rightarrow> nat \<Rightarrow> granted \<times> nat \<times> nat \<times> lease" where
  "dispatch_reply request g grant lfd =
     (case grant of (spec, pools, l) \<Rightarrow>
        (\<lparr>grant_guard_index = claim_guard_index request, grant_spec = spec, grant_tier = claim_tier request,
           grant_pools = pools, dead_incarnations = sort (g_dead g), heartbeat_enabled = g_heartbeat_timeout g \<noteq> None\<rparr>,
         claim_guard_index request, lfd, l))"

subsection \<open>One connection\<close>

text \<open>What the handler does to descriptors, leases and the connection, in order.\<close>

datatype handler_event =
    SentResponse response
  | SentGrant granted nat nat
  | ClosedLiveness
  | ClosedDescriptor nat
  | Beat
  | EndedLease bool
  | FailedService exn

text \<open>
  \<open>he_receive\<close> is the claim, if one arrives; \<open>he_peer\<close> the pidfd of the peer; \<open>he_dispatch\<close> what \<open>dispatch\<close>
  returns; \<open>he_messages\<close> what the connection brings while the lease is held, with \<open>EOFError\<close> at its end;
  \<open>he_end\<close> and \<open>he_beat\<close> are what the registry answers. Descriptors that are open close without an error.
\<close>

datatype held_message = HoldBeat | HoldRelease bool

record handler_env =
  he_receive :: "claim res"
  he_peer :: "unit res"
  he_dispatch :: "(granted \<times> nat \<times> nat \<times> lease) res"
  he_open_pool :: "nat res"
  he_send :: "unit res"
  he_send_grant :: "unit res"
  he_messages :: "held_message res list"
  he_beat :: "unit res"
  he_end :: "unit res"

type_synonym 'a hx = "(handler_event list, 'a) sx"

abbreviation emitH :: "handler_event \<Rightarrow> unit hx" where
  "emitH e \<equiv> modS (\<lambda>es. es @ [e])"

fun service_error :: "exn \<Rightarrow> bool" where
  "service_error (KVCRServiceError _) = True"
| "service_error (KVCRSocketError _) = True"
| "service_error (KVCRMsgFramingError _) = True"
| "service_error (KVCRGuardProtocolError _) = True"
| "service_error _ = False"

fun message_error :: "exn \<Rightarrow> bool" where
  "message_error (KVCRMsgFramingError _) = True"
| "message_error (KVCRGuardProtocolError _) = True"
| "message_error _ = False"

text \<open>The text of an error of the service; no other error is sent to a claimant.\<close>

fun exn_text :: "exn \<Rightarrow> string" where
  "exn_text (KVCRServiceError m) = m"
| "exn_text (KVCRSocketError m) = m"
| "exn_text (KVCRMsgFramingError m) = m"
| "exn_text (KVCRGuardProtocolError m) = m"
| "exn_text _ = []"

fun os_error :: "exn \<Rightarrow> bool" where
  "os_error (OSError _) = True"
| "os_error (PermissionError _) = True"
| "os_error (TimeoutError _) = True"
| "os_error _ = False"

text \<open>\<open>with suppress(OSError): send(...)\<close>.\<close>

definition send_suppressed :: "handler_env \<Rightarrow> response \<Rightarrow> unit hx" where
  "send_suppressed env r =
     thenS (emitH (SentResponse r)) (exceptS (liftR (he_send env)) (\<lambda>e. if os_error e then retS () else raiseS e))"

definition send_error :: "handler_env \<Rightarrow> exn \<Rightarrow> unit hx" where
  "send_error env e = send_suppressed env (Error (exn_text e))"

definition release_or_fail :: "handler_env \<Rightarrow> bool \<Rightarrow> bool hx" where
  "release_or_fail env served =
     thenS (emitH (EndedLease served))
       (case he_end env of
          Inr _ \<Rightarrow> retS True
        | Inl e \<Rightarrow> if service_error e then thenS (send_error env e) (retS False)
                   else thenS (emitH (FailedService e)) (retS False))"

fun await_release :: "handler_env \<Rightarrow> held_message res list \<Rightarrow> unit hx" where
  "await_release env [] = retS ()"
| "await_release env (Inl e # ms) =
     (if socket_failure e then retS ()
      else if message_error e then thenS (send_error env e) (await_release env ms)
      else raiseS e)"
| "await_release env (Inr HoldBeat # ms) =
     thenS (emitH Beat) (thenS (liftR (he_beat env)) (await_release env ms))"
| "await_release env (Inr (HoldRelease served) # ms) =
     bindS (release_or_fail env served) (\<lambda>released. whenS released (send_suppressed env Released))"

definition deliver_grant :: "handler_env \<Rightarrow> granted \<Rightarrow> nat \<Rightarrow> unit hx" where
  "deliver_grant env response lfd =
     (case he_open_pool env of
        Inl e \<Rightarrow>
          thenS (emitH (ClosedDescriptor lfd))
            (thenS (release_or_fail env False) (send_error env (KVCRServiceError ''KVCR could not open the pool'')))
      | Inr pfd \<Rightarrow>
          thenS (emitH (SentGrant response pfd lfd))
          (thenS (suppressed (liftR (he_send_grant env)))
          (thenS (emitH (ClosedDescriptor pfd))
          (thenS (emitH (ClosedDescriptor lfd))
            (await_release env (he_messages env))))))"

definition refuse_claim :: "handler_env \<Rightarrow> exn \<Rightarrow> unit hx" where
  "refuse_claim env e =
     thenS (whenS (is_ok (he_peer env)) (emitH ClosedLiveness))
       (send_suppressed env (Error (if service_error e then exn_text e else ''internal KVCR service error'')))"

definition handle :: "handler_env \<Rightarrow> unit hx" where
  "handle env =
     (case he_receive env of
        Inl e \<Rightarrow>
          if socket_failure e then retS ()
          else if message_error e then send_error env e
          else raiseS e
      | Inr request \<Rightarrow>
          (case bindR (he_peer env) (\<lambda>_. he_dispatch env) of
             Inl e \<Rightarrow> refuse_claim env e
           | Inr (response, guard_index, lfd, l) \<Rightarrow> deliver_grant env response lfd))"

subsection \<open>Health\<close>

text \<open>
  \<open>last_progress\<close> is when the actor of a Guard last began a turn; the service reads it without a lock.
\<close>

fun guards_health :: "(nat \<Rightarrow> time) \<Rightarrow> time \<Rightarrow> time \<Rightarrow> bool \<Rightarrow> (nat, guard) dict \<Rightarrow> (nat \<times> string) option" where
  "guards_health last_progress t timeout ready [] = None"
| "guards_health last_progress t timeout ready ((i, g) # gs) =
     (if g_failure g \<noteq> None \<or> g_thread g \<noteq> Running then Some (503, ''guard failed'')
      else if ready \<and> g_reserved g = Some PROMOTING then Some (503, ''guard promoting'')
      else if ready \<and> t - last_progress i > timeout then Some (503, ''guard stalled'')
      else guards_health last_progress t timeout ready gs)"

definition service_health :: "(nat \<Rightarrow> time) \<Rightarrow> time \<Rightarrow> time \<Rightarrow> bool \<Rightarrow> server \<Rightarrow> nat \<times> string" where
  "service_health last_progress t timeout ready s =
     (if s_closed s \<or> r_refusing (s_registry s) then (503, ''service stopping'')
      else if s_fatal_error s \<noteq> None then (503, ''service failed'')
      else if (case s_last_progress s of None \<Rightarrow> False | Some p \<Rightarrow> t - p > timeout) then (503, ''service stalled'')
      else if length (r_guards (s_registry s)) \<noteq> r_guard_count (s_registry s) then (503, ''guards unavailable'')
      else case guards_health last_progress t timeout ready (r_guards (s_registry s)) of
        Some answer \<Rightarrow> answer
      | None \<Rightarrow>
          if s_last_progress s = None then ((if ready then 503 else 200), ''service starting'')
          else (200, ''ok''))"

text \<open>The probe of the daemon, which exists before and after the service.\<close>

definition health_status :: "(nat \<Rightarrow> time) \<Rightarrow> time \<Rightarrow> time \<Rightarrow> bool \<Rightarrow> server option \<Rightarrow> bool \<Rightarrow> nat \<times> string" where
  "health_status last_progress t timeout stopping s ready =
     (if stopping then (503, ''service stopping'')
      else case s of
        None \<Rightarrow> ((if ready then 503 else 200), ''service starting'')
      | Some srv \<Rightarrow> service_health last_progress t timeout ready srv)"

text \<open>
  \<open>do_GET\<close>. \<open>dependency\<close> is what the URL that readiness depends on answers, if one is configured: its status,
  or nothing if it cannot be reached.
\<close>

definition do_GET :: "string \<Rightarrow> (bool \<Rightarrow> nat \<times> string) \<Rightarrow> nat option option \<Rightarrow> nat \<times> string" where
  "do_GET uri probe dependency =
     (if uri \<noteq> ''/live'' \<and> uri \<noteq> ''/ready'' then (404, ''not found'')
      else
        let ready = (uri = ''/ready''); (code, reason) = probe ready in
        if ready \<and> code = 200 \<and> dependency \<noteq> None \<and> dependency \<noteq> Some (Some 200)
        then (503, ''dependency unavailable'') else (code, reason))"

subsection \<open>The command line\<close>

definition GB :: int where "GB = 2 ^ 30"
definition DEFAULT_JOURNAL_BYTES :: int where "DEFAULT_JOURNAL_BYTES = 100 * 2 ^ 20"
definition maxsize :: int where "maxsize = 2 ^ 63 - 1"

text \<open>
  The sizes of the pools: \<open>items\<close> are the numbers that \<open>Decimal\<close> reads between the commas, nothing for text
  that is no number or not finite. The context's precision covers all digits of the products, so they are exact.
\<close>

definition parse_pool_sizes_gb :: "int \<Rightarrow> rat option list \<Rightarrow> string + int list" where
  "parse_pool_sizes_gb page items =
     (if \<not> list_all (\<lambda>x. case x of None \<Rightarrow> False | Some n \<Rightarrow> n > 0) items
      then Inl ''--pool-sizes-gb must contain positive, finite numbers''
      else if list_ex (\<lambda>x. the x > rat_of_int maxsize) items
      then Inl ''--pool-sizes-gb describes an allocation that is too large''
      else
        let sizes_bytes = map (\<lambda>x. \<lfloor>the x * rat_of_int GB\<rfloor> div page * page) items in
        if \<not> list_all (\<lambda>n. n \<ge> page) sizes_bytes
        then Inl ''--pool-sizes-gb values must be at least one memory page''
        else if DEFAULT_JOURNAL_BYTES + sum_list sizes_bytes > maxsize
        then Inl ''--pool-sizes-gb describes an allocation that is too large''
        else Inr sizes_bytes)"

text \<open>The arguments after \<open>argparse\<close>; \<open>arg_dependency\<close> says whether \<open>urlsplit\<close> accepts the URL as one of HTTP.\<close>

record args =
  arg_guard_count :: int
  arg_health_port :: "int option"
  arg_health_timeout :: rat
  arg_dependency :: "bool option"
  arg_heartbeat_ms :: "rat option"
  arg_startup :: "int option"

definition check_args :: "args \<Rightarrow> string option" where
  "check_args a =
     (if arg_guard_count a < 1 then Some ''--guard-count must be at least 1''
      else if (case arg_health_port a of None \<Rightarrow> False | Some p \<Rightarrow> \<not> (1 \<le> p \<and> p \<le> 65535))
      then Some ''--health-port must be between 1 and 65535''
      else if \<not> 1 < arg_health_timeout a then Some ''--health-timeout-seconds must be finite and greater than 1''
      else if (case arg_dependency a of None \<Rightarrow> False | Some valid \<Rightarrow> arg_health_port a = None \<or> \<not> valid)
      then Some ''--health-dependency-url requires --health-port and a valid HTTP(S) URL''
      else if (case arg_heartbeat_ms a of None \<Rightarrow> False | Some n \<Rightarrow> \<not> MIN_HEARTBEAT_TIMEOUT * 1000 \<le> n)
      then Some ''--heartbeat-timeout-ms must be at least 1000 and finite''
      else if (case arg_startup a of None \<Rightarrow> False | Some n \<Rightarrow> n \<le> 0)
      then Some ''--startup-timeout-seconds must be positive''
      else None)"

subsection \<open>No grant after a refusal\<close>

fun is_grant :: "guard_event \<Rightarrow> bool" where
  "is_grant (GrantedTo _) = True"
| "is_grant _ = False"

definition grants :: "guard \<Rightarrow> guard_event list" where
  "grants g = filter is_grant (g_events g)"

lemma calm_grants: "calm m \<Longrightarrow> keeps (\<lambda>g. grants g = v) m"
proof -
  assume "calm m"
  then have "keeps (\<lambda>g. (\<lambda>(p, cs, th, c, r, es, ph, f, d). filter is_grant es = v) (control g)) m" unfolding calm_def by blast
  then show ?thesis by (simp add: control_def grants_def [abs_def])
qed

lemma promote_grants: "keeps (\<lambda>g. grants g = v) (guard_promote env)"
  using control_promote [of "\<lambda>(p, cs, th, c, r, es, ph, f, d). filter is_grant es = v" env] by (simp add: control_def grants_def [abs_def])

lemma mod_grants: "(\<And>g. grants (f g) = grants g) \<Longrightarrow> keeps (\<lambda>g. grants g = v) (modS f)"
  by (simp add: keeps_iff modS_def)

lemma grants_simps [simp]:
  "grants (g\<lparr>g_failure := a\<rparr>) = grants g" "grants (g\<lparr>g_phase := b\<rparr>) = grants g" "grants (g\<lparr>g_reserved := c\<rparr>) = grants g"
  "grants (g\<lparr>g_lease := d\<rparr>) = grants g" "grants (g\<lparr>g_last_heartbeat := e\<rparr>) = grants g" "grants (g\<lparr>g_dead := h\<rparr>) = grants g"
  "grants (g\<lparr>g_fence_failed := i\<rparr>) = grants g" "grants (g\<lparr>g_configured := j\<rparr>) = grants g" "grants (g\<lparr>g_control := k\<rparr>) = grants g"
  "grants (g\<lparr>g_resumable := k\<rparr>) = grants g" "grants (g\<lparr>g_commands := cs\<rparr>) = grants g" "grants (g\<lparr>g_closed := k\<rparr>) = grants g"
  "grants (g\<lparr>g_closing := k\<rparr>) = grants g" "grants (g\<lparr>g_thread := t\<rparr>) = grants g"
  "\<not> is_grant x \<Longrightarrow> grants (g\<lparr>g_events := g_events g @ [x]\<rparr>) = grants g"
  "grants (end_holder l g) = grants g" "grants (request_close g) = grants g"
  by (simp_all add: grants_def end_holder_def request_close_def)

lemma fail_grants: "keeps (\<lambda>g. grants g = v) (guard_fail e)" "keeps (\<lambda>g. grants g = v) (escalate e)"
  unfolding guard_fail_def escalate_def by (intro keeps_then mod_grants; simp)+

lemma background_grants: "keeps (\<lambda>g. grants g = v) (record_background_failure env e)"
  unfolding record_background_failure_def
  by (intro keeps_then keeps_read_any keeps_when keeps_suppressed calm_grants [OF calm_on_core] keeps_close_core_act fail_grants
      mod_grants) simp

lemma stand_down_grants: "keeps (\<lambda>g. grants g = v) (stand_down env l)"
  unfolding stand_down_def
  by (intro keeps_then keeps_finally keeps_except calm_grants [OF calm_release] fail_grants keeps_raise mod_grants) simp_all

lemma promote_for_grants: "keeps (\<lambda>g. grants g = v) (promote_for env l)"
  unfolding promote_for_def
  by (intro keeps_then keeps_finally keeps_read_any keeps_when promote_grants mod_grants) simp_all

lemma abort_grants: "keeps (\<lambda>g. grants g = v) (guard_abort env l)"
  unfolding guard_abort_def
  by (intro keeps_read_any keeps_if keeps_except keeps_then promote_for_grants fail_grants keeps_raise stand_down_grants)

lemma adopt_grants: "keeps (\<lambda>g. grants g = v) (guard_adopt env tier)"
  unfolding guard_adopt_def adopt_checks_def adopt_moves_def refuse_incompatible_def
  by (intro keeps_then keeps_except keeps_read_any keeps_option keeps_raise keeps_ret keeps_when keeps_lift background_grants
      calm_grants [OF calm_hand_back] calm_grants [OF calm_prepare_core] calm_grants [OF calm_on_recovery]
      keeps_rs_configure keeps_start_primary mod_grants) simp_all

lemma commit_grants:
  assumes "ge_refusing env"
  shows "keeps (\<lambda>g. grants g = v) (claim_commit env l)"
proof -
  have eq: "claim_commit env l = thenS (modS (\<lambda>g. if ge_closing_meanwhile env then request_close g else g))
      (thenS (guard_release env) (thenS (set_phase IDLE) (raiseS (KVCRServiceError ''KVCR pool registry is closed''))))"
    using assms by (simp add: claim_commit_def readS_def thenS_def)
  show ?thesis unfolding eq by (intro keeps_then mod_grants calm_grants [OF calm_release] keeps_raise) simp_all
qed

lemma claim_grants: "ge_refusing env \<Longrightarrow> keeps (\<lambda>g. grants g = v) (guard_claim env l tier a)"
proof -
  assume e: "ge_refusing env"
  have forget: "keeps (\<lambda>g. grants g = v) (forget_listener env)"
    unfolding keeps_iff forget_listener_def unbind_def escalate_def
    by (auto simp: retS_def modS_def grants_def split: option.split sum.split)
  have bind: "keeps (\<lambda>g. grants g = v) (on_lease m)" for m :: "(pool_lease, bool) sx"
    by (simp add: keeps_iff on_lease_def case_prod_beta)
  show ?thesis unfolding guard_claim_def
    by (intro keeps_bind keeps_except keeps_then keeps_when keeps_lift keeps_raise bind adopt_grants commit_grants forget e)
qed

lemma close_grants: "keeps (\<lambda>g. grants g = v) (guard_close env)"
proof -
  have lease: "keeps (\<lambda>g. grants g = v) (close_lease env)"
    by (auto simp: keeps_iff close_lease_def on_lease_def thenS_def bindS_def modS_def grants_def case_prod_beta split: option.split)
  show ?thesis unfolding guard_close_def close_resources_def raise_failure_def
    by (intro keeps_then keeps_bind keeps_attempt keeps_option keeps_ret keeps_raise lease calm_grants [OF calm_stop_cores]
        calm_grants [OF calm_close_control] calm_grants [OF calm_on_recovery] keeps_rs_close mod_grants) simp_all
qed

lemma observe_grants: "keeps (\<lambda>g. grants g = v) (observe_holder env)"
proof -
  have "keeps (\<lambda>g. grants g = v) (take_over env l flags)" for l flags
    unfolding take_over_def fence_missing_primary_def
    by (intro keeps_option keeps_if keeps_raise keeps_then keeps_bind keeps_ret keeps_when mod_grants promote_for_grants
        promote_grants) simp_all
  then show ?thesis unfolding observe_holder_def
    by (intro keeps_read_any keeps_if keeps_ret keeps_option keeps_raise keeps_bind keeps_lift keeps_then keeps_finally
        keeps_except fail_grants mod_grants) simp_all
qed

lemma poll_grants: "keeps (\<lambda>g. grants g = v) (guard_poll env)"
  unfolding guard_poll_def
  by (intro keeps_read_any keeps_if keeps_ret keeps_except keeps_then keeps_when background_grants
      calm_grants [OF calm_poll_body] calm_grants [OF calm_on_recovery] keeps_invalidate_journal)

lemma dispatch_grants:
  assumes "ge_refusing env"
  shows "keeps (\<lambda>g. grants g = v) (dispatch env c)"
proof -
  have "keeps (\<lambda>g. grants g = v) (run_command env c)"
    by (cases c) (auto intro!: keeps_bind keeps_then keeps_ret claim_grants [OF assms] stand_down_grants abort_grants close_grants)
  then show ?thesis unfolding dispatch_def
    by (intro keeps_read_any keeps_if keeps_ret keeps_then keeps_when mod_grants keeps_except keeps_finally keeps_raise) simp_all
qed

lemma turn_grants:
  assumes "ge_refusing env"
  shows "grants (actor_turn env g) = grants g"
proof (cases "g_commands g")
  case Nil
  obtain r h where e: "thenS (observe_holder env) (guard_poll env) g = (r, h)" by fastforce
  have h: "grants h = grants g"
    using keeps_result [OF keeps_then [OF observe_grants poll_grants], of g "grants g" env env] e by simp
  have "grants (snd (record_background_failure env x h)) = grants g" for x
    using keeps_result [OF background_grants h] .
  then show ?thesis using h by (cases r) (simp_all add: actor_turn_def Nil idle_turn_def e end_thread_def)
next
  case (Cons c cs)
  have "grants (snd (dispatch env c (g\<lparr>g_commands := cs\<rparr>))) = grants g"
    by (rule keeps_result [OF dispatch_grants [OF assms]]) simp
  then show ?thesis by (auto simp: actor_turn_def Cons Let_def end_thread_def)
qed



subsection \<open>The handler of a connection\<close>

fun is_close :: "handler_event \<Rightarrow> bool" where
  "is_close (ClosedDescriptor _) = True"
| "is_close _ = False"

fun is_end :: "handler_event \<Rightarrow> bool" where
  "is_end (EndedLease _) = True"
| "is_end _ = False"

text \<open>A response closes nothing and ends nothing.\<close>

lemma send_suppressed_events: "snd (send_suppressed env r es) = es @ [SentResponse r]"
  by (auto simp: send_suppressed_def thenS_def bindS_def modS_def exceptS_def liftR_def retS_def raiseS_def split: sum.split)

lemma release_events:
  "\<exists>more. snd (release_or_fail env b es) = es @ EndedLease b # more \<and> filter is_close more = [] \<and> filter is_end more = [] \<and>
    (\<forall>resp p l. SentGrant resp p l \<notin> set more)"
proof -
  have sent: "send_error env e es = (fst (send_error env e es), es @ [SentResponse (Error (exn_text e))])" for e es
    using send_suppressed_events [of env _ es] by (simp add: send_error_def prod_eq_iff)
  show ?thesis
  proof (cases "he_end env")
    case (Inl e)
    show ?thesis using sent [of e "es @ [EndedLease b]"] Inl
      by (cases "fst (send_error env e (es @ [EndedLease b]))")
        (auto simp: release_or_fail_def thenS_def bindS_def modS_def retS_def split: prod.split)
  qed (auto simp: release_or_fail_def thenS_def bindS_def modS_def retS_def)
qed

definition held_events :: "held_message res list \<Rightarrow> handler_event list \<Rightarrow> bool" where
  "held_events ms es \<longleftrightarrow> filter is_close es = [] \<and> length (filter is_end es) \<le> 1 \<and> (\<forall>resp p l. SentGrant resp p l \<notin> set es) \<and>
     (\<forall>b. EndedLease b \<in> set es \<longrightarrow> Inr (HoldRelease b) \<in> set ms)"

lemma held_events_Cons: "held_events ms es \<Longrightarrow> held_events (m # ms) es"
  by (auto simp: held_events_def)

lemma held_events_event: "held_events ms es \<Longrightarrow> x = Beat \<or> (\<exists>r. x = SentResponse r) \<Longrightarrow> held_events ms (x # es)"
  by (auto simp: held_events_def)

lemma ended_none: "filter is_end es = [] \<Longrightarrow> EndedLease b \<notin> set es"
  by (auto simp: filter_empty_conv)

lemma await_events: "\<exists>more. snd (await_release env ms es) = es @ more \<and> held_events ms more"
proof (induction env ms arbitrary: es rule: await_release.induct)
  case (2 env e ms)
  have "\<exists>more. snd (thenS (send_error env e) (await_release env ms) es) = es @ more \<and> held_events (Inl e # ms) more"
    if err: "\<not> socket_failure e" "message_error e"
  proof (cases "send_error env e es")
    case (Pair r es')
    then have es': "es' = es @ [SentResponse (Error (exn_text e))]"
      using send_suppressed_events [of env _ es] by (simp add: send_error_def) (metis snd_conv)
    obtain more where "snd (await_release env ms es') = es' @ more" "held_events ms more" using 2 [OF err] by blast
    then show ?thesis using Pair es'
      by (cases r) (auto simp: thenS_def bindS_def held_events_def)
  qed
  then show ?case by (auto simp: retS_def raiseS_def held_events_def)
next
  case (3 env ms)
  obtain more where m: "snd (await_release env ms (es @ [Beat])) = (es @ [Beat]) @ more" "held_events ms more" using 3 by blast
  then have "held_events (Inr HoldBeat # ms) (Beat # more)" by (intro held_events_Cons held_events_event) simp_all
  then show ?case using m
    by (cases "he_beat env") (auto simp: thenS_def bindS_def modS_def liftR_def retS_def raiseS_def held_events_def)
next
  case (4 env b ms)
  obtain more where m: "snd (release_or_fail env b es) = es @ EndedLease b # more" "filter is_close more = []" "filter is_end more = []"
    "\<forall>resp p l. SentGrant resp p l \<notin> set more" using release_events by blast
  obtain r es' where e: "release_or_fail env b es = (r, es')" by fastforce
  have base: "held_events (Inr (HoldRelease b) # ms) (EndedLease b # more @ extra)"
    if "extra = [] \<or> extra = [SentResponse Released]" for extra
    using m(2-4) that ended_none [OF m(3)] by (auto simp: held_events_def)
  show ?case
  proof (cases "\<exists>x. r = Inr x \<and> x")
    case True
    then have "snd (await_release env (Inr (HoldRelease b) # ms) es) = es @ EndedLease b # more @ [SentResponse Released]"
      using e m(1) by (auto simp: bindS_def whenS_def send_suppressed_events)
    then show ?thesis using base by blast
  next
    case False
    then have "snd (await_release env (Inr (HoldRelease b) # ms) es) = es @ EndedLease b # more @ []"
      using e m(1) by (cases r) (auto simp: bindS_def whenS_def retS_def)
    then show ?thesis using base by blast
  qed
qed (simp add: retS_def held_events_def)

text \<open>
  C19. The handler of a connection never takes back a pool that a claimant may have mapped. It ends a lease
  at most once; once it has tried to deliver a grant it closes both descriptors of the grant exactly once,
  and it ends the lease only because the claimant asked for it, in the way the claimant asked.
\<close>

theorem handler_holds_lease:
  assumes "handle env [] = (r, es)"
  shows "length (filter is_end es) \<le> 1 \<and>
    (\<forall>resp p l. SentGrant resp p l \<in> set es \<longrightarrow>
       filter is_close es = [ClosedDescriptor p, ClosedDescriptor l] \<and>
       (\<forall>b. EndedLease b \<in> set es \<longrightarrow> Inr (HoldRelease b) \<in> set (he_messages env)))"
proof -
  have es: "es = snd (handle env [])" using assms by simp
  have plain: ?thesis if "filter is_end es = []" "\<forall>resp p l. SentGrant resp p l \<notin> set es" using that by simp
  show ?thesis
  proof (cases "\<exists>req resp i l x. he_receive env = Inr req \<and> bindR (he_peer env) (\<lambda>_. he_dispatch env) = Inr (resp, i, l, x)")
    case False
    have "filter is_end es = [] \<and> (\<forall>resp p l. SentGrant resp p l \<notin> set es)"
      using False
      by (auto simp: es handle_def refuse_claim_def send_error_def send_suppressed_events thenS_def bindS_def whenS_def modS_def retS_def
          raiseS_def split: sum.split prod.split)
    then show ?thesis using plain by blast
  next
    case True
    then obtain req resp i l x where h: "he_receive env = Inr req" "bindR (he_peer env) (\<lambda>_. he_dispatch env) = Inr (resp, i, l, x)" by blast
    then have d: "es = snd (deliver_grant env resp l [])" by (simp add: es handle_def)
    show ?thesis
    proof (cases "he_open_pool env")
      case (Inr p)
      obtain more where m: "snd (await_release env (he_messages env) [SentGrant resp p l, ClosedDescriptor p, ClosedDescriptor l]) =
          [SentGrant resp p l, ClosedDescriptor p, ClosedDescriptor l] @ more" "held_events (he_messages env) more"
        using await_events by blast
      then have "es = [SentGrant resp p l, ClosedDescriptor p, ClosedDescriptor l] @ more"
        by (cases "he_send_grant env") (simp_all add: d deliver_grant_def Inr thenS_def bindS_def modS_def suppressed_def liftR_def
            retS_def raiseS_def)
      then show ?thesis using m(2) by (auto simp: held_events_def)
    next
      case (Inl e)
      obtain more where m: "snd (release_or_fail env False [ClosedDescriptor l]) = [ClosedDescriptor l] @ EndedLease False # more"
        "filter is_end more = []" "\<forall>resp p l. SentGrant resp p l \<notin> set more" using release_events by blast
      obtain q es' where q: "release_or_fail env False [ClosedDescriptor l] = (q, es')" by fastforce
      have "\<exists>tail. es = [ClosedDescriptor l] @ EndedLease False # more @ tail \<and> filter is_end tail = [] \<and> (\<forall>resp p l. SentGrant resp p l \<notin> set tail)"
        using m(1) q by (cases q) (auto simp: d deliver_grant_def Inl thenS_def bindS_def modS_def send_error_def send_suppressed_events)
      then show ?thesis using m(2,3) by auto
    qed
  qed
qed

definition sample_handler :: handler_env where
  "sample_handler = \<lparr>he_receive = Inr sample_claim, he_peer = Inr (), he_dispatch = Inr (sample_grant, 0, 8, guard_lease),
     he_open_pool = Inr 7, he_send = Inr (), he_send_grant = Inl (OSError ''EPIPE''),
     he_messages = [Inr HoldBeat, Inr (HoldRelease False)], he_beat = Inr (), he_end = Inr ()\<rparr>"

lemma sample_handled: "handle sample_handler [] = (Inr (), [SentGrant sample_grant 7 8, ClosedDescriptor 7, ClosedDescriptor 8, Beat,
    EndedLease False, SentResponse Released])"
  by (simp add: handle_def sample_handler_def deliver_grant_def release_or_fail_def send_suppressed_def suppressed_def exceptS_def
      thenS_def bindS_def modS_def retS_def liftR_def raiseS_def whenS_def)

theorem handler_holds_lease_witness:
  "Inr (HoldRelease False) \<in> set (he_messages sample_handler)"
  using handler_holds_lease [OF sample_handled] by auto

subsection \<open>Health and sizes\<close>

lemma guards_health_None:
  "guards_health lp t timeout ready gs = None \<longleftrightarrow>
    list_all (\<lambda>(i, g). g_failure g = None \<and> g_thread g = Running \<and>
      (ready \<longrightarrow> g_reserved g \<noteq> Some PROMOTING \<and> t - lp i \<le> timeout)) gs"
  by (induction lp t timeout ready gs rule: guards_health.induct) auto

lemma guards_health_Some: "guards_health lp t timeout ready gs = Some (code, msg) \<Longrightarrow> code = 503"
  by (induction lp t timeout ready gs rule: guards_health.induct) (auto split: if_splits)


text \<open>
  C22. The sizes accepted from the command line are what was asked for, rounded down to whole pages: each is
  at least a page, a multiple of the page and less than a page below the request, and together with the
  journal they fit in a signed 64-bit size.
\<close>

theorem pool_sizes_bounds:
  assumes "parse_pool_sizes_gb page items = Inr sizes" and "0 < page"
  shows "list_all (\<lambda>n. page \<le> n \<and> n mod page = 0) sizes \<and> DEFAULT_JOURNAL_BYTES + sum_list sizes \<le> maxsize \<and>
    list_all2 (\<lambda>x n. \<exists>q. x = Some q \<and> rat_of_int n \<le> q * rat_of_int GB \<and> q * rat_of_int GB < rat_of_int (n + page)) items sizes"
proof -
  have items: "list_all (\<lambda>x. case x of None \<Rightarrow> False | Some n \<Rightarrow> n > 0) items"
    and sizes: "sizes = map (\<lambda>x. \<lfloor>the x * rat_of_int GB\<rfloor> div page * page) items"
    and page: "list_all (\<lambda>n. n \<ge> page) sizes" and fits: "DEFAULT_JOURNAL_BYTES + sum_list sizes \<le> maxsize"
    using assms(1) by (auto simp: parse_pool_sizes_gb_def Let_def split: if_split_asm)
  have near: "rat_of_int (\<lfloor>y\<rfloor> div page * page) \<le> y \<and> y < rat_of_int (\<lfloor>y\<rfloor> div page * page + page)" for y :: rat
  proof
    have "\<lfloor>y\<rfloor> div page * page \<le> \<lfloor>y\<rfloor>" using assms(2) by (simp add: minus_mod_eq_div_mult [symmetric])
    then show "rat_of_int (\<lfloor>y\<rfloor> div page * page) \<le> y" by (simp add: le_floor_iff)
    have "\<lfloor>y\<rfloor> + 1 \<le> \<lfloor>y\<rfloor> div page * page + page"
      using assms(2) pos_mod_bound [of page "\<lfloor>y\<rfloor>"] div_mult_mod_eq [of "\<lfloor>y\<rfloor>" page] by linarith
    then show "y < rat_of_int (\<lfloor>y\<rfloor> div page * page + page)" by linarith
  qed
  have "list_all2 (\<lambda>x n. \<exists>q. x = Some q \<and> rat_of_int n \<le> q * rat_of_int GB \<and> q * rat_of_int GB < rat_of_int (n + page)) items sizes"
    unfolding sizes using items near
    by (induction items) (auto split: option.splits)
  then show ?thesis using page fits sizes by (auto simp: list_all_iff)
qed

theorem pool_sizes_bounds_witness:
  "parse_pool_sizes_gb 4096 [Some (1 / 2), Some 1] = Inr [536870912, 1073741824] \<and>
    list_all (\<lambda>n. 4096 \<le> n \<and> n mod 4096 = 0) [536870912, 1073741824 :: int]"
proof -
  have "parse_pool_sizes_gb 4096 [Some (1 / 2), Some 1] = Inr [536870912, 1073741824]"
    by (simp add: parse_pool_sizes_gb_def Let_def GB_def maxsize_def DEFAULT_JOURNAL_BYTES_def)
  then show ?thesis using pool_sizes_bounds [of 4096 "[Some (1 / 2), Some 1]"] by simp
qed

subsection \<open>Startup\<close>

lemma guard_start_runs: "guard_start env g = (Inr (), h) \<Longrightarrow> g_thread h = Running"
  by (auto simp: guard_start_def readS_def raiseS_def thenS_def bindS_def modS_def split: if_splits prod.splits sum.splits)

lemma build_ranks_ok:
  assumes "build_ranks env a is gs = (Inr (), gs')" "list_all (\<lambda>(i, g). g_thread g = Running \<and> guard_ok g) gs"
  shows "map fst gs' = map fst gs @ is \<and> list_all (\<lambda>(i, g). g_thread g = Running \<and> guard_ok g) gs'"
  using assms
proof (induction "is" arbitrary: gs)
  case (Cons i "is")
  obtain gs1 b where b: "build_rank env a i gs = (Inr (), gs1, b)" "build_ranks env a is gs1 = (Inr (), gs')"
    using Cons(2) by (auto split: prod.splits sum.splits)
  obtain spec bs g h where g: "guard_init spec (ra_digest a) (ra_pool_sizes a) True (ra_heartbeat a) (ra_startup a) bs = Inr g"
    "guard_start (ri_guard env i) g = (Inr (), h)" "gs1 = gs @ [(i, h)]"
    using b(1) by (auto simp: build_rank_def split: prod.splits sum.splits)
  have "guard_ok h" using start_ok [OF guard_init_ok [OF g(1)], of "ri_guard env i"] g(2) by simp
  then have "list_all (\<lambda>(i, g). g_thread g = Running \<and> guard_ok g) gs1" using guard_start_runs [OF g(2)] Cons(3) g(3) by simp
  then show ?case using Cons(1) [OF b(2)] g(3) by simp
qed simp

text \<open>
  C21. A service that starts has all its Guards: one per rank, each running and in a state of which the
  safety invariant of a Guard holds.
\<close>

theorem registry_starts_complete:
  assumes "registry_init env n a = (Inr reg, gs)"
  shows "map fst (r_guards reg) = [0..<n] \<and> r_guard_count reg = n \<and>
    list_all (\<lambda>(i, g). g_thread g = Running \<and> guard_ok g) (r_guards reg)"
  using assms build_ranks_ok [of env a "[0..<n]" "[]"] by (auto simp: registry_init_def split: if_splits prod.splits sum.splits)

definition sample_registry_env :: registry_env where
  "sample_registry_env = \<lparr>ri_pool_dir = True, ri_allocate = (\<lambda>_ _ _. Inr (lease_spec, replicate 4168 0)), ri_guard = (\<lambda>_. quiet_env 0),
     ri_meanwhile = (\<lambda>_ g. g)\<rparr>"

definition sample_registry_args :: registry_args where
  "sample_registry_args = \<lparr>ra_pool_sizes = [8], ra_journal_bytes = 4160, ra_digest = ''d'', ra_heartbeat = Some 1, ra_startup = None\<rparr>"

theorem registry_starts_complete_witness:
  "\<exists>reg gs. registry_init sample_registry_env 2 sample_registry_args = (Inr reg, gs) \<and> map fst (r_guards reg) = [0, 1]"
proof -
  have up: "[0..<2] = [0, 1 :: nat]" by (simp add: upt_rec)
  have "\<exists>reg gs. registry_init sample_registry_env 2 sample_registry_args = (Inr reg, gs)"
    by (simp add: registry_init_def up sample_registry_env_def sample_registry_args_def build_rank_def guard_init_def MIN_HEARTBEAT_TIMEOUT_def
        guard_start_def rs_prepare_def on_recovery_def readS_def thenS_def bindS_def modS_def liftR_def retS_def recovery_init_def)
  then show ?thesis using registry_starts_complete [of sample_registry_env 2 sample_registry_args] up by (metis (no_types, lifting))
qed

end
