(* ===== verification/Spec2Isabelle.thy ===== *)
theory Spec2Isabelle
  imports KVCR_Server
begin

text \<open>
  A model of KVCR, the KV cache runner under \<open>src/src/kvcr\<close>, and the theorems that make its parts correct.

  \<^bold>\<open>The program.\<close> A \<open>core\<close> (\<open>runtime/core.py\<close>) keeps cache blocks for an inference framework. Its blocks live in
  slots of local DRAM pools (\<open>backends/local_dram_pools.py\<close>, \<open>backends/local_dram.py\<close>), may move to files
  (\<open>backends/local_disk.py\<close>) and may be pulled from peers (\<open>backends/remote_fw_dram.py\<close>); a placement policy
  (\<open>policy.py\<close>, \<open>runtime/policy_runtime.py\<close>) ranks what is evicted. A separate service (\<open>service/server.py\<close>) owns
  the shared memory of the pools. A worker claims a pool group over a socket (\<open>service/protocol.py\<close>) and
  publishes its records into a ring at the head of the shared file (\<open>service/recovery_journal.py\<close>). One \<open>Guard\<close>
  per group (\<open>service/guard.py\<close>) mirrors them. When the worker dies the Guard serves the pool with a core of its
  own, and hands it back to the next worker through a region past the pool.

  \<^bold>\<open>Conventions.\<close> A Python dict is an association list in insertion order; an exception is a value of \<open>exn\<close>;
  an operation on a state is \<open>('s, 'a) sx\<close>, which keeps the state an exception was raised in (\<open>KVCR_Prelude\<close>,
  \<open>KVCR_Monad\<close>). Mutable residency objects are addresses in the store of the core. Integers are unbounded as
  in Python, and are cut to their width where bytes are packed. The clock is a rational number. What the
  operating system, NIXL, ZeroMQ, msgpack or a framework answers is an argument; what is relied on is a named
  hypothesis (\<open>codec_ok\<close>, \<open>digest_ok\<close>, \<open>wire_ok\<close>), with a witness that meets it.

  \<^bold>\<open>Theories and sources.\<close>
  \<^item> \<open>KVCR_Eviction\<close>: \<open>_EvictionQueue\<close>. Candidates come in score order, each once, also when the queue changes
    under an open scan; the heap stays within twice the live entries.
  \<^item> \<open>KVCR_Frames\<close>: packed integers, journal and handback frames, \<open>FramedConnection\<close>. Messages survive any
    chunking, truncated ones are rejected, descriptors are kept or closed.
  \<^item> \<open>KVCR_Journal\<close>: \<open>RecoveryJournal\<close>. Producer and consumer interleave between their loads and stores; what is
    read is what was published, in order, whole and once, also when the producer dies in a publish.
  \<^item> \<open>KVCR_Types\<close>, \<open>KVCR_Layout\<close>, \<open>KVCR_Policy\<close>: value types, layouts and regions with their validation, the
    built-in policies and the invoker that shields a core from a policy.
  \<^item> \<open>KVCR_State\<close>, \<open>KVCR_Pools\<close>, \<open>KVCR_LocalDram\<close>, \<open>KVCR_G3\<close>, \<open>KVCR_Remote\<close>, \<open>KVCR_Core\<close>, \<open>KVCR_Init\<close>: the state of a
    core, its backends, its public operations and its construction.
  \<^item> \<open>KVCR_PoolInv\<close>, \<open>KVCR_Alloc\<close>, \<open>KVCR_DramInv\<close>, \<open>KVCR_CoreInv\<close>, \<open>KVCR_RecoverInv\<close>: the invariant of the pools and that
    every operation keeps it. Allocation ends and evicts only idle blocks. The backends call back into the
    core through hooks; the locale \<open>request_hooks\<close> is their contract and the core interprets it.
  \<^item> \<open>KVCR_Memory\<close>, \<open>KVCR_Protocol\<close>, \<open>KVCR_Recovery\<close>: the pool file, the messages and the claim of a worker, the
    recovery records, the mirror and the handback region.
  \<^item> \<open>KVCR_Lease\<close>, \<open>KVCR_Guard\<close>: \<open>_PoolLease\<close>, \<open>_RecoveryState\<close> and \<open>_Guard\<close>, with its mailbox and reservations.
  \<^item> \<open>KVCR_GuardInv\<close>, \<open>KVCR_GuardRun\<close>, \<open>KVCR_GuardSafety\<close>: the steps of a Guard, its invariant and the safety
    properties: exclusive leases, a single server, fixed tiers, well-formed cores.
  \<^item> \<open>KVCR_Server\<close>: \<open>_PoolRegistry\<close>, \<open>_RequestHandler\<close>, the health probes and the command line.
  \<^item> this theory: a run of a core, and the properties that span its components.

  \<^bold>\<open>Scope of the theorems.\<close> The pool invariant is proved for cores without a G3 tier, as the core of a Guard is;
  the operations of the G3 tier are modelled and the theorems make no claim about them. A call of a core, and
  an operation of a Guard's actor or of its callers, is one step: the code holds the core's lock or the
  Guard's phase lock, or runs on the one thread that writes those fields. A Guard that serves beside an open
  lease has sent \<open>SIGKILL\<close>; as the code says of itself, that the signal is queued does not mean that the
  process has stopped, and the theorem claims no more.

  \<^bold>\<open>Fuel and bounds.\<close> Five loops of the code run under a bound.
  \<^item> \<open>replay_all\<close> drains the journal into a mirror. It has one step per alignment unit of the ring and one
    more; every frame takes at least such a unit, so it never runs out whatever the file holds
    (\<open>journal_drain_ends\<close>).
  \<^item> \<open>drain\<close> reads the frames that are left in a ring; one step per unread frame and one more is enough
    (\<open>drain_after_producer_stops\<close>).
  \<^item> \<open>alloc_scan\<close>, the capacity scan of a core, has one step per key of the core and one more; it always
    returns (\<open>allocation_is_safe\<close>).
  \<^item> \<open>g3_scan\<close>, the scan of the G3 tier, has one step per entry of its heap and one more: every round takes
    an entry out. No theorem states this.
  \<^item> \<open>fill_hook\<close> ties a fill that cannot start to the completion that may start the next one. \<open>with_hooks\<close>
    gives it one level per unsettled key of a pending operation, plus what the call adds, and one more.
    That this is enough is argued in KVCR_Core and not proved; the theorems on cores are invariants, which
    hold also after a call that raised, and do not rest on it.

  To run out is the exception \<open>OutOfFuel\<close>. \<open>catchS\<close>, which the model of a core uses, does not catch it; \<open>exceptS\<close>
  of the service does, and treats it as any other failure of the core.

  \<^bold>\<open>Not modelled.\<close> The progress thread (\<open>runtime/progress.py\<close>), the transport of remote reads
  (\<open>backends/remote_ops.py\<close>, \<open>backends/remote_sources.py\<close>, \<open>backends/dangling_ops.py\<close>, and the part of
  \<open>backends/remote_fw_dram.py\<close> that runs on that thread): they consist of exchanges with NIXL and ZeroMQ, and what
  reaches the modelled state is an argument. Hints (\<open>hints/\<close>) and the facade (\<open>api.py\<close>): clients of the modelled
  operations. Creating, locking, mapping and purging files, sockets and signals: calls to the operating system.
  Tracing (\<open>_nvtx/\<close>), telemetry, key history and logging: they change no state of the program.
\<close>

section \<open>A sample run\<close>

text \<open>
  A core with one pool of two slots that starts from one recovered block, which a remote peer reads.
\<close>

definition sample_config :: KVCRConfig where
  "sample_config = \<lparr>nixl_agent_name = ''a'', cfg_pool_layouts = [(''p'', 4)], operation_timeout_ms = 1000,
     abandon_timeout_ms = 5000, capacity_low_watermark_percent = 0, startup_timeout_seconds = None\<rparr>"

definition sample_bindings :: "unit bindings" where
  "sample_bindings = \<lparr>framework_control = True, inventory_sink = False, capacity_needed_callback = False,
     bound_policy = FIFOPolicy, key_adapter = None\<rparr>"

definition sample_backends :: backend_configs where
  "sample_backends = \<lparr>framework_regions = [\<lparr>mem_type = ''DRAM'', device_Id = 0, addr = 4096, stride = 0, count = 8,
       elem_size = 4, region_label = ''p''\<rparr>],
     local_dram_options = Some ([(''p'', 65536, 8)], ''UCX''), g3_options = None, eager_connect = False, opportunistic = False\<rparr>"

definition sample_core :: "unit core" where
  "sample_core = projr (core_init sample_config sample_bindings sample_backends () 0 1)"

definition sample_record :: "residency block_record" where
  "sample_record = \<lparr>fw_mem = None, local_dram = Some (make_residency [(''p'', 1)] READY None None), g3 = None,
     in_flight_ops = [], rec_access_count = 0, rec_last_access = None, rec_position = 0\<rparr>"

definition sample_recovered :: "unit core" where
  "sample_recovered = snd (install_recovery_records [([1], sample_record)] sample_core)"

definition sample_read :: "unit core" where
  "sample_read = run_call (AcquireReaders False [[1]]
     [[\<lparr>end_point_name = ''b'', element_index = 0, label = ''p'', framework = True\<rparr>]] [] False) sample_recovered"


lemma sample_core_init: "core_init sample_config sample_bindings sample_backends () 0 1 = Inr sample_core"
proof -
  have "\<not> isl (core_init sample_config sample_bindings sample_backends () 0 1)" by code_simp
  then show ?thesis by (cases "core_init sample_config sample_bindings sample_backends () 0 1") (simp_all add: sample_core_def)
qed

lemma sample_no_g3: "g3_options sample_backends = None"
  by (simp add: sample_backends_def)

lemma sample_starts: "starts sample_backends sample_recovered"
proof (rule starts.recovered)
  show "starts sample_backends sample_core" by (rule starts.built [OF sample_core_init])
  show "dict_wf [([1], sample_record)]" by (simp add: dict_wf_def)
  show "list_all (clean_record \<circ> snd) [([1], sample_record)]"
    by (simp add: clean_record_def sample_record_def make_residency_def)
  have "fst (install_recovery_records [([1], sample_record)] sample_core) = Inr ()" by code_simp
  then show "install_recovery_records [([1], sample_record)] sample_core = (Inr (), sample_recovered)"
    by (simp add: sample_recovered_def prod_eq_iff)
qed

lemma sample_reaches: "reaches sample_recovered sample_recovered" "reaches sample_recovered sample_read"
  unfolding sample_read_def by (intro reaches.intros)+

section \<open>Properties of the whole core\<close>

text \<open>
  C1. Slots are conserved. In every state that a core without a disk tier reaches, from its construction
  or from recovered records, by any sequence of calls of the framework and of the progress thread, each
  slot of each configured pool has exactly one owner: it is once on the free list of its pool, or once
  in one residency that is attached to a key. No slot is lost, freed twice or given to two blocks.
\<close>

theorem slots_have_one_owner:
  assumes "starts bc s0" and "g3_options bc = None" and "reaches s0 s"
  shows "free_occurrences s pool slot + held_occurrences s pool slot = (if slot < capacity_of (cfg s) pool then 1 else 0)"
  by (rule pools_ok_owners [OF run_ok [OF assms]])

theorem slots_have_one_owner_witness:
  "held_occurrences sample_read ''p'' 1 = 1 \<and>
   free_occurrences sample_read ''p'' 1 + held_occurrences sample_read ''p'' 1 =
     (if 1 < capacity_of (cfg sample_read) ''p'' then 1 else 0)"
proof
  show "held_occurrences sample_read ''p'' 1 = 1" by code_simp
qed (rule slots_have_one_owner [OF sample_starts sample_no_g3 sample_reaches(2)])



text \<open>
  C4. Only what may go is up for eviction. In every reachable state, a key in the eviction queue, or
  waiting there for a score, has a residency that is complete, not claimed by any operation and not
  already retiring.
\<close>

theorem eviction_candidates_are_idle:
  assumes "starts bc s0" and "g3_options bc = None" and "reaches s0 s"
    and "evq_score (evictable (pl s)) k \<noteq> None \<or> k \<in> set (unscored (pl s))"
  shows "\<exists>a. residency_of s k = Some a \<and> rstate (res_store s a) = READY \<and> claim_count (res_store s a) = 0 \<and>
    \<not> retire_on_release (res_store s a) \<and> pending (res_store s a) = {}"
  using pool_ok_indexed [OF run_ok [OF assms(1-3)], of k] assms(4)
  by (auto simp: indexed_def evictable_now_def)

theorem eviction_candidates_are_idle_witness:
  "evq_score (evictable (pl sample_read)) [1] \<noteq> None \<and>
   (\<exists>a. residency_of sample_read [1] = Some a \<and> rstate (res_store sample_read a) = READY \<and>
      claim_count (res_store sample_read a) = 0 \<and> \<not> retire_on_release (res_store sample_read a) \<and>
      pending (res_store sample_read a) = {})"
proof
  show r: "evq_score (evictable (pl sample_read)) [1] \<noteq> None" by code_simp
  show "\<exists>a. residency_of sample_read [1] = Some a \<and> rstate (res_store sample_read a) = READY \<and>
      claim_count (res_store sample_read a) = 0 \<and> \<not> retire_on_release (res_store sample_read a) \<and>
      pending (res_store sample_read a) = {}"
    by (rule eviction_candidates_are_idle [OF sample_starts sample_no_g3 sample_reaches(2)]) (use r in blast)
qed

text \<open>
  C5. A remote peer is only offered blocks that are there. In every reachable state, a source in the
  table that the progress thread reads from is the residency of its key, complete, ready and not
  retiring.
\<close>

theorem published_sources_are_complete:
  assumes "starts bc s0" and "g3_options bc = None" and "reaches s0 s"
    and "map_of (src_index (pl s)) k = Some (Some a)"
  shows "residency_of s k = Some a \<and> rstate (res_store s a) = READY \<and> pending (res_store s a) = {} \<and>
    \<not> retire_on_release (res_store s a)"
  using pool_ok_published [OF run_ok [OF assms(1-3)] assms(4)] by (simp add: readable_def)

theorem published_sources_are_complete_witness:
  "map_of (src_index (pl sample_read)) [1] = Some (Some 0) \<and> residency_of sample_read [1] = Some 0 \<and>
   rstate (res_store sample_read 0) = READY \<and> pending (res_store sample_read 0) = {} \<and>
   \<not> retire_on_release (res_store sample_read 0)"
proof -
  have r: "map_of (src_index (pl sample_read)) [1] = Some (Some 0)" by code_simp
  show ?thesis using published_sources_are_complete [OF sample_starts sample_no_g3 sample_reaches(2) r] r by simp
qed



end
